theory Spec2Isabelle
  imports Main "HOL-Library.Sublist"
begin

section \<open>JavaScript values\<close>

text \<open>
  The relayer is JavaScript. Strings are modelled as lists of code units below 256,
  BigInt amounts and block numbers as \<open>int\<close>, and an awaited call that may reject as
  a value of \<open>'a rpc\<close>.
\<close>

datatype 'a rpc = Throws string | Returns 'a

text \<open>
  A value produced by \<^verbatim>\<open>JSON.parse\<close>. A number \<open>JNum m e\<close> stands for
  \<open>m * 10 ^ e\<close>; only whether it is zero is ever read. The members of an object are
  kept in textual order; a later member with the same key overrides an earlier one.
\<close>

datatype json =
    JNull
  | JBool bool
  | JNum int int
  | JStr string
  | JArr "json list"
  | JObj "(string \<times> json) list"

text \<open>
  Property read \<^verbatim>\<open>v.key\<close>: a TypeError on \<^verbatim>\<open>null\<close> (outer \<open>None\<close>),
  \<^verbatim>\<open>undefined\<close> when the property is missing (inner \<open>None\<close>). Only own data
  properties of parsed objects are modelled.
\<close>

fun js_get :: "json \<Rightarrow> string \<Rightarrow> json option option" where
  "js_get JNull k = None"
| "js_get (JObj kvs) k = Some (map_of (rev kvs) k)"
| "js_get v k = Some None"

text \<open>Truthiness of a variable that holds \<^verbatim>\<open>undefined\<close> (\<open>None\<close>) or a value.\<close>

fun js_truthy :: "json option \<Rightarrow> bool" where
  "js_truthy None = False"
| "js_truthy (Some JNull) = False"
| "js_truthy (Some (JBool b)) = b"
| "js_truthy (Some (JNum m e)) = (m \<noteq> 0)"
| "js_truthy (Some (JStr s)) = (s \<noteq> [])"
| "js_truthy (Some (JArr vs)) = True"
| "js_truthy (Some (JObj kvs)) = True"

subsection \<open>String methods\<close>

definition js_whitespace :: "char \<Rightarrow> bool" where
  "js_whitespace c \<longleftrightarrow>
     c = CHR 0x09 \<or> c = CHR 0x0A \<or> c = CHR 0x0B \<or> c = CHR 0x0C \<or> c = CHR 0x0D
     \<or> c = CHR 0x20 \<or> c = CHR 0xA0"

definition trim :: "string \<Rightarrow> string" where
  "trim s = rev (dropWhile js_whitespace (rev (dropWhile js_whitespace s)))"

text \<open>\<^verbatim>\<open>s.includes(p)\<close>\<close>

fun js_includes :: "string \<Rightarrow> string \<Rightarrow> bool" where
  "js_includes [] p = (p = [])"
| "js_includes (c # cs) p = (prefix p (c # cs) \<or> js_includes cs p)"

text \<open>\<^verbatim>\<open>s.split(sep)\<close> for a one-character separator; the result is never empty.\<close>

fun js_split :: "char \<Rightarrow> string \<Rightarrow> string list" where
  "js_split sep [] = [[]]"
| "js_split sep (c # cs) =
     (if c = sep then [] # js_split sep cs
      else (case js_split sep cs of
              p # ps \<Rightarrow> (c # p) # ps
            | [] \<Rightarrow> [[c]]))"

text \<open>\<^verbatim>\<open>s.replace(/[{}]/g, '')\<close>\<close>

definition removeBraces :: "string \<Rightarrow> string" where
  "removeBraces s = filter (\<lambda>c. c \<noteq> CHR ''{'' \<and> c \<noteq> CHR ''}'') s"

subsection \<open>JSON.parse\<close>

text \<open>
  \<^verbatim>\<open>JSON.parse\<close> belongs to the runtime, not to the repository. The functions of
  the repository that call it take the parser as an argument \<open>parse\<close> (\<open>None\<close> when
  it throws), so what is proved about them holds for every parser. \<open>JSON_parse\<close> below
  is a parser for the JSON grammar used to run them on concrete texts. It reads numbers
  exactly and rejects a \<^verbatim>\<open>\u\<close> escape of a code unit above 255, which lies outside
  the modelled alphabet. The first argument of \<open>parse_value\<close> bounds the nesting
  depth: every call consumes input before it descends, so twice the length of the text
  is never exhausted.
\<close>

definition is_json_ws :: "char \<Rightarrow> bool" where
  "is_json_ws c \<longleftrightarrow> c = CHR 0x20 \<or> c = CHR 0x09 \<or> c = CHR 0x0A \<or> c = CHR 0x0D"

definition skip_ws :: "string \<Rightarrow> string" where
  "skip_ws s = dropWhile is_json_ws s"

definition is_digit :: "char \<Rightarrow> bool" where
  "is_digit c \<longleftrightarrow> (48::nat) \<le> of_char c \<and> of_char c \<le> (57::nat)"

definition digits_value :: "string \<Rightarrow> int" where
  "digits_value ds = foldl (\<lambda>a c. 10 * a + (int (of_char c) - 48)) 0 ds"

definition hex_value :: "char \<Rightarrow> nat option" where
  "hex_value c =
     (let n = of_char c :: nat in
      if 48 \<le> n \<and> n \<le> 57 then Some (n - 48)
      else if 65 \<le> n \<and> n \<le> 70 then Some (n - 55)
      else if 97 \<le> n \<and> n \<le> 102 then Some (n - 87)
      else None)"

definition hex4 :: "char \<Rightarrow> char \<Rightarrow> char \<Rightarrow> char \<Rightarrow> nat option" where
  "hex4 a b c d =
     (case (hex_value a, hex_value b, hex_value c, hex_value d) of
        (Some w, Some x, Some y, Some z) \<Rightarrow> Some (((w * 16 + x) * 16 + y) * 16 + z)
      | _ \<Rightarrow> None)"

definition simple_escape :: "char \<Rightarrow> char option" where
  "simple_escape e =
     (if e = CHR 0x22 then Some (CHR 0x22)
      else if e = CHR 0x5C then Some (CHR 0x5C)
      else if e = CHR ''/'' then Some (CHR ''/'')
      else if e = CHR ''b'' then Some (CHR 0x08)
      else if e = CHR ''f'' then Some (CHR 0x0C)
      else if e = CHR ''n'' then Some (CHR 0x0A)
      else if e = CHR ''r'' then Some (CHR 0x0D)
      else if e = CHR ''t'' then Some (CHR 0x09)
      else None)"

text \<open>The characters of a string literal after its opening quote, collected in \<open>acc\<close>.\<close>

fun parse_chars :: "string \<Rightarrow> string \<Rightarrow> (string \<times> string) option" where
  "parse_chars acc [] = None"
| "parse_chars acc (c # cs) =
     (if c = CHR 0x22 then Some (rev acc, cs)
      else if (of_char c :: nat) < 32 then None
      else if c = CHR 0x5C then
        (case cs of
           [] \<Rightarrow> None
         | e # cs1 \<Rightarrow>
             if e = CHR ''u'' then
               (case cs1 of
                  h1 # h2 # h3 # h4 # cs2 \<Rightarrow>
                    (case hex4 h1 h2 h3 h4 of
                       None \<Rightarrow> None
                     | Some n \<Rightarrow> if n < 256 then parse_chars (char_of n # acc) cs2 else None)
                | _ \<Rightarrow> None)
             else
               (case simple_escape e of
                  None \<Rightarrow> None
                | Some x \<Rightarrow> parse_chars (x # acc) cs1))
      else parse_chars (c # acc) cs)"

definition parse_exponent :: "string \<Rightarrow> (int \<times> string) option" where
  "parse_exponent s =
     (case s of
        [] \<Rightarrow> Some (0, s)
      | c # r \<Rightarrow>
          if c = CHR ''e'' \<or> c = CHR ''E'' then
            (let (neg, r1) =
                   (case r of
                      [] \<Rightarrow> (False, r)
                    | g # r0 \<Rightarrow>
                        if g = CHR ''-'' then (True, r0)
                        else if g = CHR ''+'' then (False, r0)
                        else (False, r));
                 ds = takeWhile is_digit r1
             in if ds = [] then None
                else Some ((if neg then - digits_value ds else digits_value ds),
                           dropWhile is_digit r1))
          else Some (0, s))"

definition parse_fraction :: "string \<Rightarrow> (string \<times> string) option" where
  "parse_fraction s =
     (case s of
        [] \<Rightarrow> Some ([], s)
      | c # r \<Rightarrow>
          if c = CHR ''.'' then
            (let ds = takeWhile is_digit r
             in if ds = [] then None else Some (ds, dropWhile is_digit r))
          else Some ([], s))"

definition parse_number :: "string \<Rightarrow> (json \<times> string) option" where
  "parse_number s =
     (let (neg, s1) =
            (case s of
               [] \<Rightarrow> (False, s)
             | c # r \<Rightarrow> if c = CHR ''-'' then (True, r) else (False, s));
          ip = takeWhile is_digit s1
      in if ip = [] \<or> (1 < length ip \<and> hd ip = CHR ''0'') then None
         else
           (case parse_fraction (dropWhile is_digit s1) of
              None \<Rightarrow> None
            | Some (fp, s2) \<Rightarrow>
                (case parse_exponent s2 of
                   None \<Rightarrow> None
                 | Some (ex, s3) \<Rightarrow>
                     Some (JNum (if neg then - digits_value (ip @ fp) else digits_value (ip @ fp))
                                (ex - int (length fp)), s3))))"

fun parse_value :: "nat \<Rightarrow> string \<Rightarrow> (json \<times> string) option"
  and parse_elements :: "nat \<Rightarrow> json list \<Rightarrow> string \<Rightarrow> (json list \<times> string) option"
  and parse_members ::
    "nat \<Rightarrow> (string \<times> json) list \<Rightarrow> string \<Rightarrow> ((string \<times> json) list \<times> string) option"
where
  "parse_value 0 s = None"
| "parse_value (Suc n) s =
     (case skip_ws s of
        [] \<Rightarrow> None
      | c # cs \<Rightarrow>
          if c = CHR ''{'' then
            (case skip_ws cs of
               [] \<Rightarrow> None
             | d # ds \<Rightarrow>
                 if d = CHR ''}'' then Some (JObj [], ds)
                 else (case parse_members n [] (d # ds) of
                         None \<Rightarrow> None
                       | Some (kvs, r) \<Rightarrow> Some (JObj kvs, r)))
          else if c = CHR ''['' then
            (case skip_ws cs of
               [] \<Rightarrow> None
             | d # ds \<Rightarrow>
                 if d = CHR '']'' then Some (JArr [], ds)
                 else (case parse_elements n [] (d # ds) of
                         None \<Rightarrow> None
                       | Some (vs, r) \<Rightarrow> Some (JArr vs, r)))
          else if c = CHR 0x22 then
            (case parse_chars [] cs of
               None \<Rightarrow> None
             | Some (str, r) \<Rightarrow> Some (JStr str, r))
          else if prefix ''true'' (c # cs) then Some (JBool True, drop 4 (c # cs))
          else if prefix ''false'' (c # cs) then Some (JBool False, drop 5 (c # cs))
          else if prefix ''null'' (c # cs) then Some (JNull, drop 4 (c # cs))
          else parse_number (c # cs))"
| "parse_elements 0 acc s = None"
| "parse_elements (Suc n) acc s =
     (case parse_value n s of
        None \<Rightarrow> None
      | Some (v, r) \<Rightarrow>
          (case skip_ws r of
             [] \<Rightarrow> None
           | c # cs \<Rightarrow>
               if c = CHR '','' then parse_elements n (v # acc) cs
               else if c = CHR '']'' then Some (rev (v # acc), cs)
               else None))"
| "parse_members 0 acc s = None"
| "parse_members (Suc n) acc s =
     (case skip_ws s of
        [] \<Rightarrow> None
      | q # s1 \<Rightarrow>
          if q \<noteq> CHR 0x22 then None
          else
            (case parse_chars [] s1 of
               None \<Rightarrow> None
             | Some (key, s2) \<Rightarrow>
                 (case skip_ws s2 of
                    [] \<Rightarrow> None
                  | col # s3 \<Rightarrow>
                      if col \<noteq> CHR '':'' then None
                      else
                        (case parse_value n s3 of
                           None \<Rightarrow> None
                         | Some (v, r) \<Rightarrow>
                             (case skip_ws r of
                                [] \<Rightarrow> None
                              | c # cs \<Rightarrow>
                                  if c = CHR '','' then parse_members n ((key, v) # acc) cs
                                  else if c = CHR ''}'' then Some (rev ((key, v) # acc), cs)
                                  else None)))))"

definition JSON_parse :: "string \<Rightarrow> json option" where
  "JSON_parse s =
     (case parse_value (2 * length s + 2) s of
        None \<Rightarrow> None
      | Some (v, r) \<Rightarrow> if skip_ws r = [] then Some v else None)"


section \<open>StateManager\<close>

text \<open>
  The state object of \<^verbatim>\<open>StateManager\<close> (\<^verbatim>\<open>state.js\<close>). \<open>processedDeposits\<close> and
  \<open>processedBurns\<close> are arrays of identifier strings; \<open>transactionHashes\<close> is an
  object keyed by identifier (kept as an association list in insertion order), and it may
  be absent from a state that was loaded from an older file. Times are readings of the
  wall clock handed in by the caller.
\<close>

type_synonym time = nat

datatype tx_type = deposit | burn

record tx_record =
  txType :: tx_type
  sourceTxHash :: json
  destTxHash :: "string option"
  sourceChain :: string
  destChain :: string
  timestamp :: time

record relayer_state =
  lastBscBlock :: "int option"
  lastUcBlock :: "int option"
  processedDeposits :: "string list"
  processedBurns :: "string list"
  transactionHashes :: "(string \<times> tx_record) list option"
  lastSaved :: "time option"
  startedAt :: time

text \<open>\<^verbatim>\<open>obj[k] = v\<close>: an existing key keeps its place, a new key goes last.\<close>

fun js_set :: "string \<Rightarrow> 'v \<Rightarrow> (string \<times> 'v) list \<Rightarrow> (string \<times> 'v) list" where
  "js_set k v [] = [(k, v)]"
| "js_set k v (p # ps) = (if fst p = k then (k, v) # ps else p # js_set k v ps)"

text \<open>\<^verbatim>\<open>xs.slice(-n)\<close>: the last \<open>n\<close> elements.\<close>

definition slice_last :: "nat \<Rightarrow> 'a list \<Rightarrow> 'a list" where
  "slice_last n xs = drop (length xs - n) xs"

text \<open>
  \<^verbatim>\<open>saveState\<close> stamps the state and writes it to the state file. A failed write is
  caught and logged, so the caller sees the same state either way; the file itself is
  not part of this model.
\<close>

definition saveState :: "time \<Rightarrow> relayer_state \<Rightarrow> relayer_state" where
  "saveState now st = st\<lparr>lastSaved := Some now\<rparr>"

definition setLastBscBlock :: "time \<Rightarrow> int \<Rightarrow> relayer_state \<Rightarrow> relayer_state" where
  "setLastBscBlock now block st = saveState now (st\<lparr>lastBscBlock := Some block\<rparr>)"

definition setLastUcBlock :: "time \<Rightarrow> int \<Rightarrow> relayer_state \<Rightarrow> relayer_state" where
  "setLastUcBlock now block st = saveState now (st\<lparr>lastUcBlock := Some block\<rparr>)"

definition addProcessedDeposit :: "time \<Rightarrow> string \<Rightarrow> relayer_state \<Rightarrow> relayer_state" where
  "addProcessedDeposit now depositIdStr st =
     (if depositIdStr \<notin> set (processedDeposits st) then
        (let pushed = processedDeposits st @ [depositIdStr];
             kept = (if 10000 < length pushed then slice_last 10000 pushed else pushed)
         in saveState now (st\<lparr>processedDeposits := kept\<rparr>))
      else st)"

definition addProcessedBurn :: "time \<Rightarrow> string \<Rightarrow> relayer_state \<Rightarrow> relayer_state" where
  "addProcessedBurn now burnIdStr st =
     (if burnIdStr \<notin> set (processedBurns st) then
        (let pushed = processedBurns st @ [burnIdStr];
             kept = (if 10000 < length pushed then slice_last 10000 pushed else pushed)
         in saveState now (st\<lparr>processedBurns := kept\<rparr>))
      else st)"

definition isDepositProcessed :: "string \<Rightarrow> relayer_state \<Rightarrow> bool" where
  "isDepositProcessed depositId st \<longleftrightarrow> depositId \<in> set (processedDeposits st)"

definition isBurnProcessed :: "string \<Rightarrow> relayer_state \<Rightarrow> bool" where
  "isBurnProcessed burnId st \<longleftrightarrow> burnId \<in> set (processedBurns st)"

definition getLastBscBlock :: "relayer_state \<Rightarrow> int option" where
  "getLastBscBlock st = lastBscBlock st"

definition getLastUcBlock :: "relayer_state \<Rightarrow> int option" where
  "getLastUcBlock st = lastUcBlock st"

text \<open>The object that \<^verbatim>\<open>if (!this.state.transactionHashes)\<close> leaves in place.\<close>

definition hashesOrEmpty :: "relayer_state \<Rightarrow> (string \<times> tx_record) list" where
  "hashesOrEmpty st = (case transactionHashes st of None \<Rightarrow> [] | Some h \<Rightarrow> h)"

definition addDepositTxHashes ::
  "time \<Rightarrow> string \<Rightarrow> json \<Rightarrow> string option \<Rightarrow> relayer_state \<Rightarrow> relayer_state" where
  "addDepositTxHashes now idStr bscTxHash ucTxHash st =
     saveState now
       (st\<lparr>transactionHashes :=
            Some (js_set idStr
                    \<lparr>txType = deposit, sourceTxHash = bscTxHash, destTxHash = ucTxHash,
                     sourceChain = ''BSC'', destChain = ''UC'', timestamp = now\<rparr>
                    (hashesOrEmpty st))\<rparr>)"

definition addBurnTxHashes ::
  "time \<Rightarrow> string \<Rightarrow> json \<Rightarrow> string option \<Rightarrow> relayer_state \<Rightarrow> relayer_state" where
  "addBurnTxHashes now idStr ucTxHash bscTxHash st =
     saveState now
       (st\<lparr>transactionHashes :=
            Some (js_set idStr
                    \<lparr>txType = burn, sourceTxHash = ucTxHash, destTxHash = bscTxHash,
                     sourceChain = ''UC'', destChain = ''BSC'', timestamp = now\<rparr>
                    (hashesOrEmpty st))\<rparr>)"


definition getTransactionHashes :: "string \<Rightarrow> relayer_state \<Rightarrow> tx_record option" where
  "getTransactionHashes idStr st =
     (case transactionHashes st of None \<Rightarrow> None | Some h \<Rightarrow> map_of h idStr)"

definition getAllTransactionHashes :: "relayer_state \<Rightarrow> (string \<times> tx_record) list" where
  "getAllTransactionHashes st = hashesOrEmpty st"




subsection \<open>loadState\<close>

text \<open>
  What \<^verbatim>\<open>loadState\<close> finds on disk: no file, a file whose read throws, or the
  text of the file. It returns the parsed value as it is, or the literal fresh state.
\<close>

datatype state_file = NoFile | Unreadable string | Contents string

definition freshState :: "string \<Rightarrow> json" where
  "freshState now =
     JObj [(''lastBscBlock'', JNull), (''lastUcBlock'', JNull),
           (''processedDeposits'', JArr []), (''processedBurns'', JArr []),
           (''transactionHashes'', JObj []), (''lastSaved'', JNull),
           (''startedAt'', JStr now)]"

text \<open>
  \<^verbatim>\<open>v.length\<close> read for logging: it throws when \<open>v\<close> is \<^verbatim>\<open>undefined\<close> or
  \<^verbatim>\<open>null\<close> and is harmless otherwise.
\<close>

definition lengthReadable :: "json option option \<Rightarrow> bool" where
  "lengthReadable r \<longleftrightarrow> (case r of Some (Some v) \<Rightarrow> v \<noteq> JNull | _ \<Rightarrow> False)"

definition loadState :: "(string \<Rightarrow> json option) \<Rightarrow> string \<Rightarrow> state_file \<Rightarrow> json" where
  "loadState parse now f =
     (case f of
        NoFile \<Rightarrow> freshState now
      | Unreadable msg \<Rightarrow> freshState now
      | Contents data \<Rightarrow>
          (case parse data of
             None \<Rightarrow> freshState now
           | Some state \<Rightarrow>
               if js_get state ''lastSaved'' \<noteq> None
                  \<and> lengthReadable (js_get state ''processedDeposits'')
                  \<and> lengthReadable (js_get state ''processedBurns'')
               then state
               else freshState now))"

section \<open>Fee\<close>

text \<open>BigInt division truncates toward zero.\<close>

definition bigint_div :: "int \<Rightarrow> int \<Rightarrow> int" where
  "bigint_div a b = sgn a * sgn b * (\<bar>a\<bar> div \<bar>b\<bar>)"

definition feeAmount :: "int \<Rightarrow> int" where
  "feeAmount originalAmount = bigint_div originalAmount 100"

definition netAmount :: "int \<Rightarrow> int" where
  "netAmount originalAmount = originalAmount - feeAmount originalAmount"


section \<open>Chain access\<close>

text \<open>
  A decoded log carries the event name and its arguments; \<open>eventId\<close> is the
  \<^verbatim>\<open>depositId\<close> of a Deposit and the \<^verbatim>\<open>burnId\<close> of a Burn, a
  \<^verbatim>\<open>bytes32\<close> that ethers hands over as a hex string.
\<close>

type_synonym raw_log = string

record event_args =
  user :: string
  amount :: int
  eventId :: string
  destinationAddress :: string

record parsed_log =
  name :: string
  args :: event_args

record receipt =
  status :: int
  logs :: "raw_log list"
  blockNumber :: int

text \<open>An event as \<^verbatim>\<open>queryFilter\<close> or a listener delivers it.\<close>

record bridge_event =
  eventArgs :: event_args
  transactionHash :: string
  eventBlock :: int

text \<open>
  A submitted destination transaction: its hash, and what \<^verbatim>\<open>tx.wait()\<close> gives,
  the hash of the mined receipt or a rejection.
\<close>

record submitted =
  txHash :: string
  wait :: "string rpc"

text \<open>
  What one invocation of a pipeline observes of the two chains:
  \<open>getTransactionReceipt\<close> and \<open>getBlockNumber\<close> on the source chain (the latter by
  the number of the poll, since the head moves between polls), \<open>parseLog\<close> of the
  source bridge's interface (\<open>None\<close> when it throws or returns \<^verbatim>\<open>null\<close>),
  and \<open>submit\<close>, the \<^verbatim>\<open>mint\<close> or \<^verbatim>\<open>unlock\<close> call on the destination
  bridge.
\<close>

record chain_env =
  getTransactionReceipt :: "json \<Rightarrow> receipt option rpc"
  parseLog :: "raw_log \<Rightarrow> parsed_log option"
  getBlockNumber :: "nat \<Rightarrow> int rpc"
  submit :: "string \<Rightarrow> int \<Rightarrow> string \<Rightarrow> submitted rpc"
  clock :: time

text \<open>The calls a run makes, in the order it makes them.\<close>

datatype effect =
    ReceiptFetched json
  | HeadPolled int
  | Slept int
  | Minted string int string
  | Unlocked string int string
  | DepositMarked string
  | BurnMarked string
  | HashesStored string
  | Invoked tx_type json
  | Queried int int
  | Dispatched bridge_event
  | CursorSaved tx_type int
  | Rotated nat

definition isSubmission :: "effect \<Rightarrow> bool" where
  "isSubmission e \<longleftrightarrow> (case e of Minted d n i \<Rightarrow> True | Unlocked d n i \<Rightarrow> True | _ \<Rightarrow> False)"

subsection \<open>Verification of the source transaction\<close>

datatype verify_error =
    RpcError string
  | ReceiptNotFound
  | TransactionReverted
  | EventNotFound

definition verifyReceipt :: "chain_env \<Rightarrow> json \<Rightarrow> verify_error + receipt" where
  "verifyReceipt env h =
     (case getTransactionReceipt env h of
        Throws msg \<Rightarrow> Inl (RpcError msg)
      | Returns None \<Rightarrow> Inl ReceiptNotFound
      | Returns (Some r) \<Rightarrow> if status r \<noteq> 1 then Inl TransactionReverted else Inr r)"

text \<open>
  \<^verbatim>\<open>receipt.logs.map(log => { try { return parseLog(log) } catch { return null } })
  .find(e => e && e.name === evName)\<close>
\<close>

definition findEvent :: "(raw_log \<Rightarrow> parsed_log option) \<Rightarrow> string \<Rightarrow> raw_log list \<Rightarrow> parsed_log option" where
  "findEvent parse evName ls =
     (case find (\<lambda>e. case e of None \<Rightarrow> False | Some p \<Rightarrow> name p = evName) (map parse ls) of
        Some (Some p) \<Rightarrow> Some p
      | _ \<Rightarrow> None)"

definition verifyEvent :: "chain_env \<Rightarrow> string \<Rightarrow> json \<Rightarrow> verify_error + receipt \<times> parsed_log" where
  "verifyEvent env evName h =
     (case verifyReceipt env h of
        Inl err \<Rightarrow> Inl err
      | Inr r \<Rightarrow>
          (case findEvent (parseLog env) evName (logs r) of
             None \<Rightarrow> Inl EventNotFound
           | Some ev \<Rightarrow> Inr (r, ev)))"

text \<open>The message of the error thrown for each failure, by chain and event name.\<close>

fun errorMessage :: "string \<Rightarrow> string \<Rightarrow> verify_error \<Rightarrow> string" where
  "errorMessage chain evName (RpcError msg) = msg"
| "errorMessage chain evName ReceiptNotFound = ''Transaction receipt not found''"
| "errorMessage chain evName TransactionReverted = ''Transaction failed on '' @ chain"
| "errorMessage chain evName EventNotFound = evName @ '' event not found in transaction''"

subsection \<open>Waiting for confirmations\<close>

definition requiredConfirmations :: int where
  "requiredConfirmations = 6"

text \<open>
  The head is polled; when the confirmations fall short the run sleeps
  \<open>blocksToWait * blockMs\<close> and polls once more. The value is the last
  \<^verbatim>\<open>confirmations\<close>, or the message of a poll that threw.
\<close>

definition awaitConfirmations ::
  "(nat \<Rightarrow> int rpc) \<Rightarrow> int \<Rightarrow> int \<Rightarrow> (string + int) \<times> effect list" where
  "awaitConfirmations poll eventBlockNumber blockMs =
     (case poll 0 of
        Throws msg \<Rightarrow> (Inl msg, [])
      | Returns currentBlock \<Rightarrow>
          (let confirmations = currentBlock - eventBlockNumber in
           if confirmations < requiredConfirmations then
             (let blocksToWait = requiredConfirmations - confirmations;
                  waitTime = blocksToWait * blockMs
              in case poll 1 of
                   Throws msg \<Rightarrow> (Inl msg, [HeadPolled currentBlock, Slept waitTime])
                 | Returns currentBlock2 \<Rightarrow>
                     (Inr (currentBlock2 - eventBlockNumber),
                      [HeadPolled currentBlock, Slept waitTime, HeadPolled currentBlock2]))
           else (Inr confirmations, [HeadPolled currentBlock])))"

section \<open>Processing by transaction hash\<close>

text \<open>
  \<^verbatim>\<open>processDepositByTxHash\<close> (\<^verbatim>\<open>process-deposit.js\<close>) and
  \<^verbatim>\<open>processWithdrawalByTxHash\<close> (\<^verbatim>\<open>process-withdrawal.js\<close>), each with
  a \<^verbatim>\<open>StateManager\<close> of its own.

  The object a pipeline resolves to. \<open>Success\<close> carries the identifier, the source
  and destination hashes, the net, original and fee amounts (the source formats them as
  decimal strings) and the recipient; \<open>AlreadyProcessed\<close> and \<open>Failure\<close> are the two
  objects with \<^verbatim>\<open>success: false\<close>.
\<close>

datatype process_result =
    Success string json string int int int string
  | AlreadyProcessed string
  | Failure string

fun success :: "process_result \<Rightarrow> bool" where
  "success (Success i s d n orig f rcp) = True"
| "success (AlreadyProcessed msg) = False"
| "success (Failure msg) = False"

text \<open>
  The catch block of \<^verbatim>\<open>processDepositByTxHash\<close> reads a variable \<^verbatim>\<open>event\<close>
  that is declared nowhere, so building its log entry throws a ReferenceError and the
  promise rejects; the message of the original error is lost. The catch block of
  \<^verbatim>\<open>processWithdrawalByTxHash\<close> resolves to the failure object.
\<close>

definition depositCatch :: "string \<Rightarrow> process_result rpc" where
  "depositCatch msg = Throws ''event is not defined''"

definition withdrawalCatch :: "string \<Rightarrow> process_result rpc" where
  "withdrawalCatch msg = Returns (Failure msg)"

definition processDepositByTxHash ::
  "chain_env \<Rightarrow> json \<Rightarrow> relayer_state \<Rightarrow> process_result rpc \<times> relayer_state \<times> effect list" where
  "processDepositByTxHash env bscTxHash st =
     (case verifyEvent env ''Deposit'' bscTxHash of
        Inl err \<Rightarrow>
          (depositCatch (errorMessage ''BSC'' ''Deposit'' err), st, [ReceiptFetched bscTxHash])
      | Inr (rcpt, depositEvent) \<Rightarrow>
          (let depositIdStr = eventId (args depositEvent) in
           if isDepositProcessed depositIdStr st then
             (Returns (AlreadyProcessed ''Deposit already processed''), st,
              [ReceiptFetched bscTxHash])
           else
             (case awaitConfirmations (getBlockNumber env) (blockNumber rcpt) 3000 of
                (Inl msg, polls) \<Rightarrow> (depositCatch msg, st, ReceiptFetched bscTxHash # polls)
              | (Inr confirmations, polls) \<Rightarrow>
                  (let originalAmount = amount (args depositEvent);
                       fee = feeAmount originalAmount;
                       net = netAmount originalAmount;
                       dest = destinationAddress (args depositEvent);
                       calls = ReceiptFetched bscTxHash # polls @ [Minted dest net depositIdStr]
                   in case submit env dest net depositIdStr of
                        Throws msg \<Rightarrow> (depositCatch msg, st, calls)
                      | Returns mintTx \<Rightarrow>
                          (case wait mintTx of
                             Throws msg \<Rightarrow> (depositCatch msg, st, calls)
                           | Returns ucHash \<Rightarrow>
                               (Returns (Success depositIdStr bscTxHash ucHash net
                                           originalAmount fee dest),
                                addDepositTxHashes (clock env) depositIdStr bscTxHash (Some ucHash)
                                  (addProcessedDeposit (clock env) depositIdStr st),
                                calls @ [DepositMarked depositIdStr,
                                         HashesStored depositIdStr]))))))"

definition processWithdrawalByTxHash ::
  "chain_env \<Rightarrow> json \<Rightarrow> relayer_state \<Rightarrow> process_result rpc \<times> relayer_state \<times> effect list" where
  "processWithdrawalByTxHash env ucTxHash st =
     (case verifyEvent env ''Burn'' ucTxHash of
        Inl err \<Rightarrow>
          (withdrawalCatch (errorMessage ''UC'' ''Burn'' err), st, [ReceiptFetched ucTxHash])
      | Inr (rcpt, burnEvent) \<Rightarrow>
          (let burnIdStr = eventId (args burnEvent) in
           if isBurnProcessed burnIdStr st then
             (Returns (AlreadyProcessed ''Withdrawal already processed''), st,
              [ReceiptFetched ucTxHash])
           else
             (case awaitConfirmations (getBlockNumber env) (blockNumber rcpt) 5000 of
                (Inl msg, polls) \<Rightarrow> (withdrawalCatch msg, st, ReceiptFetched ucTxHash # polls)
              | (Inr confirmations, polls) \<Rightarrow>
                  (let originalAmount = amount (args burnEvent);
                       fee = feeAmount originalAmount;
                       net = netAmount originalAmount;
                       dest = destinationAddress (args burnEvent);
                       calls = ReceiptFetched ucTxHash # polls @ [Unlocked dest net burnIdStr]
                   in case submit env dest net burnIdStr of
                        Throws msg \<Rightarrow> (withdrawalCatch msg, st, calls)
                      | Returns unlockTx \<Rightarrow>
                          (case wait unlockTx of
                             Throws msg \<Rightarrow> (withdrawalCatch msg, st, calls)
                           | Returns bscHash \<Rightarrow>
                               (Returns (Success burnIdStr ucTxHash bscHash net
                                           originalAmount fee dest),
                                addBurnTxHashes (clock env) burnIdStr ucTxHash (Some bscHash)
                                  (addProcessedBurn (clock env) burnIdStr st),
                                calls @ [BurnMarked burnIdStr, HashesStored burnIdStr]))))))"


section \<open>HTTP gateway\<close>

text \<open>The request handlers of the HTTP server that the entry point of the service creates.\<close>

datatype response_body = ErrorBody string | ResultBody process_result

record response =
  statusCode :: nat
  body :: response_body

text \<open>
  The value of \<^verbatim>\<open>txHash\<close> after the body has been read: it starts as
  \<^verbatim>\<open>null\<close>; the body is trimmed and one pair of enclosing quotes is removed;
  \<^verbatim>\<open>JSON.parse\<close> and the read of \<^verbatim>\<open>parsed.txHash\<close> share one
  \<^verbatim>\<open>try\<close>, and when either throws the manual extraction takes \<^verbatim>\<open>parts[1]\<close>,
  the text between the first and the second colon (or the end) of the body without its
  braces.
\<close>

definition stripQuotes :: "string \<Rightarrow> string" where
  "stripQuotes cleanBody =
     (if cleanBody \<noteq> []
         \<and> ((hd cleanBody = CHR 0x27 \<and> last cleanBody = CHR 0x27)
            \<or> (hd cleanBody = CHR 0x22 \<and> last cleanBody = CHR 0x22))
      then butlast (tl cleanBody)
      else cleanBody)"

definition manualExtraction :: "string \<Rightarrow> json option" where
  "manualExtraction cleanBody =
     (if js_includes cleanBody ''txHash:'' \<and> js_includes cleanBody ''0x'' then
        (case js_split (CHR '':'') (removeBraces cleanBody) of
           p0 # p1 # ps \<Rightarrow> Some (JStr (trim p1))
         | _ \<Rightarrow> Some JNull)
      else Some JNull)"

definition extractTxHash :: "(string \<Rightarrow> json option) \<Rightarrow> string \<Rightarrow> json option" where
  "extractTxHash parse rawBody =
     (let cleanBody = stripQuotes (trim rawBody) in
      case parse cleanBody of
        None \<Rightarrow> manualExtraction cleanBody
      | Some parsed \<Rightarrow>
          (case js_get parsed ''txHash'' of
             None \<Rightarrow> manualExtraction cleanBody
           | Some v \<Rightarrow> v))"

text \<open>
  The handlers of \<^verbatim>\<open>POST /api/process-deposit\<close> and
  \<^verbatim>\<open>POST /api/process-withdrawal\<close>. The state is that of the pipeline's own
  \<^verbatim>\<open>StateManager\<close>.
\<close>

definition respond ::
  "tx_type \<Rightarrow> json \<Rightarrow> process_result rpc \<times> relayer_state \<times> effect list
     \<Rightarrow> response \<times> relayer_state \<times> effect list" where
  "respond ty h run =
     (case run of
        (Returns result, st, calls) \<Rightarrow>
          (\<lparr>statusCode = (if success result then 200 else 400), body = ResultBody result\<rparr>,
           st, Invoked ty h # calls)
      | (Throws msg, st, calls) \<Rightarrow>
          (\<lparr>statusCode = 500, body = ErrorBody ''Internal server error''\<rparr>,
           st, Invoked ty h # calls))"

definition handleProcessDeposit ::
  "(string \<Rightarrow> json option) \<Rightarrow> chain_env \<Rightarrow> string \<Rightarrow> relayer_state
     \<Rightarrow> response \<times> relayer_state \<times> effect list" where
  "handleProcessDeposit parse env rawBody st =
     (case extractTxHash parse rawBody of
        None \<Rightarrow> (\<lparr>statusCode = 400, body = ErrorBody ''Transaction hash required''\<rparr>, st, [])
      | Some h \<Rightarrow>
          if \<not> js_truthy (Some h) then
            (\<lparr>statusCode = 400, body = ErrorBody ''Transaction hash required''\<rparr>, st, [])
          else respond deposit h (processDepositByTxHash env h st))"

definition handleProcessWithdrawal ::
  "(string \<Rightarrow> json option) \<Rightarrow> chain_env \<Rightarrow> string \<Rightarrow> relayer_state
     \<Rightarrow> response \<times> relayer_state \<times> effect list" where
  "handleProcessWithdrawal parse env rawBody st =
     (case extractTxHash parse rawBody of
        None \<Rightarrow> (\<lparr>statusCode = 400, body = ErrorBody ''Transaction hash required''\<rparr>, st, [])
      | Some h \<Rightarrow>
          if \<not> js_truthy (Some h) then
            (\<lparr>statusCode = 400, body = ErrorBody ''Transaction hash required''\<rparr>, st, [])
          else respond burn h (processWithdrawalByTxHash env h st))"

section \<open>BridgeRelayer\<close>

text \<open>
  The fields of \<^verbatim>\<open>BridgeRelayer\<close> (\<^verbatim>\<open>relayer.js\<close>) that its methods
  read and write. The two
  \<^verbatim>\<open>Set\<close>s are only ever added to and asked for membership.
\<close>

record relayer =
  processedDepositsSet :: "string set"
  processedBurnsSet :: "string set"
  isRunning :: bool
  stateManager :: relayer_state
  currentBscRpcIndex :: nat
  bscLastBlock :: int
  ucLastBlock :: int

definition bscRpcEndpoints :: "string list" where
  "bscRpcEndpoints =
     [''https://bsc-dataseed1.binance.org'', ''https://bsc-dataseed2.binance.org'',
      ''https://bsc-dataseed3.binance.org'', ''https://bsc-dataseed4.binance.org'',
      ''https://bsc.publicnode.com'', ''https://bsc-rpc.publicnode.com'']"

definition getNextBscRpc :: "relayer \<Rightarrow> string \<times> relayer" where
  "getNextBscRpc r =
     (let i = (currentBscRpcIndex r + 1) mod length bscRpcEndpoints
      in (bscRpcEndpoints ! i, r\<lparr>currentBscRpcIndex := i\<rparr>))"

text \<open>
  The cursor with which \<^verbatim>\<open>initialize\<close> starts a loop:
  \<^verbatim>\<open>lastBscBlock || start\<close>, where \<open>start\<close> is the head or the configured
  block. A saved cursor of 0 is falsy and gives way to \<open>start\<close>.
\<close>

definition startingBlock :: "int option \<Rightarrow> int \<Rightarrow> int" where
  "startingBlock saved start =
     (case saved of None \<Rightarrow> start | Some b \<Rightarrow> if b = 0 then start else b)"

text \<open>
  The handlers return nothing; every early return and every caught error leaves the
  relayer as it was.
\<close>

definition handleBscDeposit :: "chain_env \<Rightarrow> bridge_event \<Rightarrow> relayer \<Rightarrow> relayer \<times> effect list" where
  "handleBscDeposit env event r =
     (let depositIdStr = eventId (eventArgs event);
          h = JStr (transactionHash event)
      in if depositIdStr \<in> processedDepositsSet r then (r, [])
         else
           (case awaitConfirmations (getBlockNumber env) (eventBlock event) 3000 of
              (Inl msg, polls) \<Rightarrow> (r, polls)
            | (Inr confirmations, polls) \<Rightarrow>
                (case verifyEvent env ''Deposit'' h of
                   Inl err \<Rightarrow> (r, polls @ [ReceiptFetched h])
                 | Inr (rcpt, verifiedEvent) \<Rightarrow>
                     (let verifiedData = args verifiedEvent in
                      if eventId verifiedData \<noteq> depositIdStr then (r, polls @ [ReceiptFetched h])
                      else
                        (let originalAmount = amount verifiedData;
                             net = netAmount originalAmount;
                             calls = polls @ [ReceiptFetched h,
                                       Minted (destinationAddress verifiedData) net
                                         (eventId verifiedData)]
                         in case submit env (destinationAddress verifiedData) net
                                   (eventId verifiedData) of
                              Throws msg \<Rightarrow> (r, calls)
                            | Returns tx \<Rightarrow>
                                (case wait tx of
                                   Throws msg \<Rightarrow> (r, calls)
                                 | Returns ucHash \<Rightarrow>
                                     (r\<lparr>processedDepositsSet :=
                                          insert depositIdStr (processedDepositsSet r),
                                        stateManager :=
                                          addDepositTxHashes (clock env) depositIdStr h
                                            (Some ucHash)
                                            (addProcessedDeposit (clock env) depositIdStr
                                               (stateManager r))\<rparr>,
                                      calls @ [DepositMarked depositIdStr,
                                               HashesStored depositIdStr])))))))"

definition handleUcBurn :: "chain_env \<Rightarrow> bridge_event \<Rightarrow> relayer \<Rightarrow> relayer \<times> effect list" where
  "handleUcBurn env event r =
     (let burnIdStr = eventId (eventArgs event);
          h = JStr (transactionHash event)
      in if burnIdStr \<in> processedBurnsSet r then (r, [])
         else
           (case awaitConfirmations (getBlockNumber env) (eventBlock event) 5000 of
              (Inl msg, polls) \<Rightarrow> (r, polls)
            | (Inr confirmations, polls) \<Rightarrow>
                (case verifyReceipt env h of
                   Inl err \<Rightarrow> (r, polls @ [ReceiptFetched h])
                 | Inr rcpt \<Rightarrow>
                     (let originalAmount = amount (eventArgs event);
                          net = netAmount originalAmount;
                          dest = destinationAddress (eventArgs event);
                          calls = polls @ [ReceiptFetched h, Unlocked dest net burnIdStr]
                      in case submit env dest net burnIdStr of
                           Throws msg \<Rightarrow> (r, calls)
                         | Returns tx \<Rightarrow>
                             (case wait tx of
                                Throws msg \<Rightarrow> (r, calls)
                              | Returns bscHash \<Rightarrow>
                                  (r\<lparr>processedBurnsSet := insert burnIdStr (processedBurnsSet r),
                                     stateManager :=
                                       addBurnTxHashes (clock env) burnIdStr h (Some bscHash)
                                         (addProcessedBurn (clock env) burnIdStr
                                            (stateManager r))\<rparr>,
                                   calls @ [BurnMarked burnIdStr, HashesStored burnIdStr]))))))"

subsection \<open>The monitoring loops\<close>

text \<open>
  What one pass of a monitoring loop observes: the head reported by
  \<^verbatim>\<open>getBlockNumber\<close>, the answer of \<^verbatim>\<open>queryFilter\<close> for a block range,
  and what the handler of the \<open>i\<close>-th event of the block observes in its turn.
\<close>

record watch_env =
  head :: "int rpc"
  queryFilter :: "int \<Rightarrow> int \<Rightarrow> bridge_event list rpc"
  handlerEnv :: "nat \<Rightarrow> chain_env"
  watchClock :: time

text \<open>\<^verbatim>\<open>for (const event of events) await this.handle...(event)\<close>\<close>

fun dispatch ::
  "(chain_env \<Rightarrow> bridge_event \<Rightarrow> relayer \<Rightarrow> relayer \<times> effect list) \<Rightarrow> (nat \<Rightarrow> chain_env)
     \<Rightarrow> nat \<Rightarrow> bridge_event list \<Rightarrow> relayer \<Rightarrow> relayer \<times> effect list" where
  "dispatch handler envs i [] r = (r, [])"
| "dispatch handler envs i (e # es) r =
     (case handler (envs i) e r of
        (r1, t1) \<Rightarrow>
          (case dispatch handler envs (Suc i) es r1 of
             (r2, t2) \<Rightarrow> (r2, Dispatched e # t1 @ t2)))"

definition isRateLimit :: "string \<Rightarrow> bool" where
  "isRateLimit msg \<longleftrightarrow>
     js_includes msg ''rate limit'' \<or> js_includes msg ''429'' \<or> js_includes msg ''missing response''"

definition isNetwork :: "string \<Rightarrow> bool" where
  "isNetwork msg \<longleftrightarrow> js_includes msg ''timeout'' \<or> js_includes msg ''network''"

text \<open>\<^verbatim>\<open>Math.min(5000 * Math.pow(2, consecutiveErrors - 1), 60000)\<close>\<close>

definition rateLimitWait :: "nat \<Rightarrow> int" where
  "rateLimitWait consecutiveErrors = min (5000 * 2 ^ (consecutiveErrors - 1)) 60000"

text \<open>
  The catch block of \<^verbatim>\<open>monitorBscDeposits\<close>; \<open>consecutiveErrors\<close> is the local
  counter of the loop.
\<close>

definition bscMonitorCatch :: "string \<Rightarrow> nat \<times> relayer \<Rightarrow> (nat \<times> relayer) \<times> effect list" where
  "bscMonitorCatch msg s =
     (case s of
        (consecutiveErrors, r) \<Rightarrow>
          (let n = consecutiveErrors + 1 in
           if isRateLimit msg then
             (case getNextBscRpc r of
                (newRpc, r1) \<Rightarrow>
                  ((n, r1), [Rotated (currentBscRpcIndex r1), Slept (rateLimitWait n)]))
           else if isNetwork msg then ((n, r), [Slept 10000])
           else ((n, r), [Slept 15000])))"

text \<open>One pass of the \<^verbatim>\<open>while (this.isRunning)\<close> loop of \<^verbatim>\<open>monitorBscDeposits\<close>.\<close>

definition monitorBscDeposits :: "watch_env \<Rightarrow> nat \<times> relayer \<Rightarrow> (nat \<times> relayer) \<times> effect list" where
  "monitorBscDeposits env s =
     (case s of
        (consecutiveErrors, r) \<Rightarrow>
          (case head env of
             Throws msg \<Rightarrow> bscMonitorCatch msg s
           | Returns currentBlock \<Rightarrow>
               if bscLastBlock r < currentBlock then
                 (let blocksBehind = currentBlock - bscLastBlock r;
                      toBlock = bscLastBlock r + 1
                  in case queryFilter env toBlock toBlock of
                       Throws msg \<Rightarrow>
                         (case bscMonitorCatch msg s of
                            (s1, t) \<Rightarrow> (s1, HeadPolled currentBlock # Queried toBlock toBlock # t))
                     | Returns events \<Rightarrow>
                         (case dispatch handleBscDeposit (handlerEnv env) 0 events r of
                            (r1, t) \<Rightarrow>
                              ((0, r1\<lparr>bscLastBlock := toBlock,
                                       stateManager :=
                                         setLastBscBlock (watchClock env) toBlock
                                           (stateManager r1)\<rparr>),
                               HeadPolled currentBlock # Queried toBlock toBlock # t
                                 @ CursorSaved deposit toBlock
                                 # (if blocksBehind \<le> 1 then [Slept 5000] else []))))
               else (s, [HeadPolled currentBlock, Slept 5000])))"

definition ucMonitorCatch :: "string \<Rightarrow> effect list" where
  "ucMonitorCatch msg =
     (if js_includes msg ''rate limit'' \<or> js_includes msg ''429'' then [Slept 10000]
      else if isNetwork msg then [Slept 2000]
      else [Slept 5000])"

text \<open>One pass of the loop of \<^verbatim>\<open>monitorUcBurns\<close>.\<close>

definition monitorUcBurns :: "watch_env \<Rightarrow> relayer \<Rightarrow> relayer \<times> effect list" where
  "monitorUcBurns env r =
     (case head env of
        Throws msg \<Rightarrow> (r, ucMonitorCatch msg)
      | Returns currentBlock \<Rightarrow>
          if ucLastBlock r < currentBlock then
            (let blocksBehind = currentBlock - ucLastBlock r;
                 toBlock = ucLastBlock r + 1
             in case queryFilter env toBlock toBlock of
                  Throws msg \<Rightarrow>
                    (r, HeadPolled currentBlock # Queried toBlock toBlock # ucMonitorCatch msg)
                | Returns events \<Rightarrow>
                    (case dispatch handleUcBurn (handlerEnv env) 0 events r of
                       (r1, t) \<Rightarrow>
                         (r1\<lparr>ucLastBlock := toBlock,
                              stateManager :=
                                setLastUcBlock (watchClock env) toBlock (stateManager r1)\<rparr>,
                          HeadPolled currentBlock # Queried toBlock toBlock # t
                            @ CursorSaved burn toBlock
                            # (if blocksBehind \<le> 1 then [Slept 1000] else []))))
          else (r, [HeadPolled currentBlock, Slept 1000]))"

text \<open>A run of passes while \<^verbatim>\<open>isRunning\<close> holds, one observation per pass.\<close>

fun runBscMonitor :: "watch_env list \<Rightarrow> nat \<times> relayer \<Rightarrow> (nat \<times> relayer) \<times> effect list" where
  "runBscMonitor [] s = (s, [])"
| "runBscMonitor (env # envs) s =
     (if isRunning (snd s) then
        (case monitorBscDeposits env s of
           (s1, t1) \<Rightarrow> (case runBscMonitor envs s1 of (s2, t2) \<Rightarrow> (s2, t1 @ t2)))
      else (s, []))"

fun runUcMonitor :: "watch_env list \<Rightarrow> relayer \<Rightarrow> relayer \<times> effect list" where
  "runUcMonitor [] r = (r, [])"
| "runUcMonitor (env # envs) r =
     (if isRunning r then
        (case monitorUcBurns env r of
           (r1, t1) \<Rightarrow> (case runUcMonitor envs r1 of (r2, t2) \<Rightarrow> (r2, t1 @ t2)))
      else (r, []))"


section \<open>Sample data\<close>



text \<open>
  A source chain with a deposit transaction \<open>0xtx1\<close> and a burn transaction
  \<open>0xtx2\<close>, both mined in block 100. The first log of the deposit transaction does
  not decode. Every destination call is accepted and mined.
\<close>

definition depositLog :: parsed_log where
  "depositLog =
     \<lparr>name = ''Deposit'',
      args = \<lparr>user = ''0xuser'', amount = 100000000, eventId = ''0xd1'',
              destinationAddress = ''0xrecipient''\<rparr>\<rparr>"

definition burnLog :: parsed_log where
  "burnLog =
     \<lparr>name = ''Burn'',
      args = \<lparr>user = ''0xuser'', amount = 250, eventId = ''0xb1'',
              destinationAddress = ''0xrecipient''\<rparr>\<rparr>"

definition sampleReceipts :: "json \<Rightarrow> receipt option rpc" where
  "sampleReceipts h =
     (if h = JStr ''0xtx1'' then
        Returns (Some \<lparr>status = 1, logs = [''0xlog0'', ''0xlog1''], blockNumber = 100\<rparr>)
      else if h = JStr ''0xtx2'' then
        Returns (Some \<lparr>status = 1, logs = [''0xlog2''], blockNumber = 100\<rparr>)
      else Returns None)"

definition sampleParseLog :: "raw_log \<Rightarrow> parsed_log option" where
  "sampleParseLog l =
     (if l = ''0xlog1'' then Some depositLog
      else if l = ''0xlog2'' then Some burnLog
      else None)"

definition acceptAll :: "string \<Rightarrow> int \<Rightarrow> string \<Rightarrow> submitted rpc" where
  "acceptAll dest net i = Returns \<lparr>txHash = ''0xdest1'', wait = Returns ''0xdest1''\<rparr>"

text \<open>The head stands at block 110 at every poll.\<close>

definition sampleEnv :: chain_env where
  "sampleEnv =
     \<lparr>getTransactionReceipt = sampleReceipts, parseLog = sampleParseLog,
      getBlockNumber = (\<lambda>n. Returns 110), submit = acceptAll, clock = 1000\<rparr>"

text \<open>
  The head stands at block 102 at the first poll and at block 103 at the second: the
  chain produces one block during the sleep.
\<close>

definition slowEnv :: chain_env where
  "slowEnv =
     \<lparr>getTransactionReceipt = sampleReceipts, parseLog = sampleParseLog,
      getBlockNumber = (\<lambda>n. Returns (102 + int n)), submit = acceptAll, clock = 1000\<rparr>"

text \<open>The same chain with a destination contract that rejects every call.\<close>

definition revertingEnv :: chain_env where
  "revertingEnv = sampleEnv\<lparr>submit := (\<lambda>dest net i. Throws ''execution reverted'')\<rparr>"

definition emptyState :: relayer_state where
  "emptyState =
     \<lparr>lastBscBlock = None, lastUcBlock = None, processedDeposits = [], processedBurns = [],
      transactionHashes = Some [], lastSaved = None, startedAt = 0\<rparr>"

definition sampleRelayer :: relayer where
  "sampleRelayer =
     \<lparr>processedDepositsSet = {}, processedBurnsSet = {}, isRunning = True,
      stateManager = emptyState, currentBscRpcIndex = 0, bscLastBlock = 99, ucLastBlock = 99\<rparr>"

definition sampleDeposit :: bridge_event where
  "sampleDeposit = \<lparr>eventArgs = args depositLog, transactionHash = ''0xtx1'', eventBlock = 100\<rparr>"

definition sampleBurn :: bridge_event where
  "sampleBurn = \<lparr>eventArgs = args burnLog, transactionHash = ''0xtx2'', eventBlock = 100\<rparr>"

text \<open>
  Three passes of a monitoring loop: the head is two blocks ahead and block 100 holds
  one event; the head is where the cursor is; the provider answers with a rate-limit
  error.
\<close>

definition blockPass :: "bridge_event \<Rightarrow> watch_env" where
  "blockPass ev =
     \<lparr>head = Returns 101,
      queryFilter = (\<lambda>a b. if a \<le> 100 \<and> 100 \<le> b then Returns [ev] else Returns []),
      handlerEnv = (\<lambda>i. sampleEnv), watchClock = 2000\<rparr>"

definition caughtUpPass :: watch_env where
  "caughtUpPass =
     \<lparr>head = Returns 99, queryFilter = (\<lambda>a b. Returns []),
      handlerEnv = (\<lambda>i. sampleEnv), watchClock = 2000\<rparr>"

definition rateLimitedPass :: watch_env where
  "rateLimitedPass =
     \<lparr>head = Throws ''429 Too Many Requests'', queryFilter = (\<lambda>a b. Returns []),
      handlerEnv = (\<lambda>i. sampleEnv), watchClock = 2000\<rparr>"

text \<open>
  A run of three passes from cursor 99: block 100 is scanned, the provider answers with
  a rate-limit error, block 101 is scanned.
\<close>

definition sampleRun :: "watch_env list" where
  "sampleRun = [blockPass sampleDeposit, rateLimitedPass, blockPass sampleDeposit]"

text \<open>The request body \<^verbatim>\<open>{"txHash":"0xtx1"}\<close> and its malformed kin.\<close>

definition quoted :: "string \<Rightarrow> string" where
  "quoted s = CHR 0x22 # s @ [CHR 0x22]"

definition sampleBody :: string where
  "sampleBody = ''{'' @ quoted ''txHash'' @ '':'' @ quoted ''0xtx1'' @ ''}''"



section \<open>Reading a run\<close>

text \<open>
  The effect of a call to \<^verbatim>\<open>addProcessedDeposit\<close> or \<^verbatim>\<open>addProcessedBurn\<close>.
\<close>

definition isMark :: "effect \<Rightarrow> bool" where
  "isMark e \<longleftrightarrow> (case e of DepositMarked i \<Rightarrow> True | BurnMarked i \<Rightarrow> True | _ \<Rightarrow> False)"

text \<open>The calls of a run that precede its first destination submission.\<close>

definition beforeSubmission :: "effect list \<Rightarrow> effect list" where
  "beforeSubmission t = takeWhile (\<lambda>e. \<not> isSubmission e) t"

text \<open>The calls that only a monitoring loop makes.\<close>

definition isLoopEffect :: "effect \<Rightarrow> bool" where
  "isLoopEffect e \<longleftrightarrow>
     (case e of Queried a b \<Rightarrow> True | Dispatched ev \<Rightarrow> True | CursorSaved ty b \<Rightarrow> True
      | _ \<Rightarrow> False)"

text \<open>The block ranges queried, the events dispatched and the cursors saved in a run.\<close>

definition queriesOf :: "effect list \<Rightarrow> (int \<times> int) list" where
  "queriesOf t = concat (map (\<lambda>e. case e of Queried a b \<Rightarrow> [(a, b)] | _ \<Rightarrow> []) t)"

definition dispatchedOf :: "effect list \<Rightarrow> bridge_event list" where
  "dispatchedOf t = concat (map (\<lambda>e. case e of Dispatched ev \<Rightarrow> [ev] | _ \<Rightarrow> []) t)"

definition savesOf :: "effect list \<Rightarrow> (tx_type \<times> int) list" where
  "savesOf t = concat (map (\<lambda>e. case e of CursorSaved ty b \<Rightarrow> [(ty, b)] | _ \<Rightarrow> []) t)"

text \<open>
  The events of a block handled one after the other, in the order of the answer of the
  query: the \<open>i\<close>-th by the handler, with what the handler observes in its turn, from
  the state that the events before it have left. The result is the state after the last
  event and the calls made, each event's own after the note that it was dispatched.
\<close>

definition handleInOrder ::
  "(chain_env \<Rightarrow> bridge_event \<Rightarrow> relayer \<Rightarrow> relayer \<times> effect list) \<Rightarrow> (nat \<Rightarrow> chain_env)
     \<Rightarrow> bridge_event list \<Rightarrow> relayer \<Rightarrow> relayer \<times> effect list" where
  "handleInOrder handler envs events r =
     foldl (\<lambda>(r, t) (i, e). case handler (envs i) e r of (r1, t1) \<Rightarrow> (r1, t @ Dispatched e # t1))
       (r, []) (List.enumerate 0 events)"

text \<open>The calls of a run that precede its first save of a cursor.\<close>

definition beforeSave :: "effect list \<Rightarrow> effect list" where
  "beforeSave t = takeWhile (\<lambda>e. case e of CursorSaved ty b \<Rightarrow> False | _ \<Rightarrow> True) t"

text \<open>
  The persisted cursor is behind the cursor in memory or absent, as it is after
  \<^verbatim>\<open>initialize\<close>.
\<close>

definition bscSynced :: "relayer \<Rightarrow> bool" where
  "bscSynced r \<longleftrightarrow>
     (case lastBscBlock (stateManager r) of None \<Rightarrow> True | Some b \<Rightarrow> b \<le> bscLastBlock r)"

definition ucSynced :: "relayer \<Rightarrow> bool" where
  "ucSynced r \<longleftrightarrow>
     (case lastUcBlock (stateManager r) of None \<Rightarrow> True | Some b \<Rightarrow> b \<le> ucLastBlock r)"

text \<open>\<open>a\<close> is absent or at most \<open>b\<close>.\<close>

definition cursorLe :: "int option \<Rightarrow> int option \<Rightarrow> bool" where
  "cursorLe a b \<longleftrightarrow>
     (case a of None \<Rightarrow> True | Some x \<Rightarrow> (case b of None \<Rightarrow> False | Some y \<Rightarrow> x \<le> y))"

text \<open>
  The verification algorithm in the words of the specification: fetch the receipt; fail
  if it is absent; fail if its status is not success; decode every log, discarding the
  logs that fail to decode; select the first decoded log with the expected name; fail if
  there is none.
\<close>

definition verifySpec :: "chain_env \<Rightarrow> string \<Rightarrow> json \<Rightarrow> verify_error + receipt \<times> parsed_log" where
  "verifySpec env expectedEventName h =
     (case getTransactionReceipt env h of
        Throws msg \<Rightarrow> Inl (RpcError msg)
      | Returns None \<Rightarrow> Inl ReceiptNotFound
      | Returns (Some r) \<Rightarrow>
          if status r \<noteq> 1 then Inl TransactionReverted
          else
            (case find (\<lambda>p. name p = expectedEventName)
                    (List.map_filter (parseLog env) (logs r)) of
               None \<Rightarrow> Inl EventNotFound
             | Some ev \<Rightarrow> Inr (r, ev)))"

section \<open>Properties\<close>

subsection \<open>Fee\<close>

lemma bigint_div_nonneg: "0 \<le> a \<Longrightarrow> bigint_div a 100 = a div 100"
  by (cases "a = 0") (simp_all add: bigint_div_def)

text \<open>
  C5. The fee is one hundredth of the gross amount, rounded down, and the net amount is
  the rest: for every gross amount of the unsigned 256-bit range the net amount plus
  \<open>gross div 100\<close> is the gross amount, the net amount stays in the range, the fee of
  an amount below 100 units is zero, \<open>netAmount 0 = 0\<close> and \<open>netAmount 99 = 99\<close>.
\<close>

theorem fee_exactness:
  assumes "0 \<le> gross" and "gross < 2 ^ 256"
  shows "netAmount gross + gross div 100 = gross
         \<and> feeAmount gross = gross div 100
         \<and> 0 \<le> netAmount gross \<and> netAmount gross \<le> gross
         \<and> (gross < 100 \<longrightarrow> feeAmount gross = 0 \<and> netAmount gross = gross)
         \<and> netAmount 0 = 0 \<and> netAmount 99 = 99"
proof -
  have fee: "feeAmount gross = gross div 100"
    using assms(1) by (simp add: feeAmount_def bigint_div_nonneg)
  have small: "netAmount 0 = 0 \<and> netAmount 99 = 99"
    by (simp add: netAmount_def feeAmount_def bigint_div_def)
  from fee assms(1) small show ?thesis
    by (auto simp: netAmount_def)
qed

theorem fee_exactness_witness:
  "netAmount 100000000 + 100000000 div 100 = 100000000 \<and> feeAmount 100000000 = 1000000
   \<and> netAmount 100000000 = 99000000"
  using fee_exactness [of 100000000] by (simp add: netAmount_def)

subsection \<open>Loading the state\<close>

text \<open>
  C10. When the state file exists and its text does not parse, or reading it throws,
  \<open>loadState\<close> returns what it returns when there is no file: the fresh state, with
  \<^verbatim>\<open>null\<close> block cursors, empty processed lists and an empty map of transaction
  hashes. Nothing of the file survives and no error reaches the caller.
\<close>

theorem loadState_unparseable_is_fresh:
  "(parse contents = None \<longrightarrow> loadState parse now (Contents contents) = loadState parse now NoFile)
   \<and> loadState parse now (Unreadable msg) = loadState parse now NoFile
   \<and> loadState parse now NoFile = freshState now
   \<and> js_get (freshState now) ''lastBscBlock'' = Some (Some JNull)
   \<and> js_get (freshState now) ''lastUcBlock'' = Some (Some JNull)
   \<and> js_get (freshState now) ''processedDeposits'' = Some (Some (JArr []))
   \<and> js_get (freshState now) ''processedBurns'' = Some (Some (JArr []))
   \<and> js_get (freshState now) ''transactionHashes'' = Some (Some (JObj []))"
  by (simp add: loadState_def freshState_def)

theorem loadState_unparseable_is_fresh_witness:
  "JSON_parse ''{lastBscBlock: 41'' = None
   \<and> loadState JSON_parse ''2025-01-01'' (Contents ''{lastBscBlock: 41'')
       = loadState JSON_parse ''2025-01-01'' NoFile"
proof -
  have p: "JSON_parse ''{lastBscBlock: 41'' = None" by code_simp
  with loadState_unparseable_is_fresh
         [of JSON_parse "''{lastBscBlock: 41''" "''2025-01-01''"]
  show ?thesis by simp
qed

subsection \<open>The processed lists and the hash map\<close>


















subsection \<open>Verification of the source transaction\<close>

lemma findEvent_Nil: "findEvent parse n [] = None"
  by (simp add: findEvent_def)

lemma findEvent_Cons:
  "findEvent parse n (l # ls) =
     (case parse l of
        None \<Rightarrow> findEvent parse n ls
      | Some p \<Rightarrow> if name p = n then Some p else findEvent parse n ls)"
  by (simp add: findEvent_def split: option.splits)

lemma findEvent_map_filter:
  "findEvent parse n ls = find (\<lambda>p. name p = n) (List.map_filter parse ls)"
  by (induction ls)
     (simp_all add: findEvent_Nil findEvent_Cons split: option.splits)

lemma findEvent_Some:
  "findEvent parse n ls = Some ev \<Longrightarrow> name ev = n \<and> (\<exists>l \<in> set ls. parse l = Some ev)"
proof (induction ls)
  case Nil
  then show ?case by (simp add: findEvent_Nil)
next
  case (Cons l ls)
  then show ?case
    by (cases "parse l") (auto simp: findEvent_Cons split: if_splits)
qed

lemma verifyEvent_spec: "verifyEvent env n h = verifySpec env n h"
proof (cases "getTransactionReceipt env h")
  case (Throws msg)
  then show ?thesis by (simp add: verifyEvent_def verifyReceipt_def verifySpec_def)
next
  case (Returns ro)
  show ?thesis
  proof (cases ro)
    case None
    with Returns show ?thesis by (simp add: verifyEvent_def verifyReceipt_def verifySpec_def)
  next
    case (Some r)
    with Returns show ?thesis
      by (simp add: verifyEvent_def verifyReceipt_def verifySpec_def findEvent_map_filter)
  qed
qed

lemma verifyEvent_Inr:
  assumes "verifyEvent env n h = Inr (r, ev)"
  shows "getTransactionReceipt env h = Returns (Some r) \<and> status r = 1 \<and> name ev = n
         \<and> (\<exists>l \<in> set (logs r). parseLog env l = Some ev)"
proof -
  from assms obtain r' where r': "verifyReceipt env h = Inr r'"
    by (cases "verifyReceipt env h") (simp_all add: verifyEvent_def)
  with assms have f: "findEvent (parseLog env) n (logs r') = Some ev" and eq: "r' = r"
    by (auto simp: verifyEvent_def split: option.splits)
  from r' have "getTransactionReceipt env h = Returns (Some r') \<and> status r' = 1"
    by (auto simp: verifyReceipt_def split: rpc.splits option.splits if_splits)
  with findEvent_Some [OF f] eq show ?thesis by simp
qed

subsection \<open>Runs of the pipelines\<close>

lemma awaitConfirmations_calls:
  "e \<in> set (snd (awaitConfirmations poll b ms)) \<Longrightarrow> \<not> isSubmission e \<and> \<not> isMark e"
  by (auto simp: awaitConfirmations_def Let_def isSubmission_def isMark_def
      split: rpc.splits if_splits)


lemma processDeposit_failed:
  "verifyEvent env ''Deposit'' h = Inl err \<Longrightarrow>
   processDepositByTxHash env h st
     = (depositCatch (errorMessage ''BSC'' ''Deposit'' err), st, [ReceiptFetched h])"
  by (simp add: processDepositByTxHash_def)

lemma processDeposit_already:
  "verifyEvent env ''Deposit'' h = Inr (r, ev) \<Longrightarrow> isDepositProcessed (eventId (args ev)) st \<Longrightarrow>
   processDepositByTxHash env h st
     = (Returns (AlreadyProcessed ''Deposit already processed''), st, [ReceiptFetched h])"
  by (simp add: processDepositByTxHash_def)

lemma processDeposit_unconfirmed:
  "verifyEvent env ''Deposit'' h = Inr (r, ev) \<Longrightarrow> \<not> isDepositProcessed (eventId (args ev)) st \<Longrightarrow>
   awaitConfirmations (getBlockNumber env) (blockNumber r) 3000 = (Inl msg, polls) \<Longrightarrow>
   processDepositByTxHash env h st = (depositCatch msg, st, ReceiptFetched h # polls)"
  by (simp add: processDepositByTxHash_def)

lemma processDeposit_submitted:
  "verifyEvent env ''Deposit'' h = Inr (r, ev) \<Longrightarrow> \<not> isDepositProcessed (eventId (args ev)) st \<Longrightarrow>
   awaitConfirmations (getBlockNumber env) (blockNumber r) 3000 = (Inr c, polls) \<Longrightarrow>
   processDepositByTxHash env h st
     = (case submit env (destinationAddress (args ev)) (netAmount (amount (args ev)))
               (eventId (args ev)) of
          Throws msg \<Rightarrow>
            (depositCatch msg, st,
             ReceiptFetched h # polls
               @ [Minted (destinationAddress (args ev)) (netAmount (amount (args ev)))
                    (eventId (args ev))])
        | Returns mintTx \<Rightarrow>
            (case wait mintTx of
               Throws msg \<Rightarrow>
                 (depositCatch msg, st,
                  ReceiptFetched h # polls
                    @ [Minted (destinationAddress (args ev)) (netAmount (amount (args ev)))
                         (eventId (args ev))])
             | Returns ucHash \<Rightarrow>
                 (Returns (Success (eventId (args ev)) h ucHash (netAmount (amount (args ev)))
                             (amount (args ev)) (feeAmount (amount (args ev)))
                             (destinationAddress (args ev))),
                  addDepositTxHashes (clock env) (eventId (args ev)) h (Some ucHash)
                    (addProcessedDeposit (clock env) (eventId (args ev)) st),
                  ReceiptFetched h # polls
                    @ [Minted (destinationAddress (args ev)) (netAmount (amount (args ev)))
                         (eventId (args ev)),
                       DepositMarked (eventId (args ev)), HashesStored (eventId (args ev))])))"
  by (simp add: processDepositByTxHash_def Let_def split: rpc.splits)

lemma processWithdrawal_failed:
  "verifyEvent env ''Burn'' h = Inl err \<Longrightarrow>
   processWithdrawalByTxHash env h st
     = (withdrawalCatch (errorMessage ''UC'' ''Burn'' err), st, [ReceiptFetched h])"
  by (simp add: processWithdrawalByTxHash_def)

lemma processWithdrawal_already:
  "verifyEvent env ''Burn'' h = Inr (r, ev) \<Longrightarrow> isBurnProcessed (eventId (args ev)) st \<Longrightarrow>
   processWithdrawalByTxHash env h st
     = (Returns (AlreadyProcessed ''Withdrawal already processed''), st, [ReceiptFetched h])"
  by (simp add: processWithdrawalByTxHash_def)

lemma processWithdrawal_unconfirmed:
  "verifyEvent env ''Burn'' h = Inr (r, ev) \<Longrightarrow> \<not> isBurnProcessed (eventId (args ev)) st \<Longrightarrow>
   awaitConfirmations (getBlockNumber env) (blockNumber r) 5000 = (Inl msg, polls) \<Longrightarrow>
   processWithdrawalByTxHash env h st = (withdrawalCatch msg, st, ReceiptFetched h # polls)"
  by (simp add: processWithdrawalByTxHash_def)

lemma processWithdrawal_submitted:
  "verifyEvent env ''Burn'' h = Inr (r, ev) \<Longrightarrow> \<not> isBurnProcessed (eventId (args ev)) st \<Longrightarrow>
   awaitConfirmations (getBlockNumber env) (blockNumber r) 5000 = (Inr c, polls) \<Longrightarrow>
   processWithdrawalByTxHash env h st
     = (case submit env (destinationAddress (args ev)) (netAmount (amount (args ev)))
               (eventId (args ev)) of
          Throws msg \<Rightarrow>
            (withdrawalCatch msg, st,
             ReceiptFetched h # polls
               @ [Unlocked (destinationAddress (args ev)) (netAmount (amount (args ev)))
                    (eventId (args ev))])
        | Returns unlockTx \<Rightarrow>
            (case wait unlockTx of
               Throws msg \<Rightarrow>
                 (withdrawalCatch msg, st,
                  ReceiptFetched h # polls
                    @ [Unlocked (destinationAddress (args ev)) (netAmount (amount (args ev)))
                         (eventId (args ev))])
             | Returns bscHash \<Rightarrow>
                 (Returns (Success (eventId (args ev)) h bscHash (netAmount (amount (args ev)))
                             (amount (args ev)) (feeAmount (amount (args ev)))
                             (destinationAddress (args ev))),
                  addBurnTxHashes (clock env) (eventId (args ev)) h (Some bscHash)
                    (addProcessedBurn (clock env) (eventId (args ev)) st),
                  ReceiptFetched h # polls
                    @ [Unlocked (destinationAddress (args ev)) (netAmount (amount (args ev)))
                         (eventId (args ev)),
                       BurnMarked (eventId (args ev)), HashesStored (eventId (args ev))])))"
  by (simp add: processWithdrawalByTxHash_def Let_def split: rpc.splits)


lemma beforeSubmission_all:
  "\<forall>e \<in> set t. \<not> isSubmission e \<Longrightarrow> beforeSubmission t = t"
  by (simp add: beforeSubmission_def)

lemma beforeSubmission_at:
  "\<forall>e \<in> set pre. \<not> isSubmission e \<Longrightarrow> isSubmission s \<Longrightarrow>
   beforeSubmission (pre @ s # post) = pre"
  by (simp add: beforeSubmission_def)

lemma slice_last_snoc: "0 < n \<Longrightarrow> d \<in> set (slice_last n (xs @ [d]))"
  by (cases "length xs < n") (simp_all add: slice_last_def)

lemma addProcessedDeposit_member: "isDepositProcessed d (addProcessedDeposit now d st)"
  by (simp add: isDepositProcessed_def addProcessedDeposit_def saveState_def Let_def
      slice_last_snoc)

lemma addProcessedBurn_member: "isBurnProcessed d (addProcessedBurn now d st)"
  by (simp add: isBurnProcessed_def addProcessedBurn_def saveState_def Let_def slice_last_snoc)

lemma addDepositTxHashes_processed [simp]:
  "processedDeposits (addDepositTxHashes now k s d st) = processedDeposits st"
  "processedBurns (addDepositTxHashes now k s d st) = processedBurns st"
  by (simp_all add: addDepositTxHashes_def saveState_def)

lemma addBurnTxHashes_processed [simp]:
  "processedDeposits (addBurnTxHashes now k s d st) = processedDeposits st"
  "processedBurns (addBurnTxHashes now k s d st) = processedBurns st"
  by (simp_all add: addBurnTxHashes_def saveState_def)

lemma marked_after_deposit:
  "isDepositProcessed d (addDepositTxHashes now k s dd (addProcessedDeposit now2 d st))"
  using addProcessedDeposit_member [of d now2 st] by (simp add: isDepositProcessed_def)

lemma marked_after_burn:
  "isBurnProcessed d (addBurnTxHashes now k s dd (addProcessedBurn now2 d st))"
  using addProcessedBurn_member [of d now2 st] by (simp add: isBurnProcessed_def)

lemma awaitConfirmations_polls:
  "awaitConfirmations poll b ms = (w, polls) \<Longrightarrow> \<forall>e \<in> set polls. \<not> isSubmission e \<and> \<not> isMark e"
  using awaitConfirmations_calls [of _ poll b ms] by auto


lemma processDeposit_order:
  "case processDepositByTxHash env h st of
     (res, st', t) \<Rightarrow>
       (\<forall>dest net i. Minted dest net i \<in> set t \<longrightarrow> \<not> isDepositProcessed i st)
       \<and> list_all (\<lambda>e. \<not> isMark e) (beforeSubmission t)
       \<and> (\<forall>i. DepositMarked i \<in> set t \<longrightarrow>
              (\<exists>dest net. Minted dest net i \<in> set t) \<and> isDepositProcessed i st'
              \<and> (\<exists>x. res = Returns x \<and> success x))
       \<and> ((\<forall>i. DepositMarked i \<notin> set t) \<longrightarrow> st' = st)"
proof (cases "verifyEvent env ''Deposit'' h")
  case (Inl err)
  then show ?thesis
    by (simp add: processDeposit_failed isSubmission_def isMark_def beforeSubmission_def)
next
  case (Inr p)
  obtain r ev where p: "p = (r, ev)" by (cases p)
  note v = Inr [unfolded p]
  show ?thesis
  proof (cases "isDepositProcessed (eventId (args ev)) st")
    case True
    with v show ?thesis
      by (simp add: processDeposit_already isSubmission_def isMark_def beforeSubmission_def)
  next
    case False
    obtain w polls where w: "awaitConfirmations (getBlockNumber env) (blockNumber r) 3000 = (w, polls)"
      by (cases "awaitConfirmations (getBlockNumber env) (blockNumber r) 3000")
    note polls = awaitConfirmations_polls [OF w]
    have pre: "\<forall>e \<in> set (ReceiptFetched h # polls). \<not> isSubmission e"
      and nomark: "list_all (\<lambda>e. \<not> isMark e) (ReceiptFetched h # polls)"
      using polls by (simp_all add: isSubmission_def isMark_def list_all_iff)
    have notin: "\<And>a b c. Minted a b c \<notin> set polls" "\<And>i. DepositMarked i \<notin> set polls"
      using polls by (auto simp: isSubmission_def isMark_def)
    show ?thesis
    proof (cases w)
      case (Inl msg)
      with v False w nomark notin show ?thesis
        by (auto simp: processDeposit_unconfirmed beforeSubmission_all [OF pre])
    next
      case c: (Inr c)
      note eq = processDeposit_submitted [OF v False w [unfolded c]]
      let ?s = "Minted (destinationAddress (args ev)) (netAmount (amount (args ev))) (eventId (args ev))"
      have bs: "\<And>post. beforeSubmission (ReceiptFetched h # polls @ ?s # post) = ReceiptFetched h # polls"
        using beforeSubmission_at [OF pre, of ?s] by (simp add: isSubmission_def)
      show ?thesis
      proof (cases "submit env (destinationAddress (args ev)) (netAmount (amount (args ev))) (eventId (args ev))")
        case (Throws msg)
        with False nomark notin bs [of "[]"] show ?thesis
          by (auto simp: eq)
      next
        case (Returns tx)
        show ?thesis
        proof (cases "wait tx")
          case (Throws msg)
          with Returns False nomark notin bs [of "[]"] show ?thesis
            by (auto simp: eq)
        next
          case r2: (Returns ucHash)
          with Returns False nomark notin
            bs [of "[DepositMarked (eventId (args ev)), HashesStored (eventId (args ev))]"]
          show ?thesis
            by (auto simp: eq marked_after_deposit)
        qed
      qed
    qed
  qed
qed

lemma processWithdrawal_order:
  "case processWithdrawalByTxHash env h st of
     (res, st', t) \<Rightarrow>
       (\<forall>dest net i. Unlocked dest net i \<in> set t \<longrightarrow> \<not> isBurnProcessed i st)
       \<and> list_all (\<lambda>e. \<not> isMark e) (beforeSubmission t)
       \<and> (\<forall>i. BurnMarked i \<in> set t \<longrightarrow>
              (\<exists>dest net. Unlocked dest net i \<in> set t) \<and> isBurnProcessed i st'
              \<and> (\<exists>x. res = Returns x \<and> success x))
       \<and> ((\<forall>i. BurnMarked i \<notin> set t) \<longrightarrow> st' = st)"
proof (cases "verifyEvent env ''Burn'' h")
  case (Inl err)
  then show ?thesis
    by (simp add: processWithdrawal_failed isSubmission_def isMark_def beforeSubmission_def)
next
  case (Inr p)
  obtain r ev where p: "p = (r, ev)" by (cases p)
  note v = Inr [unfolded p]
  show ?thesis
  proof (cases "isBurnProcessed (eventId (args ev)) st")
    case True
    with v show ?thesis
      by (simp add: processWithdrawal_already isSubmission_def isMark_def beforeSubmission_def)
  next
    case False
    obtain w polls where w: "awaitConfirmations (getBlockNumber env) (blockNumber r) 5000 = (w, polls)"
      by (cases "awaitConfirmations (getBlockNumber env) (blockNumber r) 5000")
    note polls = awaitConfirmations_polls [OF w]
    have pre: "\<forall>e \<in> set (ReceiptFetched h # polls). \<not> isSubmission e"
      and nomark: "list_all (\<lambda>e. \<not> isMark e) (ReceiptFetched h # polls)"
      using polls by (simp_all add: isSubmission_def isMark_def list_all_iff)
    have notin: "\<And>a b c. Unlocked a b c \<notin> set polls" "\<And>i. BurnMarked i \<notin> set polls"
      using polls by (auto simp: isSubmission_def isMark_def)
    show ?thesis
    proof (cases w)
      case (Inl msg)
      with v False w nomark notin show ?thesis
        by (auto simp: processWithdrawal_unconfirmed beforeSubmission_all [OF pre])
    next
      case c: (Inr c)
      note eq = processWithdrawal_submitted [OF v False w [unfolded c]]
      let ?s = "Unlocked (destinationAddress (args ev)) (netAmount (amount (args ev))) (eventId (args ev))"
      have bs: "\<And>post. beforeSubmission (ReceiptFetched h # polls @ ?s # post) = ReceiptFetched h # polls"
        using beforeSubmission_at [OF pre, of ?s] by (simp add: isSubmission_def)
      show ?thesis
      proof (cases "submit env (destinationAddress (args ev)) (netAmount (amount (args ev))) (eventId (args ev))")
        case (Throws msg)
        with False nomark notin bs [of "[]"] show ?thesis
          by (auto simp: eq)
      next
        case (Returns tx)
        show ?thesis
        proof (cases "wait tx")
          case (Throws msg)
          with Returns False nomark notin bs [of "[]"] show ?thesis
            by (auto simp: eq)
        next
          case r2: (Returns bscHash)
          with Returns False nomark notin
            bs [of "[BurnMarked (eventId (args ev)), HashesStored (eventId (args ev))]"]
          show ?thesis
            by (auto simp: eq marked_after_burn)
        qed
      qed
    qed
  qed
qed


lemma awaitConfirmations_quiet:
  "awaitConfirmations poll b ms = (w, polls) \<Longrightarrow>
   \<forall>e \<in> set polls. \<not> isSubmission e \<and> \<not> isMark e \<and> \<not> isLoopEffect e"
  by (auto simp: awaitConfirmations_def Let_def isSubmission_def isMark_def isLoopEffect_def
      split: rpc.splits if_splits)

lemma handleBscDeposit_known:
  "eventId (eventArgs event) \<in> processedDepositsSet r \<Longrightarrow> handleBscDeposit env event r = (r, [])"
  by (simp add: handleBscDeposit_def)

lemma handleBscDeposit_unconfirmed:
  "eventId (eventArgs event) \<notin> processedDepositsSet r \<Longrightarrow>
   awaitConfirmations (getBlockNumber env) (eventBlock event) 3000 = (Inl msg, polls) \<Longrightarrow>
   handleBscDeposit env event r = (r, polls)"
  by (simp add: handleBscDeposit_def)

lemma handleBscDeposit_unverified:
  "eventId (eventArgs event) \<notin> processedDepositsSet r \<Longrightarrow>
   awaitConfirmations (getBlockNumber env) (eventBlock event) 3000 = (Inr c, polls) \<Longrightarrow>
   verifyEvent env ''Deposit'' (JStr (transactionHash event)) = Inl err \<Longrightarrow>
   handleBscDeposit env event r = (r, polls @ [ReceiptFetched (JStr (transactionHash event))])"
  by (simp add: handleBscDeposit_def)

lemma handleBscDeposit_mismatch:
  "eventId (eventArgs event) \<notin> processedDepositsSet r \<Longrightarrow>
   awaitConfirmations (getBlockNumber env) (eventBlock event) 3000 = (Inr c, polls) \<Longrightarrow>
   verifyEvent env ''Deposit'' (JStr (transactionHash event)) = Inr (rc, ev) \<Longrightarrow>
   eventId (args ev) \<noteq> eventId (eventArgs event) \<Longrightarrow>
   handleBscDeposit env event r = (r, polls @ [ReceiptFetched (JStr (transactionHash event))])"
  by (simp add: handleBscDeposit_def)

lemma handleBscDeposit_submitted:
  "eventId (eventArgs event) \<notin> processedDepositsSet r \<Longrightarrow>
   awaitConfirmations (getBlockNumber env) (eventBlock event) 3000 = (Inr c, polls) \<Longrightarrow>
   verifyEvent env ''Deposit'' (JStr (transactionHash event)) = Inr (rc, ev) \<Longrightarrow>
   eventId (args ev) = eventId (eventArgs event) \<Longrightarrow>
   handleBscDeposit env event r
     = (case submit env (destinationAddress (args ev)) (netAmount (amount (args ev)))
               (eventId (args ev)) of
          Throws msg \<Rightarrow>
            (r, polls @ [ReceiptFetched (JStr (transactionHash event)),
                         Minted (destinationAddress (args ev)) (netAmount (amount (args ev)))
                           (eventId (args ev))])
        | Returns tx \<Rightarrow>
            (case wait tx of
               Throws msg \<Rightarrow>
                 (r, polls @ [ReceiptFetched (JStr (transactionHash event)),
                              Minted (destinationAddress (args ev))
                                (netAmount (amount (args ev))) (eventId (args ev))])
             | Returns ucHash \<Rightarrow>
                 (r\<lparr>processedDepositsSet :=
                      insert (eventId (eventArgs event)) (processedDepositsSet r),
                    stateManager :=
                      addDepositTxHashes (clock env) (eventId (eventArgs event))
                        (JStr (transactionHash event)) (Some ucHash)
                        (addProcessedDeposit (clock env) (eventId (eventArgs event))
                           (stateManager r))\<rparr>,
                  polls @ [ReceiptFetched (JStr (transactionHash event)),
                           Minted (destinationAddress (args ev)) (netAmount (amount (args ev)))
                             (eventId (args ev)),
                           DepositMarked (eventId (eventArgs event)),
                           HashesStored (eventId (eventArgs event))])))"
  by (simp add: handleBscDeposit_def Let_def split: rpc.splits)

lemma handleUcBurn_known:
  "eventId (eventArgs event) \<in> processedBurnsSet r \<Longrightarrow> handleUcBurn env event r = (r, [])"
  by (simp add: handleUcBurn_def)

lemma handleUcBurn_unconfirmed:
  "eventId (eventArgs event) \<notin> processedBurnsSet r \<Longrightarrow>
   awaitConfirmations (getBlockNumber env) (eventBlock event) 5000 = (Inl msg, polls) \<Longrightarrow>
   handleUcBurn env event r = (r, polls)"
  by (simp add: handleUcBurn_def)

lemma handleUcBurn_unverified:
  "eventId (eventArgs event) \<notin> processedBurnsSet r \<Longrightarrow>
   awaitConfirmations (getBlockNumber env) (eventBlock event) 5000 = (Inr c, polls) \<Longrightarrow>
   verifyReceipt env (JStr (transactionHash event)) = Inl err \<Longrightarrow>
   handleUcBurn env event r = (r, polls @ [ReceiptFetched (JStr (transactionHash event))])"
  by (simp add: handleUcBurn_def)

lemma handleUcBurn_submitted:
  "eventId (eventArgs event) \<notin> processedBurnsSet r \<Longrightarrow>
   awaitConfirmations (getBlockNumber env) (eventBlock event) 5000 = (Inr c, polls) \<Longrightarrow>
   verifyReceipt env (JStr (transactionHash event)) = Inr rc \<Longrightarrow>
   handleUcBurn env event r
     = (case submit env (destinationAddress (eventArgs event))
               (netAmount (amount (eventArgs event))) (eventId (eventArgs event)) of
          Throws msg \<Rightarrow>
            (r, polls @ [ReceiptFetched (JStr (transactionHash event)),
                         Unlocked (destinationAddress (eventArgs event))
                           (netAmount (amount (eventArgs event))) (eventId (eventArgs event))])
        | Returns tx \<Rightarrow>
            (case wait tx of
               Throws msg \<Rightarrow>
                 (r, polls @ [ReceiptFetched (JStr (transactionHash event)),
                              Unlocked (destinationAddress (eventArgs event))
                                (netAmount (amount (eventArgs event)))
                                (eventId (eventArgs event))])
             | Returns bscHash \<Rightarrow>
                 (r\<lparr>processedBurnsSet :=
                      insert (eventId (eventArgs event)) (processedBurnsSet r),
                    stateManager :=
                      addBurnTxHashes (clock env) (eventId (eventArgs event))
                        (JStr (transactionHash event)) (Some bscHash)
                        (addProcessedBurn (clock env) (eventId (eventArgs event))
                           (stateManager r))\<rparr>,
                  polls @ [ReceiptFetched (JStr (transactionHash event)),
                           Unlocked (destinationAddress (eventArgs event))
                             (netAmount (amount (eventArgs event))) (eventId (eventArgs event)),
                           BurnMarked (eventId (eventArgs event)),
                           HashesStored (eventId (eventArgs event))])))"
  by (simp add: handleUcBurn_def Let_def split: rpc.splits)


lemma cursors_kept [simp]:
  "lastBscBlock (addDepositTxHashes now k s d st) = lastBscBlock st"
  "lastUcBlock (addDepositTxHashes now k s d st) = lastUcBlock st"
  "lastBscBlock (addBurnTxHashes now k s d st) = lastBscBlock st"
  "lastUcBlock (addBurnTxHashes now k s d st) = lastUcBlock st"
  "lastBscBlock (addProcessedDeposit now i st) = lastBscBlock st"
  "lastUcBlock (addProcessedDeposit now i st) = lastUcBlock st"
  "lastBscBlock (addProcessedBurn now i st) = lastBscBlock st"
  "lastUcBlock (addProcessedBurn now i st) = lastUcBlock st"
  by (simp_all add: addDepositTxHashes_def addBurnTxHashes_def addProcessedDeposit_def
      addProcessedBurn_def saveState_def Let_def)

lemma handleBscDeposit_run:
  "case handleBscDeposit env event r of
     (r', t) \<Rightarrow>
       (\<forall>dest net i. Minted dest net i \<in> set t \<longrightarrow> i \<notin> processedDepositsSet r)
       \<and> list_all (\<lambda>e. \<not> isMark e) (beforeSubmission t)
       \<and> (\<forall>i. DepositMarked i \<in> set t \<longrightarrow>
              (\<exists>dest net. Minted dest net i \<in> set t) \<and> i \<in> processedDepositsSet r'
              \<and> isDepositProcessed i (stateManager r'))
       \<and> ((\<forall>i. DepositMarked i \<notin> set t) \<longrightarrow> r' = r)
       \<and> (\<forall>e \<in> set t. \<not> isLoopEffect e)
       \<and> bscLastBlock r' = bscLastBlock r \<and> ucLastBlock r' = ucLastBlock r
       \<and> isRunning r' = isRunning r \<and> currentBscRpcIndex r' = currentBscRpcIndex r
       \<and> lastBscBlock (stateManager r') = lastBscBlock (stateManager r)
       \<and> lastUcBlock (stateManager r') = lastUcBlock (stateManager r)"
proof (cases "eventId (eventArgs event) \<in> processedDepositsSet r")
  case True
  then show ?thesis
    by (simp add: handleBscDeposit_known beforeSubmission_def)
next
  case False
  let ?h = "JStr (transactionHash event)"
  obtain w polls where w: "awaitConfirmations (getBlockNumber env) (eventBlock event) 3000 = (w, polls)"
    by (cases "awaitConfirmations (getBlockNumber env) (eventBlock event) 3000")
  note quiet = awaitConfirmations_quiet [OF w]
  have pre: "\<forall>e \<in> set (polls @ [ReceiptFetched ?h]). \<not> isSubmission e"
    and pre0: "\<forall>e \<in> set polls. \<not> isSubmission e"
    and nomark: "list_all (\<lambda>e. \<not> isMark e) (polls @ [ReceiptFetched ?h])"
    and loop: "\<forall>e \<in> set polls. \<not> isLoopEffect e"
    using quiet by (simp_all add: isSubmission_def isMark_def list_all_iff)
  have notin: "\<And>a b c. Minted a b c \<notin> set polls" "\<And>i. DepositMarked i \<notin> set polls"
    using quiet by (auto simp: isSubmission_def isMark_def)
  show ?thesis
  proof (cases w)
    case (Inl msg)
    with False w nomark notin loop show ?thesis
      by (auto simp: handleBscDeposit_unconfirmed beforeSubmission_all [OF pre0])
  next
    case c: (Inr c)
    show ?thesis
    proof (cases "verifyEvent env ''Deposit'' ?h")
      case (Inl err)
      with False w c nomark notin loop show ?thesis
        by (auto simp: handleBscDeposit_unverified beforeSubmission_all [OF pre]
            isLoopEffect_def)
    next
      case (Inr p)
      obtain rc ev where p: "p = (rc, ev)" by (cases p)
      note v = Inr [unfolded p]
      show ?thesis
      proof (cases "eventId (args ev) = eventId (eventArgs event)")
        case diff: False
        from handleBscDeposit_mismatch [OF False w [unfolded c] v diff] nomark notin loop
        show ?thesis
          by (auto simp: beforeSubmission_all [OF pre] isLoopEffect_def)
      next
        case same: True
        note eq = handleBscDeposit_submitted [OF False w [unfolded c] v same]
        let ?s = "Minted (destinationAddress (args ev)) (netAmount (amount (args ev))) (eventId (args ev))"
        have bs: "\<And>post. beforeSubmission (polls @ ReceiptFetched ?h # ?s # post)
                    = polls @ [ReceiptFetched ?h]"
          using beforeSubmission_at [OF pre, of ?s] by (simp add: isSubmission_def)
        show ?thesis
        proof (cases "submit env (destinationAddress (args ev)) (netAmount (amount (args ev))) (eventId (args ev))")
          case (Throws msg)
          with False same nomark notin loop bs [of "[]"] show ?thesis
            by (auto simp: eq isLoopEffect_def)
        next
          case (Returns tx)
          show ?thesis
          proof (cases "wait tx")
            case (Throws msg)
            with Returns False same nomark notin loop bs [of "[]"] show ?thesis
              by (auto simp: eq isLoopEffect_def)
          next
            case r2: (Returns ucHash)
            with Returns False same nomark notin loop
              bs [of "[DepositMarked (eventId (eventArgs event)),
                       HashesStored (eventId (eventArgs event))]"]
            show ?thesis
              by (auto simp: eq isLoopEffect_def marked_after_deposit)
          qed
        qed
      qed
    qed
  qed
qed


lemma handleUcBurn_run:
  "case handleUcBurn env event r of
     (r', t) \<Rightarrow>
       (\<forall>dest net i. Unlocked dest net i \<in> set t \<longrightarrow> i \<notin> processedBurnsSet r)
       \<and> list_all (\<lambda>e. \<not> isMark e) (beforeSubmission t)
       \<and> (\<forall>i. BurnMarked i \<in> set t \<longrightarrow>
              (\<exists>dest net. Unlocked dest net i \<in> set t) \<and> i \<in> processedBurnsSet r'
              \<and> isBurnProcessed i (stateManager r'))
       \<and> ((\<forall>i. BurnMarked i \<notin> set t) \<longrightarrow> r' = r)
       \<and> (\<forall>e \<in> set t. \<not> isLoopEffect e)
       \<and> bscLastBlock r' = bscLastBlock r \<and> ucLastBlock r' = ucLastBlock r
       \<and> isRunning r' = isRunning r \<and> currentBscRpcIndex r' = currentBscRpcIndex r
       \<and> lastBscBlock (stateManager r') = lastBscBlock (stateManager r)
       \<and> lastUcBlock (stateManager r') = lastUcBlock (stateManager r)"
proof (cases "eventId (eventArgs event) \<in> processedBurnsSet r")
  case True
  then show ?thesis
    by (simp add: handleUcBurn_known beforeSubmission_def)
next
  case False
  let ?h = "JStr (transactionHash event)"
  obtain w polls where w: "awaitConfirmations (getBlockNumber env) (eventBlock event) 5000 = (w, polls)"
    by (cases "awaitConfirmations (getBlockNumber env) (eventBlock event) 5000")
  note quiet = awaitConfirmations_quiet [OF w]
  have pre: "\<forall>e \<in> set (polls @ [ReceiptFetched ?h]). \<not> isSubmission e"
    and pre0: "\<forall>e \<in> set polls. \<not> isSubmission e"
    and nomark: "list_all (\<lambda>e. \<not> isMark e) (polls @ [ReceiptFetched ?h])"
    and loop: "\<forall>e \<in> set polls. \<not> isLoopEffect e"
    using quiet by (simp_all add: isSubmission_def isMark_def list_all_iff)
  have notin: "\<And>a b c. Unlocked a b c \<notin> set polls" "\<And>i. BurnMarked i \<notin> set polls"
    using quiet by (auto simp: isSubmission_def isMark_def)
  show ?thesis
  proof (cases w)
    case (Inl msg)
    with False w nomark notin loop show ?thesis
      by (auto simp: handleUcBurn_unconfirmed beforeSubmission_all [OF pre0])
  next
    case c: (Inr c)
    show ?thesis
    proof (cases "verifyReceipt env ?h")
      case (Inl err)
      with False w c nomark notin loop show ?thesis
        by (auto simp: handleUcBurn_unverified beforeSubmission_all [OF pre] isLoopEffect_def)
    next
      case (Inr rc)
      note eq = handleUcBurn_submitted [OF False w [unfolded c] Inr]
      let ?s = "Unlocked (destinationAddress (eventArgs event))
                  (netAmount (amount (eventArgs event))) (eventId (eventArgs event))"
      have bs: "\<And>post. beforeSubmission (polls @ ReceiptFetched ?h # ?s # post)
                  = polls @ [ReceiptFetched ?h]"
        using beforeSubmission_at [OF pre, of ?s] by (simp add: isSubmission_def)
      show ?thesis
      proof (cases "submit env (destinationAddress (eventArgs event))
                      (netAmount (amount (eventArgs event))) (eventId (eventArgs event))")
        case (Throws msg)
        with False nomark notin loop bs [of "[]"] show ?thesis
          by (auto simp: eq isLoopEffect_def)
      next
        case (Returns tx)
        show ?thesis
        proof (cases "wait tx")
          case (Throws msg)
          with Returns False nomark notin loop bs [of "[]"] show ?thesis
            by (auto simp: eq isLoopEffect_def)
        next
          case r2: (Returns bscHash)
          with Returns False nomark notin loop
            bs [of "[BurnMarked (eventId (eventArgs event)),
                     HashesStored (eventId (eventArgs event))]"]
          show ?thesis
            by (auto simp: eq isLoopEffect_def marked_after_burn)
        qed
      qed
    qed
  qed
qed

lemma processDeposit_shape:
  assumes run: "processDepositByTxHash env h st = (res, st', t)"
  shows "(st' = st \<and> (\<forall>e \<in> set t. \<not> isSubmission e \<and> \<not> isMark e)
            \<and> (\<forall>x. res = Returns x \<longrightarrow> \<not> success x)
            \<and> \<not> (\<exists>rc ev c polls. verifyEvent env ''Deposit'' h = Inr (rc, ev)
                    \<and> \<not> isDepositProcessed (eventId (args ev)) st
                    \<and> awaitConfirmations (getBlockNumber env) (blockNumber rc) 3000
                        = (Inr c, polls)))
       \<or> (\<exists>rc ev c polls.
             verifyEvent env ''Deposit'' h = Inr (rc, ev)
           \<and> \<not> isDepositProcessed (eventId (args ev)) st
           \<and> awaitConfirmations (getBlockNumber env) (blockNumber rc) 3000 = (Inr c, polls)
           \<and> (\<forall>e \<in> set (ReceiptFetched h # polls). \<not> isSubmission e \<and> \<not> isMark e)
           \<and> (((\<exists>msg. submit env (destinationAddress (args ev)) (netAmount (amount (args ev)))
                           (eventId (args ev)) = Throws msg)
                   \<or> (\<exists>tx msg. submit env (destinationAddress (args ev))
                                  (netAmount (amount (args ev))) (eventId (args ev)) = Returns tx
                                \<and> wait tx = Throws msg))
                 \<and> st' = st \<and> (\<forall>x. res = Returns x \<longrightarrow> \<not> success x)
                 \<and> t = (ReceiptFetched h # polls)
                     @ [Minted (destinationAddress (args ev)) (netAmount (amount (args ev)))
                          (eventId (args ev))]
              \<or> (\<exists>tx ucHash.
                    submit env (destinationAddress (args ev)) (netAmount (amount (args ev)))
                      (eventId (args ev)) = Returns tx
                  \<and> wait tx = Returns ucHash
                  \<and> st' = addDepositTxHashes (clock env) (eventId (args ev)) h (Some ucHash)
                            (addProcessedDeposit (clock env) (eventId (args ev)) st)
                  \<and> res = Returns (Success (eventId (args ev)) h ucHash
                                    (netAmount (amount (args ev))) (amount (args ev))
                                    (feeAmount (amount (args ev)))
                                    (destinationAddress (args ev)))
                  \<and> t = (ReceiptFetched h # polls)
                      @ [Minted (destinationAddress (args ev)) (netAmount (amount (args ev)))
                           (eventId (args ev)),
                         DepositMarked (eventId (args ev)), HashesStored (eventId (args ev))])))"
proof (cases "verifyEvent env ''Deposit'' h")
  case (Inl err)
  with run show ?thesis
    by (auto simp: processDeposit_failed depositCatch_def isSubmission_def isMark_def)
next
  case (Inr p)
  obtain rc ev where p: "p = (rc, ev)" by (cases p)
  note v = Inr [unfolded p]
  show ?thesis
  proof (cases "isDepositProcessed (eventId (args ev)) st")
    case True
    with v run show ?thesis
      by (auto simp: processDeposit_already isSubmission_def isMark_def)
  next
    case False
    obtain w polls where w: "awaitConfirmations (getBlockNumber env) (blockNumber rc) 3000 = (w, polls)"
      by (cases "awaitConfirmations (getBlockNumber env) (blockNumber rc) 3000")
    have polls: "\<forall>e \<in> set (ReceiptFetched h # polls). \<not> isSubmission e \<and> \<not> isMark e"
      using awaitConfirmations_polls [OF w] by (simp add: isSubmission_def isMark_def)
    show ?thesis
    proof (cases w)
      case (Inl msg)
      from run processDeposit_unconfirmed [OF v False w [unfolded Inl]]
      have "st' = st" "t = ReceiptFetched h # polls" "res = depositCatch msg"
        by simp_all
      with polls v w Inl show ?thesis
        by (auto simp: depositCatch_def)
    next
      case c: (Inr c)
      note eq = processDeposit_submitted [OF v False w [unfolded c]]
      let ?d = "destinationAddress (args ev)"
      let ?n = "netAmount (amount (args ev))"
      let ?i = "eventId (args ev)"
      have "((\<exists>msg. submit env ?d ?n ?i = Throws msg)
                   \<or> (\<exists>tx msg. submit env ?d ?n ?i = Returns tx \<and> wait tx = Throws msg))
                 \<and> st' = st \<and> (\<forall>x. res = Returns x \<longrightarrow> \<not> success x)
                 \<and> t = (ReceiptFetched h # polls) @ [Minted ?d ?n ?i]
              \<or> (\<exists>tx ucHash.
                    submit env ?d ?n ?i = Returns tx \<and> wait tx = Returns ucHash
                  \<and> st' = addDepositTxHashes (clock env) ?i h (Some ucHash)
                            (addProcessedDeposit (clock env) ?i st)
                  \<and> res = Returns (Success ?i h ucHash ?n (amount (args ev))
                                    (feeAmount (amount (args ev))) ?d)
                  \<and> t = (ReceiptFetched h # polls)
                      @ [Minted ?d ?n ?i, DepositMarked ?i, HashesStored ?i])"
      proof (cases "submit env ?d ?n ?i")
        case (Throws msg)
        with run eq show ?thesis by (auto simp: depositCatch_def)
      next
        case (Returns tx)
        show ?thesis
        proof (cases "wait tx")
          case (Throws msg)
          with Returns run eq show ?thesis by (auto simp: depositCatch_def)
        next
          case r2: (Returns ucHash)
          with Returns run eq show ?thesis by auto
        qed
      qed
      with v False w [unfolded c] polls show ?thesis
        by blast
    qed
  qed
qed


lemma Minted_is_submission [simp]: "isSubmission (Minted d n i)" "isSubmission (Unlocked d n i)"
  by (simp_all add: isSubmission_def)

lemma marks_are_marks [simp]:
  "isMark (DepositMarked i)" "isMark (BurnMarked i)" "\<not> isMark (HashesStored i)"
  "\<not> isMark (Minted d n i)" "\<not> isMark (Unlocked d n i)"
  "\<not> isSubmission (DepositMarked i)" "\<not> isSubmission (BurnMarked i)"
  "\<not> isSubmission (HashesStored i)"
  by (simp_all add: isMark_def isSubmission_def)

lemma processDeposit_failure:
  assumes run: "processDepositByTxHash env h st = (res, st', t)"
    and v: "verifyEvent env ''Deposit'' h = Inr (rc, ev)"
    and f: "(\<exists>msg. submit env (destinationAddress (args ev)) (netAmount (amount (args ev)))
                    (eventId (args ev)) = Throws msg)
            \<or> (\<exists>tx msg. submit env (destinationAddress (args ev)) (netAmount (amount (args ev)))
                    (eventId (args ev)) = Returns tx \<and> wait tx = Throws msg)"
  shows "st' = st \<and> (\<forall>e \<in> set t. \<not> isMark e) \<and> (\<forall>x. res = Returns x \<longrightarrow> \<not> success x)"
  using processDeposit_shape [OF run]
proof (elim disjE exE conjE)
  assume "st' = st" "\<forall>e \<in> set t. \<not> isSubmission e \<and> \<not> isMark e"
    "\<forall>x. res = Returns x \<longrightarrow> \<not> success x"
  then show ?thesis by simp
next
  fix rc' and ev' :: parsed_log and c polls msg
  assume "\<forall>e \<in> set (ReceiptFetched h # polls). \<not> isSubmission e \<and> \<not> isMark e"
    "st' = st" "\<forall>x. res = Returns x \<longrightarrow> \<not> success x"
    "t = (ReceiptFetched h # polls)
           @ [Minted (destinationAddress (args ev')) (netAmount (amount (args ev')))
                (eventId (args ev'))]"
  then show ?thesis by (simp add: isMark_def)
next
  fix rc' and ev' :: parsed_log and c polls tx msg
  assume "\<forall>e \<in> set (ReceiptFetched h # polls). \<not> isSubmission e \<and> \<not> isMark e"
    "st' = st" "\<forall>x. res = Returns x \<longrightarrow> \<not> success x"
    "t = (ReceiptFetched h # polls)
           @ [Minted (destinationAddress (args ev')) (netAmount (amount (args ev')))
                (eventId (args ev'))]"
  then show ?thesis by (simp add: isMark_def)
next
  fix rc' and ev' :: parsed_log and c polls tx ucHash
  assume "verifyEvent env ''Deposit'' h = Inr (rc', ev')"
    and "submit env (destinationAddress (args ev')) (netAmount (amount (args ev')))
           (eventId (args ev')) = Returns tx"
    and "wait tx = Returns ucHash"
  with v f have False by auto
  then show ?thesis ..
qed


lemma processDeposit_marked:
  assumes run: "processDepositByTxHash env h st = (res, st', t)"
    and m: "DepositMarked i \<in> set t"
  shows "\<exists>rc ev tx ucHash.
           verifyEvent env ''Deposit'' h = Inr (rc, ev) \<and> i = eventId (args ev)
         \<and> \<not> isDepositProcessed i st
         \<and> submit env (destinationAddress (args ev)) (netAmount (amount (args ev))) i
             = Returns tx
         \<and> wait tx = Returns ucHash
         \<and> st' = addDepositTxHashes (clock env) i h (Some ucHash)
                   (addProcessedDeposit (clock env) i st)
         \<and> t = beforeSubmission t
               @ [Minted (destinationAddress (args ev)) (netAmount (amount (args ev))) i,
                  DepositMarked i, HashesStored i]"
  using processDeposit_shape [OF run]
proof (elim disjE exE conjE)
  assume "\<forall>e \<in> set t. \<not> isSubmission e \<and> \<not> isMark e"
  with m have False by (auto dest: bspec)
  then show ?thesis ..
next
  fix rc and ev :: parsed_log and c polls msg
  assume "\<forall>e \<in> set (ReceiptFetched h # polls). \<not> isSubmission e \<and> \<not> isMark e"
    "t = (ReceiptFetched h # polls)
           @ [Minted (destinationAddress (args ev)) (netAmount (amount (args ev)))
                (eventId (args ev))]"
  with m have False by (auto dest: bspec)
  then show ?thesis ..
next
  fix rc and ev :: parsed_log and c polls tx msg
  assume "\<forall>e \<in> set (ReceiptFetched h # polls). \<not> isSubmission e \<and> \<not> isMark e"
    "t = (ReceiptFetched h # polls)
           @ [Minted (destinationAddress (args ev)) (netAmount (amount (args ev)))
                (eventId (args ev))]"
  with m have False by (auto dest: bspec)
  then show ?thesis ..
next
  fix rc and ev :: parsed_log and c polls tx ucHash
  let ?d = "destinationAddress (args ev)"
  let ?n = "netAmount (amount (args ev))"
  let ?i = "eventId (args ev)"
  assume v: "verifyEvent env ''Deposit'' h = Inr (rc, ev)"
    and np: "\<not> isDepositProcessed ?i st"
    and pre: "\<forall>e \<in> set (ReceiptFetched h # polls). \<not> isSubmission e \<and> \<not> isMark e"
    and s: "submit env ?d ?n ?i = Returns tx" and w: "wait tx = Returns ucHash"
    and st: "st' = addDepositTxHashes (clock env) ?i h (Some ucHash)
                     (addProcessedDeposit (clock env) ?i st)"
    and t: "t = (ReceiptFetched h # polls) @ [Minted ?d ?n ?i, DepositMarked ?i, HashesStored ?i]"
  from pre have pre': "\<forall>e \<in> set (ReceiptFetched h # polls). \<not> isSubmission e"
    by simp
  have bs: "beforeSubmission t = ReceiptFetched h # polls"
    unfolding t by (rule beforeSubmission_at [OF pre']) simp
  from pre have "DepositMarked i \<notin> set (ReceiptFetched h # polls)"
    by (auto dest: bspec)
  with m have i: "i = ?i"
    unfolding t by simp
  from v np s w st t show ?thesis
    unfolding bs i by blast
qed

lemma processDeposit_submits:
  assumes run: "processDepositByTxHash env h st = (res, st', t)"
    and v: "verifyEvent env ''Deposit'' h = Inr (rc, ev)"
    and np: "\<not> isDepositProcessed (eventId (args ev)) st"
    and a: "awaitConfirmations (getBlockNumber env) (blockNumber rc) 3000 = (Inr c, polls)"
  shows "Minted (destinationAddress (args ev)) (netAmount (amount (args ev)))
           (eventId (args ev)) \<in> set t
         \<and> (\<forall>tx ucHash.
               submit env (destinationAddress (args ev)) (netAmount (amount (args ev)))
                 (eventId (args ev)) = Returns tx
               \<and> wait tx = Returns ucHash \<longrightarrow>
               DepositMarked (eventId (args ev)) \<in> set t
               \<and> st' = addDepositTxHashes (clock env) (eventId (args ev)) h (Some ucHash)
                         (addProcessedDeposit (clock env) (eventId (args ev)) st)
               \<and> res = Returns (Success (eventId (args ev)) h ucHash
                                 (netAmount (amount (args ev))) (amount (args ev))
                                 (feeAmount (amount (args ev)))
                                 (destinationAddress (args ev))))"
proof -
  note eq = processDeposit_submitted [OF v np a]
  show ?thesis
  proof (cases "submit env (destinationAddress (args ev)) (netAmount (amount (args ev)))
                  (eventId (args ev))")
    case (Throws msg)
    with run eq show ?thesis by auto
  next
    case (Returns tx)
    show ?thesis
    proof (cases "wait tx")
      case (Throws msg)
      with Returns run eq show ?thesis by auto
    next
      case r2: (Returns ucHash)
      with Returns run eq show ?thesis by auto
    qed
  qed
qed

lemma processWithdrawal_shape:
  assumes run: "processWithdrawalByTxHash env h st = (res, st', t)"
  shows "(st' = st \<and> (\<forall>e \<in> set t. \<not> isSubmission e \<and> \<not> isMark e)
            \<and> (\<forall>x. res = Returns x \<longrightarrow> \<not> success x)
            \<and> \<not> (\<exists>rc ev c polls. verifyEvent env ''Burn'' h = Inr (rc, ev)
                    \<and> \<not> isBurnProcessed (eventId (args ev)) st
                    \<and> awaitConfirmations (getBlockNumber env) (blockNumber rc) 5000
                        = (Inr c, polls)))
       \<or> (\<exists>rc ev c polls.
             verifyEvent env ''Burn'' h = Inr (rc, ev)
           \<and> \<not> isBurnProcessed (eventId (args ev)) st
           \<and> awaitConfirmations (getBlockNumber env) (blockNumber rc) 5000 = (Inr c, polls)
           \<and> (\<forall>e \<in> set (ReceiptFetched h # polls). \<not> isSubmission e \<and> \<not> isMark e)
           \<and> (((\<exists>msg. submit env (destinationAddress (args ev)) (netAmount (amount (args ev)))
                           (eventId (args ev)) = Throws msg)
                   \<or> (\<exists>tx msg. submit env (destinationAddress (args ev))
                                  (netAmount (amount (args ev))) (eventId (args ev)) = Returns tx
                                \<and> wait tx = Throws msg))
                 \<and> st' = st \<and> (\<forall>x. res = Returns x \<longrightarrow> \<not> success x)
                 \<and> t = (ReceiptFetched h # polls)
                     @ [Unlocked (destinationAddress (args ev)) (netAmount (amount (args ev)))
                          (eventId (args ev))]
              \<or> (\<exists>tx bscHash.
                    submit env (destinationAddress (args ev)) (netAmount (amount (args ev)))
                      (eventId (args ev)) = Returns tx
                  \<and> wait tx = Returns bscHash
                  \<and> st' = addBurnTxHashes (clock env) (eventId (args ev)) h (Some bscHash)
                            (addProcessedBurn (clock env) (eventId (args ev)) st)
                  \<and> res = Returns (Success (eventId (args ev)) h bscHash
                                    (netAmount (amount (args ev))) (amount (args ev))
                                    (feeAmount (amount (args ev)))
                                    (destinationAddress (args ev)))
                  \<and> t = (ReceiptFetched h # polls)
                      @ [Unlocked (destinationAddress (args ev)) (netAmount (amount (args ev)))
                           (eventId (args ev)),
                         BurnMarked (eventId (args ev)), HashesStored (eventId (args ev))])))"
proof (cases "verifyEvent env ''Burn'' h")
  case (Inl err)
  with run show ?thesis
    by (auto simp: processWithdrawal_failed withdrawalCatch_def isSubmission_def isMark_def)
next
  case (Inr p)
  obtain rc ev where p: "p = (rc, ev)" by (cases p)
  note v = Inr [unfolded p]
  show ?thesis
  proof (cases "isBurnProcessed (eventId (args ev)) st")
    case True
    with v run show ?thesis
      by (auto simp: processWithdrawal_already isSubmission_def isMark_def)
  next
    case False
    obtain w polls where w: "awaitConfirmations (getBlockNumber env) (blockNumber rc) 5000 = (w, polls)"
      by (cases "awaitConfirmations (getBlockNumber env) (blockNumber rc) 5000")
    have polls: "\<forall>e \<in> set (ReceiptFetched h # polls). \<not> isSubmission e \<and> \<not> isMark e"
      using awaitConfirmations_polls [OF w] by (simp add: isSubmission_def isMark_def)
    show ?thesis
    proof (cases w)
      case (Inl msg)
      from run processWithdrawal_unconfirmed [OF v False w [unfolded Inl]]
      have "st' = st" "t = ReceiptFetched h # polls" "res = withdrawalCatch msg"
        by simp_all
      with polls v w Inl show ?thesis
        by (auto simp: withdrawalCatch_def)
    next
      case c: (Inr c)
      note eq = processWithdrawal_submitted [OF v False w [unfolded c]]
      let ?d = "destinationAddress (args ev)"
      let ?n = "netAmount (amount (args ev))"
      let ?i = "eventId (args ev)"
      have "((\<exists>msg. submit env ?d ?n ?i = Throws msg)
                   \<or> (\<exists>tx msg. submit env ?d ?n ?i = Returns tx \<and> wait tx = Throws msg))
                 \<and> st' = st \<and> (\<forall>x. res = Returns x \<longrightarrow> \<not> success x)
                 \<and> t = (ReceiptFetched h # polls) @ [Unlocked ?d ?n ?i]
              \<or> (\<exists>tx bscHash.
                    submit env ?d ?n ?i = Returns tx \<and> wait tx = Returns bscHash
                  \<and> st' = addBurnTxHashes (clock env) ?i h (Some bscHash)
                            (addProcessedBurn (clock env) ?i st)
                  \<and> res = Returns (Success ?i h bscHash ?n (amount (args ev))
                                    (feeAmount (amount (args ev))) ?d)
                  \<and> t = (ReceiptFetched h # polls)
                      @ [Unlocked ?d ?n ?i, BurnMarked ?i, HashesStored ?i])"
      proof (cases "submit env ?d ?n ?i")
        case (Throws msg)
        with run eq show ?thesis by (auto simp: withdrawalCatch_def)
      next
        case (Returns tx)
        show ?thesis
        proof (cases "wait tx")
          case (Throws msg)
          with Returns run eq show ?thesis by (auto simp: withdrawalCatch_def)
        next
          case r2: (Returns bscHash)
          with Returns run eq show ?thesis by auto
        qed
      qed
      with v False w [unfolded c] polls show ?thesis
        by blast
    qed
  qed
qed


lemma processWithdrawal_failure:
  assumes run: "processWithdrawalByTxHash env h st = (res, st', t)"
    and v: "verifyEvent env ''Burn'' h = Inr (rc, ev)"
    and f: "(\<exists>msg. submit env (destinationAddress (args ev)) (netAmount (amount (args ev)))
                    (eventId (args ev)) = Throws msg)
            \<or> (\<exists>tx msg. submit env (destinationAddress (args ev)) (netAmount (amount (args ev)))
                    (eventId (args ev)) = Returns tx \<and> wait tx = Throws msg)"
  shows "st' = st \<and> (\<forall>e \<in> set t. \<not> isMark e) \<and> (\<forall>x. res = Returns x \<longrightarrow> \<not> success x)"
  using processWithdrawal_shape [OF run]
proof (elim disjE exE conjE)
  assume "st' = st" "\<forall>e \<in> set t. \<not> isSubmission e \<and> \<not> isMark e"
    "\<forall>x. res = Returns x \<longrightarrow> \<not> success x"
  then show ?thesis by simp
next
  fix rc' and ev' :: parsed_log and c polls msg
  assume "\<forall>e \<in> set (ReceiptFetched h # polls). \<not> isSubmission e \<and> \<not> isMark e"
    "st' = st" "\<forall>x. res = Returns x \<longrightarrow> \<not> success x"
    "t = (ReceiptFetched h # polls)
           @ [Unlocked (destinationAddress (args ev')) (netAmount (amount (args ev')))
                (eventId (args ev'))]"
  then show ?thesis by (simp add: isMark_def)
next
  fix rc' and ev' :: parsed_log and c polls tx msg
  assume "\<forall>e \<in> set (ReceiptFetched h # polls). \<not> isSubmission e \<and> \<not> isMark e"
    "st' = st" "\<forall>x. res = Returns x \<longrightarrow> \<not> success x"
    "t = (ReceiptFetched h # polls)
           @ [Unlocked (destinationAddress (args ev')) (netAmount (amount (args ev')))
                (eventId (args ev'))]"
  then show ?thesis by (simp add: isMark_def)
next
  fix rc' and ev' :: parsed_log and c polls tx bscHash
  assume "verifyEvent env ''Burn'' h = Inr (rc', ev')"
    and "submit env (destinationAddress (args ev')) (netAmount (amount (args ev')))
           (eventId (args ev')) = Returns tx"
    and "wait tx = Returns bscHash"
  with v f have False by auto
  then show ?thesis ..
qed


lemma processWithdrawal_marked:
  assumes run: "processWithdrawalByTxHash env h st = (res, st', t)"
    and m: "BurnMarked i \<in> set t"
  shows "\<exists>rc ev tx bscHash.
           verifyEvent env ''Burn'' h = Inr (rc, ev) \<and> i = eventId (args ev)
         \<and> \<not> isBurnProcessed i st
         \<and> submit env (destinationAddress (args ev)) (netAmount (amount (args ev))) i
             = Returns tx
         \<and> wait tx = Returns bscHash
         \<and> st' = addBurnTxHashes (clock env) i h (Some bscHash)
                   (addProcessedBurn (clock env) i st)
         \<and> t = beforeSubmission t
               @ [Unlocked (destinationAddress (args ev)) (netAmount (amount (args ev))) i,
                  BurnMarked i, HashesStored i]"
  using processWithdrawal_shape [OF run]
proof (elim disjE exE conjE)
  assume "\<forall>e \<in> set t. \<not> isSubmission e \<and> \<not> isMark e"
  with m have False by (auto dest: bspec)
  then show ?thesis ..
next
  fix rc and ev :: parsed_log and c polls msg
  assume "\<forall>e \<in> set (ReceiptFetched h # polls). \<not> isSubmission e \<and> \<not> isMark e"
    "t = (ReceiptFetched h # polls)
           @ [Unlocked (destinationAddress (args ev)) (netAmount (amount (args ev)))
                (eventId (args ev))]"
  with m have False by (auto dest: bspec)
  then show ?thesis ..
next
  fix rc and ev :: parsed_log and c polls tx msg
  assume "\<forall>e \<in> set (ReceiptFetched h # polls). \<not> isSubmission e \<and> \<not> isMark e"
    "t = (ReceiptFetched h # polls)
           @ [Unlocked (destinationAddress (args ev)) (netAmount (amount (args ev)))
                (eventId (args ev))]"
  with m have False by (auto dest: bspec)
  then show ?thesis ..
next
  fix rc and ev :: parsed_log and c polls tx bscHash
  let ?d = "destinationAddress (args ev)"
  let ?n = "netAmount (amount (args ev))"
  let ?i = "eventId (args ev)"
  assume v: "verifyEvent env ''Burn'' h = Inr (rc, ev)"
    and np: "\<not> isBurnProcessed ?i st"
    and pre: "\<forall>e \<in> set (ReceiptFetched h # polls). \<not> isSubmission e \<and> \<not> isMark e"
    and s: "submit env ?d ?n ?i = Returns tx" and w: "wait tx = Returns bscHash"
    and st: "st' = addBurnTxHashes (clock env) ?i h (Some bscHash)
                     (addProcessedBurn (clock env) ?i st)"
    and t: "t = (ReceiptFetched h # polls) @ [Unlocked ?d ?n ?i, BurnMarked ?i, HashesStored ?i]"
  from pre have pre': "\<forall>e \<in> set (ReceiptFetched h # polls). \<not> isSubmission e"
    by simp
  have bs: "beforeSubmission t = ReceiptFetched h # polls"
    unfolding t by (rule beforeSubmission_at [OF pre']) simp
  from pre have "BurnMarked i \<notin> set (ReceiptFetched h # polls)"
    by (auto dest: bspec)
  with m have i: "i = ?i"
    unfolding t by simp
  from v np s w st t show ?thesis
    unfolding bs i by blast
qed

lemma processWithdrawal_submits:
  assumes run: "processWithdrawalByTxHash env h st = (res, st', t)"
    and v: "verifyEvent env ''Burn'' h = Inr (rc, ev)"
    and np: "\<not> isBurnProcessed (eventId (args ev)) st"
    and a: "awaitConfirmations (getBlockNumber env) (blockNumber rc) 5000 = (Inr c, polls)"
  shows "Unlocked (destinationAddress (args ev)) (netAmount (amount (args ev)))
           (eventId (args ev)) \<in> set t
         \<and> (\<forall>tx bscHash.
               submit env (destinationAddress (args ev)) (netAmount (amount (args ev)))
                 (eventId (args ev)) = Returns tx
               \<and> wait tx = Returns bscHash \<longrightarrow>
               BurnMarked (eventId (args ev)) \<in> set t
               \<and> st' = addBurnTxHashes (clock env) (eventId (args ev)) h (Some bscHash)
                         (addProcessedBurn (clock env) (eventId (args ev)) st)
               \<and> res = Returns (Success (eventId (args ev)) h bscHash
                                 (netAmount (amount (args ev))) (amount (args ev))
                                 (feeAmount (amount (args ev)))
                                 (destinationAddress (args ev))))"
proof -
  note eq = processWithdrawal_submitted [OF v np a]
  show ?thesis
  proof (cases "submit env (destinationAddress (args ev)) (netAmount (amount (args ev)))
                  (eventId (args ev))")
    case (Throws msg)
    with run eq show ?thesis by auto
  next
    case (Returns tx)
    show ?thesis
    proof (cases "wait tx")
      case (Throws msg)
      with Returns run eq show ?thesis by auto
    next
      case r2: (Returns bscHash)
      with Returns run eq show ?thesis by auto
    qed
  qed
qed


lemma handleBscDeposit_shape:
  assumes run: "handleBscDeposit env event r = (r', t)"
  shows "(r' = r \<and> (\<forall>e \<in> set t. \<not> isSubmission e \<and> \<not> isMark e)
            \<and> \<not> (\<exists>c polls rc ev.
                    eventId (eventArgs event) \<notin> processedDepositsSet r
                  \<and> awaitConfirmations (getBlockNumber env) (eventBlock event) 3000
                      = (Inr c, polls)
                  \<and> verifyEvent env ''Deposit'' (JStr (transactionHash event)) = Inr (rc, ev)
                  \<and> eventId (args ev) = eventId (eventArgs event)))
       \<or> (\<exists>c polls rc ev.
             eventId (eventArgs event) \<notin> processedDepositsSet r
           \<and> awaitConfirmations (getBlockNumber env) (eventBlock event) 3000 = (Inr c, polls)
           \<and> verifyEvent env ''Deposit'' (JStr (transactionHash event)) = Inr (rc, ev)
           \<and> eventId (args ev) = eventId (eventArgs event)
           \<and> (\<forall>e \<in> set (polls @ [ReceiptFetched (JStr (transactionHash event))]).
                 \<not> isSubmission e \<and> \<not> isMark e)
           \<and> (((\<exists>msg. submit env (destinationAddress (args ev)) (netAmount (amount (args ev)))
                           (eventId (args ev)) = Throws msg)
                   \<or> (\<exists>tx msg. submit env (destinationAddress (args ev))
                                  (netAmount (amount (args ev))) (eventId (args ev)) = Returns tx
                                \<and> wait tx = Throws msg))
                 \<and> r' = r
                 \<and> t = (polls @ [ReceiptFetched (JStr (transactionHash event))])
                     @ [Minted (destinationAddress (args ev)) (netAmount (amount (args ev)))
                          (eventId (args ev))]
              \<or> (\<exists>tx ucHash.
                    submit env (destinationAddress (args ev)) (netAmount (amount (args ev)))
                      (eventId (args ev)) = Returns tx
                  \<and> wait tx = Returns ucHash
                  \<and> r' = r\<lparr>processedDepositsSet :=
                               insert (eventId (eventArgs event)) (processedDepositsSet r),
                             stateManager :=
                               addDepositTxHashes (clock env) (eventId (eventArgs event))
                                 (JStr (transactionHash event)) (Some ucHash)
                                 (addProcessedDeposit (clock env) (eventId (eventArgs event))
                                    (stateManager r))\<rparr>
                  \<and> t = (polls @ [ReceiptFetched (JStr (transactionHash event))])
                      @ [Minted (destinationAddress (args ev)) (netAmount (amount (args ev)))
                           (eventId (args ev)),
                         DepositMarked (eventId (eventArgs event)),
                         HashesStored (eventId (eventArgs event))])))"
proof (cases "eventId (eventArgs event) \<in> processedDepositsSet r")
  case True
  with run show ?thesis
    by (auto simp: handleBscDeposit_known)
next
  case False
  let ?h = "JStr (transactionHash event)"
  obtain w polls where w: "awaitConfirmations (getBlockNumber env) (eventBlock event) 3000 = (w, polls)"
    by (cases "awaitConfirmations (getBlockNumber env) (eventBlock event) 3000")
  have polls: "\<forall>e \<in> set polls. \<not> isSubmission e \<and> \<not> isMark e"
    using awaitConfirmations_polls [OF w] .
  then have pre: "\<forall>e \<in> set (polls @ [ReceiptFetched ?h]). \<not> isSubmission e \<and> \<not> isMark e"
    by (simp add: isSubmission_def isMark_def)
  show ?thesis
  proof (cases w)
    case (Inl msg)
    from run handleBscDeposit_unconfirmed [OF False w [unfolded Inl]]
    have "r' = r" "t = polls" by simp_all
    with polls w Inl show ?thesis by auto
  next
    case c: (Inr c)
    show ?thesis
    proof (cases "verifyEvent env ''Deposit'' ?h")
      case (Inl err)
      from run handleBscDeposit_unverified [OF False w [unfolded c] Inl]
      have "r' = r" "t = polls @ [ReceiptFetched ?h]" by simp_all
      with pre Inl show ?thesis by auto
    next
      case (Inr p)
      obtain rc ev where p: "p = (rc, ev)" by (cases p)
      note v = Inr [unfolded p]
      show ?thesis
      proof (cases "eventId (args ev) = eventId (eventArgs event)")
        case diff: False
        from run handleBscDeposit_mismatch [OF False w [unfolded c] v diff]
        have "r' = r" "t = polls @ [ReceiptFetched ?h]" by simp_all
        with pre v diff show ?thesis by auto
      next
        case same: True
        note eq = handleBscDeposit_submitted [OF False w [unfolded c] v same]
        let ?d = "destinationAddress (args ev)"
        let ?n = "netAmount (amount (args ev))"
        let ?i = "eventId (args ev)"
        have "((\<exists>msg. submit env ?d ?n ?i = Throws msg)
                   \<or> (\<exists>tx msg. submit env ?d ?n ?i = Returns tx \<and> wait tx = Throws msg))
                 \<and> r' = r \<and> t = (polls @ [ReceiptFetched ?h]) @ [Minted ?d ?n ?i]
              \<or> (\<exists>tx ucHash.
                    submit env ?d ?n ?i = Returns tx \<and> wait tx = Returns ucHash
                  \<and> r' = r\<lparr>processedDepositsSet :=
                               insert (eventId (eventArgs event)) (processedDepositsSet r),
                             stateManager :=
                               addDepositTxHashes (clock env) (eventId (eventArgs event))
                                 ?h (Some ucHash)
                                 (addProcessedDeposit (clock env) (eventId (eventArgs event))
                                    (stateManager r))\<rparr>
                  \<and> t = (polls @ [ReceiptFetched ?h])
                      @ [Minted ?d ?n ?i, DepositMarked (eventId (eventArgs event)),
                         HashesStored (eventId (eventArgs event))])"
        proof (cases "submit env ?d ?n ?i")
          case (Throws msg)
          with run eq show ?thesis by auto
        next
          case (Returns tx)
          show ?thesis
          proof (cases "wait tx")
            case (Throws msg)
            with Returns run eq show ?thesis by auto
          next
            case r2: (Returns ucHash)
            with Returns run eq show ?thesis by auto
          qed
        qed
        with False w [unfolded c] v same pre show ?thesis
          by blast
      qed
    qed
  qed
qed


lemma handleBscDeposit_failure:
  assumes run: "handleBscDeposit env event r = (r', t)"
    and v: "verifyEvent env ''Deposit'' (JStr (transactionHash event)) = Inr (rc, ev)"
    and f: "(\<exists>msg. submit env (destinationAddress (args ev)) (netAmount (amount (args ev)))
                    (eventId (args ev)) = Throws msg)
            \<or> (\<exists>tx msg. submit env (destinationAddress (args ev)) (netAmount (amount (args ev)))
                    (eventId (args ev)) = Returns tx \<and> wait tx = Throws msg)"
  shows "r' = r \<and> (\<forall>e \<in> set t. \<not> isMark e)"
  using handleBscDeposit_shape [OF run]
proof (elim disjE exE conjE)
  assume "r' = r" "\<forall>e \<in> set t. \<not> isSubmission e \<and> \<not> isMark e"
  then show ?thesis by simp
next
  fix c polls rc' and ev' :: parsed_log and msg
  assume "\<forall>e \<in> set (polls @ [ReceiptFetched (JStr (transactionHash event))]).
            \<not> isSubmission e \<and> \<not> isMark e"
    "r' = r"
    "t = (polls @ [ReceiptFetched (JStr (transactionHash event))])
           @ [Minted (destinationAddress (args ev')) (netAmount (amount (args ev')))
                (eventId (args ev'))]"
  then show ?thesis by (simp add: isMark_def)
next
  fix c polls rc' and ev' :: parsed_log and tx msg
  assume "\<forall>e \<in> set (polls @ [ReceiptFetched (JStr (transactionHash event))]).
            \<not> isSubmission e \<and> \<not> isMark e"
    "r' = r"
    "t = (polls @ [ReceiptFetched (JStr (transactionHash event))])
           @ [Minted (destinationAddress (args ev')) (netAmount (amount (args ev')))
                (eventId (args ev'))]"
  then show ?thesis by (simp add: isMark_def)
next
  fix c polls rc' and ev' :: parsed_log and tx ucHash
  assume "verifyEvent env ''Deposit'' (JStr (transactionHash event)) = Inr (rc', ev')"
    and "submit env (destinationAddress (args ev')) (netAmount (amount (args ev')))
           (eventId (args ev')) = Returns tx"
    and "wait tx = Returns ucHash"
  with v f have False by auto
  then show ?thesis ..
qed

lemma handleBscDeposit_marked:
  assumes run: "handleBscDeposit env event r = (r', t)"
    and m: "DepositMarked i \<in> set t"
  shows "\<exists>rc ev tx ucHash.
           verifyEvent env ''Deposit'' (JStr (transactionHash event)) = Inr (rc, ev)
         \<and> i = eventId (eventArgs event) \<and> eventId (args ev) = i
         \<and> i \<notin> processedDepositsSet r
         \<and> submit env (destinationAddress (args ev)) (netAmount (amount (args ev))) i
             = Returns tx
         \<and> wait tx = Returns ucHash
         \<and> r' = r\<lparr>processedDepositsSet := insert i (processedDepositsSet r),
                    stateManager :=
                      addDepositTxHashes (clock env) i (JStr (transactionHash event))
                        (Some ucHash) (addProcessedDeposit (clock env) i (stateManager r))\<rparr>
         \<and> t = beforeSubmission t
               @ [Minted (destinationAddress (args ev)) (netAmount (amount (args ev))) i,
                  DepositMarked i, HashesStored i]"
  using handleBscDeposit_shape [OF run]
proof (elim disjE exE conjE)
  assume "\<forall>e \<in> set t. \<not> isSubmission e \<and> \<not> isMark e"
  with m have False by (auto dest: bspec)
  then show ?thesis ..
next
  fix c polls rc and ev :: parsed_log and msg
  assume "\<forall>e \<in> set (polls @ [ReceiptFetched (JStr (transactionHash event))]).
            \<not> isSubmission e \<and> \<not> isMark e"
    "t = (polls @ [ReceiptFetched (JStr (transactionHash event))])
           @ [Minted (destinationAddress (args ev)) (netAmount (amount (args ev)))
                (eventId (args ev))]"
  with m have False by (auto dest: bspec)
  then show ?thesis ..
next
  fix c polls rc and ev :: parsed_log and tx msg
  assume "\<forall>e \<in> set (polls @ [ReceiptFetched (JStr (transactionHash event))]).
            \<not> isSubmission e \<and> \<not> isMark e"
    "t = (polls @ [ReceiptFetched (JStr (transactionHash event))])
           @ [Minted (destinationAddress (args ev)) (netAmount (amount (args ev)))
                (eventId (args ev))]"
  with m have False by (auto dest: bspec)
  then show ?thesis ..
next
  fix c polls rc and ev :: parsed_log and tx ucHash
  let ?h = "JStr (transactionHash event)"
  let ?d = "destinationAddress (args ev)"
  let ?n = "netAmount (amount (args ev))"
  let ?i = "eventId (eventArgs event)"
  assume v: "verifyEvent env ''Deposit'' ?h = Inr (rc, ev)"
    and same: "eventId (args ev) = ?i"
    and np: "?i \<notin> processedDepositsSet r"
    and pre: "\<forall>e \<in> set (polls @ [ReceiptFetched ?h]). \<not> isSubmission e \<and> \<not> isMark e"
    and s: "submit env ?d ?n (eventId (args ev)) = Returns tx" and w: "wait tx = Returns ucHash"
    and st: "r' = r\<lparr>processedDepositsSet := insert ?i (processedDepositsSet r),
                      stateManager :=
                        addDepositTxHashes (clock env) ?i ?h (Some ucHash)
                          (addProcessedDeposit (clock env) ?i (stateManager r))\<rparr>"
    and t: "t = (polls @ [ReceiptFetched ?h])
                @ [Minted ?d ?n (eventId (args ev)), DepositMarked ?i, HashesStored ?i]"
  from pre have pre': "\<forall>e \<in> set (polls @ [ReceiptFetched ?h]). \<not> isSubmission e"
    by simp
  have bs: "beforeSubmission t = polls @ [ReceiptFetched ?h]"
    unfolding t by (rule beforeSubmission_at [OF pre']) simp
  from pre have "DepositMarked i \<notin> set (polls @ [ReceiptFetched ?h])"
    by (auto dest: bspec)
  with m have i: "i = ?i"
    unfolding t by simp
  from v np s w st t same show ?thesis
    unfolding bs i by simp
qed

lemma handleBscDeposit_submits:
  assumes run: "handleBscDeposit env event r = (r', t)"
    and np: "eventId (eventArgs event) \<notin> processedDepositsSet r"
    and a: "awaitConfirmations (getBlockNumber env) (eventBlock event) 3000 = (Inr c, polls)"
    and v: "verifyEvent env ''Deposit'' (JStr (transactionHash event)) = Inr (rc, ev)"
    and same: "eventId (args ev) = eventId (eventArgs event)"
  shows "Minted (destinationAddress (args ev)) (netAmount (amount (args ev)))
           (eventId (args ev)) \<in> set t
         \<and> (\<forall>tx ucHash.
               submit env (destinationAddress (args ev)) (netAmount (amount (args ev)))
                 (eventId (args ev)) = Returns tx
               \<and> wait tx = Returns ucHash \<longrightarrow>
               DepositMarked (eventId (args ev)) \<in> set t
               \<and> r' = r\<lparr>processedDepositsSet :=
                            insert (eventId (args ev)) (processedDepositsSet r),
                          stateManager :=
                            addDepositTxHashes (clock env) (eventId (args ev))
                              (JStr (transactionHash event)) (Some ucHash)
                              (addProcessedDeposit (clock env) (eventId (args ev))
                                 (stateManager r))\<rparr>)"
proof -
  note eq = handleBscDeposit_submitted [OF np a v same]
  show ?thesis
  proof (cases "submit env (destinationAddress (args ev)) (netAmount (amount (args ev)))
                  (eventId (args ev))")
    case (Throws msg)
    with run eq show ?thesis by auto
  next
    case (Returns tx)
    show ?thesis
    proof (cases "wait tx")
      case (Throws msg)
      with Returns run eq show ?thesis by auto
    next
      case r2: (Returns ucHash)
      with Returns run eq same show ?thesis by auto
    qed
  qed
qed

lemma handleUcBurn_shape:
  assumes run: "handleUcBurn env event r = (r', t)"
  shows "(r' = r \<and> (\<forall>e \<in> set t. \<not> isSubmission e \<and> \<not> isMark e)
            \<and> \<not> (\<exists>c polls rc.
                    eventId (eventArgs event) \<notin> processedBurnsSet r
                  \<and> awaitConfirmations (getBlockNumber env) (eventBlock event) 5000
                      = (Inr c, polls)
                  \<and> verifyReceipt env (JStr (transactionHash event)) = Inr rc))
       \<or> (\<exists>c polls rc.
             eventId (eventArgs event) \<notin> processedBurnsSet r
           \<and> awaitConfirmations (getBlockNumber env) (eventBlock event) 5000 = (Inr c, polls)
           \<and> verifyReceipt env (JStr (transactionHash event)) = Inr rc
           \<and> (\<forall>e \<in> set (polls @ [ReceiptFetched (JStr (transactionHash event))]).
                 \<not> isSubmission e \<and> \<not> isMark e)
           \<and> (((\<exists>msg. submit env (destinationAddress (eventArgs event))
                           (netAmount (amount (eventArgs event)))
                           (eventId (eventArgs event)) = Throws msg)
                   \<or> (\<exists>tx msg. submit env (destinationAddress (eventArgs event))
                                  (netAmount (amount (eventArgs event)))
                                  (eventId (eventArgs event)) = Returns tx
                                \<and> wait tx = Throws msg))
                 \<and> r' = r
                 \<and> t = (polls @ [ReceiptFetched (JStr (transactionHash event))])
                     @ [Unlocked (destinationAddress (eventArgs event))
                          (netAmount (amount (eventArgs event))) (eventId (eventArgs event))]
              \<or> (\<exists>tx bscHash.
                    submit env (destinationAddress (eventArgs event))
                      (netAmount (amount (eventArgs event))) (eventId (eventArgs event))
                      = Returns tx
                  \<and> wait tx = Returns bscHash
                  \<and> r' = r\<lparr>processedBurnsSet :=
                               insert (eventId (eventArgs event)) (processedBurnsSet r),
                             stateManager :=
                               addBurnTxHashes (clock env) (eventId (eventArgs event))
                                 (JStr (transactionHash event)) (Some bscHash)
                                 (addProcessedBurn (clock env) (eventId (eventArgs event))
                                    (stateManager r))\<rparr>
                  \<and> t = (polls @ [ReceiptFetched (JStr (transactionHash event))])
                      @ [Unlocked (destinationAddress (eventArgs event))
                           (netAmount (amount (eventArgs event))) (eventId (eventArgs event)),
                         BurnMarked (eventId (eventArgs event)),
                         HashesStored (eventId (eventArgs event))])))"
proof (cases "eventId (eventArgs event) \<in> processedBurnsSet r")
  case True
  with run show ?thesis
    by (auto simp: handleUcBurn_known)
next
  case False
  let ?h = "JStr (transactionHash event)"
  obtain w polls where w: "awaitConfirmations (getBlockNumber env) (eventBlock event) 5000 = (w, polls)"
    by (cases "awaitConfirmations (getBlockNumber env) (eventBlock event) 5000")
  have polls: "\<forall>e \<in> set polls. \<not> isSubmission e \<and> \<not> isMark e"
    using awaitConfirmations_polls [OF w] .
  then have pre: "\<forall>e \<in> set (polls @ [ReceiptFetched ?h]). \<not> isSubmission e \<and> \<not> isMark e"
    by (simp add: isSubmission_def isMark_def)
  show ?thesis
  proof (cases w)
    case (Inl msg)
    from run handleUcBurn_unconfirmed [OF False w [unfolded Inl]]
    have "r' = r" "t = polls" by simp_all
    with polls w Inl show ?thesis by auto
  next
    case c: (Inr c)
    show ?thesis
    proof (cases "verifyReceipt env ?h")
      case (Inl err)
      from run handleUcBurn_unverified [OF False w [unfolded c] Inl]
      have "r' = r" "t = polls @ [ReceiptFetched ?h]" by simp_all
      with pre Inl show ?thesis by auto
    next
      case (Inr rc)
      note eq = handleUcBurn_submitted [OF False w [unfolded c] Inr]
      let ?d = "destinationAddress (eventArgs event)"
      let ?n = "netAmount (amount (eventArgs event))"
      let ?i = "eventId (eventArgs event)"
      have "((\<exists>msg. submit env ?d ?n ?i = Throws msg)
                 \<or> (\<exists>tx msg. submit env ?d ?n ?i = Returns tx \<and> wait tx = Throws msg))
               \<and> r' = r \<and> t = (polls @ [ReceiptFetched ?h]) @ [Unlocked ?d ?n ?i]
            \<or> (\<exists>tx bscHash.
                  submit env ?d ?n ?i = Returns tx \<and> wait tx = Returns bscHash
                \<and> r' = r\<lparr>processedBurnsSet := insert ?i (processedBurnsSet r),
                           stateManager :=
                             addBurnTxHashes (clock env) ?i ?h (Some bscHash)
                               (addProcessedBurn (clock env) ?i (stateManager r))\<rparr>
                \<and> t = (polls @ [ReceiptFetched ?h])
                    @ [Unlocked ?d ?n ?i, BurnMarked ?i, HashesStored ?i])"
      proof (cases "submit env ?d ?n ?i")
        case (Throws msg)
        with run eq show ?thesis by auto
      next
        case (Returns tx)
        show ?thesis
        proof (cases "wait tx")
          case (Throws msg)
          with Returns run eq show ?thesis by auto
        next
          case r2: (Returns bscHash)
          with Returns run eq show ?thesis by auto
        qed
      qed
      with False w [unfolded c] Inr pre show ?thesis
        by blast
    qed
  qed
qed

lemma handleUcBurn_failure:
  assumes run: "handleUcBurn env event r = (r', t)"
    and f: "(\<exists>msg. submit env (destinationAddress (eventArgs event))
                    (netAmount (amount (eventArgs event))) (eventId (eventArgs event))
                  = Throws msg)
            \<or> (\<exists>tx msg. submit env (destinationAddress (eventArgs event))
                    (netAmount (amount (eventArgs event))) (eventId (eventArgs event))
                  = Returns tx \<and> wait tx = Throws msg)"
  shows "r' = r \<and> (\<forall>e \<in> set t. \<not> isMark e)"
  using handleUcBurn_shape [OF run]
proof (elim disjE exE conjE)
  assume "r' = r" "\<forall>e \<in> set t. \<not> isSubmission e \<and> \<not> isMark e"
  then show ?thesis by simp
next
  fix c polls rc msg
  assume "\<forall>e \<in> set (polls @ [ReceiptFetched (JStr (transactionHash event))]).
            \<not> isSubmission e \<and> \<not> isMark e"
    "r' = r"
    "t = (polls @ [ReceiptFetched (JStr (transactionHash event))])
           @ [Unlocked (destinationAddress (eventArgs event))
                (netAmount (amount (eventArgs event))) (eventId (eventArgs event))]"
  then show ?thesis by (simp add: isMark_def)
next
  fix c polls rc tx msg
  assume "\<forall>e \<in> set (polls @ [ReceiptFetched (JStr (transactionHash event))]).
            \<not> isSubmission e \<and> \<not> isMark e"
    "r' = r"
    "t = (polls @ [ReceiptFetched (JStr (transactionHash event))])
           @ [Unlocked (destinationAddress (eventArgs event))
                (netAmount (amount (eventArgs event))) (eventId (eventArgs event))]"
  then show ?thesis by (simp add: isMark_def)
next
  fix c polls rc tx bscHash
  assume "submit env (destinationAddress (eventArgs event))
            (netAmount (amount (eventArgs event))) (eventId (eventArgs event)) = Returns tx"
    and "wait tx = Returns bscHash"
  with f have False by auto
  then show ?thesis ..
qed

lemma handleUcBurn_marked:
  assumes run: "handleUcBurn env event r = (r', t)"
    and m: "BurnMarked i \<in> set t"
  shows "\<exists>rc tx bscHash.
           verifyReceipt env (JStr (transactionHash event)) = Inr rc
         \<and> i = eventId (eventArgs event)
         \<and> i \<notin> processedBurnsSet r
         \<and> submit env (destinationAddress (eventArgs event))
             (netAmount (amount (eventArgs event))) i = Returns tx
         \<and> wait tx = Returns bscHash
         \<and> r' = r\<lparr>processedBurnsSet := insert i (processedBurnsSet r),
                    stateManager :=
                      addBurnTxHashes (clock env) i (JStr (transactionHash event))
                        (Some bscHash) (addProcessedBurn (clock env) i (stateManager r))\<rparr>
         \<and> t = beforeSubmission t
               @ [Unlocked (destinationAddress (eventArgs event))
                    (netAmount (amount (eventArgs event))) i,
                  BurnMarked i, HashesStored i]"
  using handleUcBurn_shape [OF run]
proof (elim disjE exE conjE)
  assume "\<forall>e \<in> set t. \<not> isSubmission e \<and> \<not> isMark e"
  with m have False by (auto dest: bspec)
  then show ?thesis ..
next
  fix c polls rc msg
  assume "\<forall>e \<in> set (polls @ [ReceiptFetched (JStr (transactionHash event))]).
            \<not> isSubmission e \<and> \<not> isMark e"
    "t = (polls @ [ReceiptFetched (JStr (transactionHash event))])
           @ [Unlocked (destinationAddress (eventArgs event))
                (netAmount (amount (eventArgs event))) (eventId (eventArgs event))]"
  with m have False by (auto dest: bspec)
  then show ?thesis ..
next
  fix c polls rc tx msg
  assume "\<forall>e \<in> set (polls @ [ReceiptFetched (JStr (transactionHash event))]).
            \<not> isSubmission e \<and> \<not> isMark e"
    "t = (polls @ [ReceiptFetched (JStr (transactionHash event))])
           @ [Unlocked (destinationAddress (eventArgs event))
                (netAmount (amount (eventArgs event))) (eventId (eventArgs event))]"
  with m have False by (auto dest: bspec)
  then show ?thesis ..
next
  fix c polls rc tx bscHash
  let ?h = "JStr (transactionHash event)"
  let ?d = "destinationAddress (eventArgs event)"
  let ?n = "netAmount (amount (eventArgs event))"
  let ?i = "eventId (eventArgs event)"
  assume v: "verifyReceipt env ?h = Inr rc"
    and np: "?i \<notin> processedBurnsSet r"
    and pre: "\<forall>e \<in> set (polls @ [ReceiptFetched ?h]). \<not> isSubmission e \<and> \<not> isMark e"
    and s: "submit env ?d ?n ?i = Returns tx" and w: "wait tx = Returns bscHash"
    and st: "r' = r\<lparr>processedBurnsSet := insert ?i (processedBurnsSet r),
                      stateManager :=
                        addBurnTxHashes (clock env) ?i ?h (Some bscHash)
                          (addProcessedBurn (clock env) ?i (stateManager r))\<rparr>"
    and t: "t = (polls @ [ReceiptFetched ?h])
                @ [Unlocked ?d ?n ?i, BurnMarked ?i, HashesStored ?i]"
  from pre have pre': "\<forall>e \<in> set (polls @ [ReceiptFetched ?h]). \<not> isSubmission e"
    by simp
  have bs: "beforeSubmission t = polls @ [ReceiptFetched ?h]"
    unfolding t by (rule beforeSubmission_at [OF pre']) simp
  from pre have "BurnMarked i \<notin> set (polls @ [ReceiptFetched ?h])"
    by (auto dest: bspec)
  with m have i: "i = ?i"
    unfolding t by simp
  from v np s w st t show ?thesis
    unfolding bs i by simp
qed

lemma handleUcBurn_submits:
  assumes run: "handleUcBurn env event r = (r', t)"
    and np: "eventId (eventArgs event) \<notin> processedBurnsSet r"
    and a: "awaitConfirmations (getBlockNumber env) (eventBlock event) 5000 = (Inr c, polls)"
    and v: "verifyReceipt env (JStr (transactionHash event)) = Inr rc"
  shows "Unlocked (destinationAddress (eventArgs event))
           (netAmount (amount (eventArgs event))) (eventId (eventArgs event)) \<in> set t
         \<and> (\<forall>tx bscHash.
               submit env (destinationAddress (eventArgs event))
                 (netAmount (amount (eventArgs event))) (eventId (eventArgs event))
                 = Returns tx
               \<and> wait tx = Returns bscHash \<longrightarrow>
               BurnMarked (eventId (eventArgs event)) \<in> set t
               \<and> r' = r\<lparr>processedBurnsSet :=
                            insert (eventId (eventArgs event)) (processedBurnsSet r),
                          stateManager :=
                            addBurnTxHashes (clock env) (eventId (eventArgs event))
                              (JStr (transactionHash event)) (Some bscHash)
                              (addProcessedBurn (clock env) (eventId (eventArgs event))
                                 (stateManager r))\<rparr>)"
proof -
  note eq = handleUcBurn_submitted [OF np a v]
  show ?thesis
  proof (cases "submit env (destinationAddress (eventArgs event))
                  (netAmount (amount (eventArgs event))) (eventId (eventArgs event))")
    case (Throws msg)
    with run eq show ?thesis by auto
  next
    case (Returns tx)
    show ?thesis
    proof (cases "wait tx")
      case (Throws msg)
      with Returns run eq show ?thesis by auto
    next
      case r2: (Returns bscHash)
      with Returns run eq show ?thesis by auto
    qed
  qed
qed


lemma processDeposit_effects:
  "case processDepositByTxHash env h st of
     (res, st', t) \<Rightarrow>
       (\<forall>dest net i. Minted dest net i \<in> set t \<longrightarrow> \<not> isDepositProcessed i st)
       \<and> list_all (\<lambda>e. \<not> isMark e) (beforeSubmission t)
       \<and> (\<forall>i. DepositMarked i \<in> set t \<longrightarrow>
              (\<exists>dest net. Minted dest net i \<in> set t) \<and> isDepositProcessed i st'
              \<and> (\<exists>x. res = Returns x \<and> success x))
       \<and> ((\<forall>i. DepositMarked i \<notin> set t) \<longrightarrow> st' = st)
       \<and> (\<forall>i. DepositMarked i \<in> set t \<longrightarrow>
              (\<exists>rc ev tx ucHash.
                   verifyEvent env ''Deposit'' h = Inr (rc, ev) \<and> i = eventId (args ev)
                 \<and> \<not> isDepositProcessed i st
                 \<and> submit env (destinationAddress (args ev)) (netAmount (amount (args ev))) i
                     = Returns tx
                 \<and> wait tx = Returns ucHash
                 \<and> st' = addDepositTxHashes (clock env) i h (Some ucHash)
                           (addProcessedDeposit (clock env) i st)
                 \<and> t = beforeSubmission t
                       @ [Minted (destinationAddress (args ev))
                            (netAmount (amount (args ev))) i,
                          DepositMarked i, HashesStored i]))
       \<and> (\<forall>rc ev.
              verifyEvent env ''Deposit'' h = Inr (rc, ev)
              \<and> ((\<exists>msg. submit env (destinationAddress (args ev))
                            (netAmount (amount (args ev))) (eventId (args ev)) = Throws msg)
                 \<or> (\<exists>tx msg. submit env (destinationAddress (args ev))
                            (netAmount (amount (args ev))) (eventId (args ev)) = Returns tx
                          \<and> wait tx = Throws msg)) \<longrightarrow>
              st' = st \<and> (\<forall>e \<in> set t. \<not> isMark e)
              \<and> (\<forall>x. res = Returns x \<longrightarrow> \<not> success x))
       \<and> (\<forall>rc ev c polls.
              verifyEvent env ''Deposit'' h = Inr (rc, ev)
              \<and> \<not> isDepositProcessed (eventId (args ev)) st
              \<and> awaitConfirmations (getBlockNumber env) (blockNumber rc) 3000 = (Inr c, polls)
              \<longrightarrow>
              Minted (destinationAddress (args ev)) (netAmount (amount (args ev)))
                (eventId (args ev)) \<in> set t
              \<and> (\<forall>tx ucHash.
                    submit env (destinationAddress (args ev)) (netAmount (amount (args ev)))
                      (eventId (args ev)) = Returns tx
                    \<and> wait tx = Returns ucHash \<longrightarrow>
                    DepositMarked (eventId (args ev)) \<in> set t
                    \<and> st' = addDepositTxHashes (clock env) (eventId (args ev)) h (Some ucHash)
                              (addProcessedDeposit (clock env) (eventId (args ev)) st)
                    \<and> res = Returns (Success (eventId (args ev)) h ucHash
                                      (netAmount (amount (args ev))) (amount (args ev))
                                      (feeAmount (amount (args ev)))
                                      (destinationAddress (args ev)))))"
proof (cases "processDepositByTxHash env h st")
  case (fields res st' t)
  note old = processDeposit_order [where env = env and h = h and st = st]
  have o: "(\<forall>dest net i. Minted dest net i \<in> set t \<longrightarrow> \<not> isDepositProcessed i st)
       \<and> list_all (\<lambda>e. \<not> isMark e) (beforeSubmission t)
       \<and> (\<forall>i. DepositMarked i \<in> set t \<longrightarrow>
              (\<exists>dest net. Minted dest net i \<in> set t) \<and> isDepositProcessed i st'
              \<and> (\<exists>x. res = Returns x \<and> success x))
       \<and> ((\<forall>i. DepositMarked i \<notin> set t) \<longrightarrow> st' = st)"
    using old unfolding fields prod.case .
  note a = o [THEN conjunct1]
    and b = o [THEN conjunct2, THEN conjunct1]
    and c = o [THEN conjunct2, THEN conjunct2, THEN conjunct1]
    and d = o [THEN conjunct2, THEN conjunct2, THEN conjunct2]
  have m: "\<forall>i. DepositMarked i \<in> set t \<longrightarrow>
              (\<exists>rc ev tx ucHash.
                   verifyEvent env ''Deposit'' h = Inr (rc, ev) \<and> i = eventId (args ev)
                 \<and> \<not> isDepositProcessed i st
                 \<and> submit env (destinationAddress (args ev)) (netAmount (amount (args ev))) i
                     = Returns tx
                 \<and> wait tx = Returns ucHash
                 \<and> st' = addDepositTxHashes (clock env) i h (Some ucHash)
                           (addProcessedDeposit (clock env) i st)
                 \<and> t = beforeSubmission t
                       @ [Minted (destinationAddress (args ev))
                            (netAmount (amount (args ev))) i,
                          DepositMarked i, HashesStored i])"
    by (intro allI impI) (rule processDeposit_marked [OF fields])
  have f: "\<forall>rc ev.
              verifyEvent env ''Deposit'' h = Inr (rc, ev)
              \<and> ((\<exists>msg. submit env (destinationAddress (args ev))
                            (netAmount (amount (args ev))) (eventId (args ev)) = Throws msg)
                 \<or> (\<exists>tx msg. submit env (destinationAddress (args ev))
                            (netAmount (amount (args ev))) (eventId (args ev)) = Returns tx
                          \<and> wait tx = Throws msg)) \<longrightarrow>
              st' = st \<and> (\<forall>e \<in> set t. \<not> isMark e)
              \<and> (\<forall>x. res = Returns x \<longrightarrow> \<not> success x)"
  proof (intro allI impI, elim conjE)
    fix rc and ev :: parsed_log
    assume "verifyEvent env ''Deposit'' h = Inr (rc, ev)"
      and "(\<exists>msg. submit env (destinationAddress (args ev))
                            (netAmount (amount (args ev))) (eventId (args ev)) = Throws msg)
                 \<or> (\<exists>tx msg. submit env (destinationAddress (args ev))
                            (netAmount (amount (args ev))) (eventId (args ev)) = Returns tx
                          \<and> wait tx = Throws msg)"
    then show "st' = st \<and> (\<forall>e \<in> set t. \<not> isMark e)
              \<and> (\<forall>x. res = Returns x \<longrightarrow> \<not> success x)"
      by (rule processDeposit_failure [OF fields])
  qed
  have s: "\<forall>rc ev c polls.
              verifyEvent env ''Deposit'' h = Inr (rc, ev)
              \<and> \<not> isDepositProcessed (eventId (args ev)) st
              \<and> awaitConfirmations (getBlockNumber env) (blockNumber rc) 3000 = (Inr c, polls)
              \<longrightarrow>
              Minted (destinationAddress (args ev)) (netAmount (amount (args ev)))
                (eventId (args ev)) \<in> set t
              \<and> (\<forall>tx ucHash.
                    submit env (destinationAddress (args ev)) (netAmount (amount (args ev)))
                      (eventId (args ev)) = Returns tx
                    \<and> wait tx = Returns ucHash \<longrightarrow>
                    DepositMarked (eventId (args ev)) \<in> set t
                    \<and> st' = addDepositTxHashes (clock env) (eventId (args ev)) h (Some ucHash)
                              (addProcessedDeposit (clock env) (eventId (args ev)) st)
                    \<and> res = Returns (Success (eventId (args ev)) h ucHash
                                      (netAmount (amount (args ev))) (amount (args ev))
                                      (feeAmount (amount (args ev)))
                                      (destinationAddress (args ev))))"
  proof (intro allI impI, elim conjE)
    fix rc and ev :: parsed_log and c polls
    assume "verifyEvent env ''Deposit'' h = Inr (rc, ev)"
      and "\<not> isDepositProcessed (eventId (args ev)) st"
      and "awaitConfirmations (getBlockNumber env) (blockNumber rc) 3000 = (Inr c, polls)"
    then show "Minted (destinationAddress (args ev)) (netAmount (amount (args ev)))
                (eventId (args ev)) \<in> set t
              \<and> (\<forall>tx ucHash.
                    submit env (destinationAddress (args ev)) (netAmount (amount (args ev)))
                      (eventId (args ev)) = Returns tx
                    \<and> wait tx = Returns ucHash \<longrightarrow>
                    DepositMarked (eventId (args ev)) \<in> set t
                    \<and> st' = addDepositTxHashes (clock env) (eventId (args ev)) h (Some ucHash)
                              (addProcessedDeposit (clock env) (eventId (args ev)) st)
                    \<and> res = Returns (Success (eventId (args ev)) h ucHash
                                      (netAmount (amount (args ev))) (amount (args ev))
                                      (feeAmount (amount (args ev)))
                                      (destinationAddress (args ev))))"
      by (rule processDeposit_submits [OF fields])
  qed
  show ?thesis
    unfolding fields prod.case
    by (intro conjI) (rule a b c d m f s)+
qed

lemma processWithdrawal_effects:
  "case processWithdrawalByTxHash env h st of
     (res, st', t) \<Rightarrow>
       (\<forall>dest net i. Unlocked dest net i \<in> set t \<longrightarrow> \<not> isBurnProcessed i st)
       \<and> list_all (\<lambda>e. \<not> isMark e) (beforeSubmission t)
       \<and> (\<forall>i. BurnMarked i \<in> set t \<longrightarrow>
              (\<exists>dest net. Unlocked dest net i \<in> set t) \<and> isBurnProcessed i st'
              \<and> (\<exists>x. res = Returns x \<and> success x))
       \<and> ((\<forall>i. BurnMarked i \<notin> set t) \<longrightarrow> st' = st)
       \<and> (\<forall>i. BurnMarked i \<in> set t \<longrightarrow>
              (\<exists>rc ev tx bscHash.
                   verifyEvent env ''Burn'' h = Inr (rc, ev) \<and> i = eventId (args ev)
                 \<and> \<not> isBurnProcessed i st
                 \<and> submit env (destinationAddress (args ev)) (netAmount (amount (args ev))) i
                     = Returns tx
                 \<and> wait tx = Returns bscHash
                 \<and> st' = addBurnTxHashes (clock env) i h (Some bscHash)
                           (addProcessedBurn (clock env) i st)
                 \<and> t = beforeSubmission t
                       @ [Unlocked (destinationAddress (args ev))
                            (netAmount (amount (args ev))) i,
                          BurnMarked i, HashesStored i]))
       \<and> (\<forall>rc ev.
              verifyEvent env ''Burn'' h = Inr (rc, ev)
              \<and> ((\<exists>msg. submit env (destinationAddress (args ev))
                            (netAmount (amount (args ev))) (eventId (args ev)) = Throws msg)
                 \<or> (\<exists>tx msg. submit env (destinationAddress (args ev))
                            (netAmount (amount (args ev))) (eventId (args ev)) = Returns tx
                          \<and> wait tx = Throws msg)) \<longrightarrow>
              st' = st \<and> (\<forall>e \<in> set t. \<not> isMark e)
              \<and> (\<forall>x. res = Returns x \<longrightarrow> \<not> success x))
       \<and> (\<forall>rc ev c polls.
              verifyEvent env ''Burn'' h = Inr (rc, ev)
              \<and> \<not> isBurnProcessed (eventId (args ev)) st
              \<and> awaitConfirmations (getBlockNumber env) (blockNumber rc) 5000 = (Inr c, polls)
              \<longrightarrow>
              Unlocked (destinationAddress (args ev)) (netAmount (amount (args ev)))
                (eventId (args ev)) \<in> set t
              \<and> (\<forall>tx bscHash.
                    submit env (destinationAddress (args ev)) (netAmount (amount (args ev)))
                      (eventId (args ev)) = Returns tx
                    \<and> wait tx = Returns bscHash \<longrightarrow>
                    BurnMarked (eventId (args ev)) \<in> set t
                    \<and> st' = addBurnTxHashes (clock env) (eventId (args ev)) h (Some bscHash)
                              (addProcessedBurn (clock env) (eventId (args ev)) st)
                    \<and> res = Returns (Success (eventId (args ev)) h bscHash
                                      (netAmount (amount (args ev))) (amount (args ev))
                                      (feeAmount (amount (args ev)))
                                      (destinationAddress (args ev)))))"
proof (cases "processWithdrawalByTxHash env h st")
  case (fields res st' t)
  note old = processWithdrawal_order [where env = env and h = h and st = st]
  have o: "(\<forall>dest net i. Unlocked dest net i \<in> set t \<longrightarrow> \<not> isBurnProcessed i st)
       \<and> list_all (\<lambda>e. \<not> isMark e) (beforeSubmission t)
       \<and> (\<forall>i. BurnMarked i \<in> set t \<longrightarrow>
              (\<exists>dest net. Unlocked dest net i \<in> set t) \<and> isBurnProcessed i st'
              \<and> (\<exists>x. res = Returns x \<and> success x))
       \<and> ((\<forall>i. BurnMarked i \<notin> set t) \<longrightarrow> st' = st)"
    using old unfolding fields prod.case .
  note a = o [THEN conjunct1]
    and b = o [THEN conjunct2, THEN conjunct1]
    and c = o [THEN conjunct2, THEN conjunct2, THEN conjunct1]
    and d = o [THEN conjunct2, THEN conjunct2, THEN conjunct2]
  have m: "\<forall>i. BurnMarked i \<in> set t \<longrightarrow>
              (\<exists>rc ev tx bscHash.
                   verifyEvent env ''Burn'' h = Inr (rc, ev) \<and> i = eventId (args ev)
                 \<and> \<not> isBurnProcessed i st
                 \<and> submit env (destinationAddress (args ev)) (netAmount (amount (args ev))) i
                     = Returns tx
                 \<and> wait tx = Returns bscHash
                 \<and> st' = addBurnTxHashes (clock env) i h (Some bscHash)
                           (addProcessedBurn (clock env) i st)
                 \<and> t = beforeSubmission t
                       @ [Unlocked (destinationAddress (args ev))
                            (netAmount (amount (args ev))) i,
                          BurnMarked i, HashesStored i])"
    by (intro allI impI) (rule processWithdrawal_marked [OF fields])
  have f: "\<forall>rc ev.
              verifyEvent env ''Burn'' h = Inr (rc, ev)
              \<and> ((\<exists>msg. submit env (destinationAddress (args ev))
                            (netAmount (amount (args ev))) (eventId (args ev)) = Throws msg)
                 \<or> (\<exists>tx msg. submit env (destinationAddress (args ev))
                            (netAmount (amount (args ev))) (eventId (args ev)) = Returns tx
                          \<and> wait tx = Throws msg)) \<longrightarrow>
              st' = st \<and> (\<forall>e \<in> set t. \<not> isMark e)
              \<and> (\<forall>x. res = Returns x \<longrightarrow> \<not> success x)"
  proof (intro allI impI, elim conjE)
    fix rc and ev :: parsed_log
    assume "verifyEvent env ''Burn'' h = Inr (rc, ev)"
      and "(\<exists>msg. submit env (destinationAddress (args ev))
                            (netAmount (amount (args ev))) (eventId (args ev)) = Throws msg)
                 \<or> (\<exists>tx msg. submit env (destinationAddress (args ev))
                            (netAmount (amount (args ev))) (eventId (args ev)) = Returns tx
                          \<and> wait tx = Throws msg)"
    then show "st' = st \<and> (\<forall>e \<in> set t. \<not> isMark e)
              \<and> (\<forall>x. res = Returns x \<longrightarrow> \<not> success x)"
      by (rule processWithdrawal_failure [OF fields])
  qed
  have s: "\<forall>rc ev c polls.
              verifyEvent env ''Burn'' h = Inr (rc, ev)
              \<and> \<not> isBurnProcessed (eventId (args ev)) st
              \<and> awaitConfirmations (getBlockNumber env) (blockNumber rc) 5000 = (Inr c, polls)
              \<longrightarrow>
              Unlocked (destinationAddress (args ev)) (netAmount (amount (args ev)))
                (eventId (args ev)) \<in> set t
              \<and> (\<forall>tx bscHash.
                    submit env (destinationAddress (args ev)) (netAmount (amount (args ev)))
                      (eventId (args ev)) = Returns tx
                    \<and> wait tx = Returns bscHash \<longrightarrow>
                    BurnMarked (eventId (args ev)) \<in> set t
                    \<and> st' = addBurnTxHashes (clock env) (eventId (args ev)) h (Some bscHash)
                              (addProcessedBurn (clock env) (eventId (args ev)) st)
                    \<and> res = Returns (Success (eventId (args ev)) h bscHash
                                      (netAmount (amount (args ev))) (amount (args ev))
                                      (feeAmount (amount (args ev)))
                                      (destinationAddress (args ev))))"
  proof (intro allI impI, elim conjE)
    fix rc and ev :: parsed_log and c polls
    assume "verifyEvent env ''Burn'' h = Inr (rc, ev)"
      and "\<not> isBurnProcessed (eventId (args ev)) st"
      and "awaitConfirmations (getBlockNumber env) (blockNumber rc) 5000 = (Inr c, polls)"
    then show "Unlocked (destinationAddress (args ev)) (netAmount (amount (args ev)))
                (eventId (args ev)) \<in> set t
              \<and> (\<forall>tx bscHash.
                    submit env (destinationAddress (args ev)) (netAmount (amount (args ev)))
                      (eventId (args ev)) = Returns tx
                    \<and> wait tx = Returns bscHash \<longrightarrow>
                    BurnMarked (eventId (args ev)) \<in> set t
                    \<and> st' = addBurnTxHashes (clock env) (eventId (args ev)) h (Some bscHash)
                              (addProcessedBurn (clock env) (eventId (args ev)) st)
                    \<and> res = Returns (Success (eventId (args ev)) h bscHash
                                      (netAmount (amount (args ev))) (amount (args ev))
                                      (feeAmount (amount (args ev)))
                                      (destinationAddress (args ev))))"
      by (rule processWithdrawal_submits [OF fields])
  qed
  show ?thesis
    unfolding fields prod.case
    by (intro conjI) (rule a b c d m f s)+
qed

lemma handleBscDeposit_effects:
  "case handleBscDeposit env event r of
     (r', t) \<Rightarrow>
       (\<forall>dest net i. Minted dest net i \<in> set t \<longrightarrow> i \<notin> processedDepositsSet r)
       \<and> list_all (\<lambda>e. \<not> isMark e) (beforeSubmission t)
       \<and> (\<forall>i. DepositMarked i \<in> set t \<longrightarrow>
              (\<exists>dest net. Minted dest net i \<in> set t) \<and> i \<in> processedDepositsSet r'
              \<and> isDepositProcessed i (stateManager r'))
       \<and> ((\<forall>i. DepositMarked i \<notin> set t) \<longrightarrow> r' = r)
       \<and> (\<forall>i. DepositMarked i \<in> set t \<longrightarrow>
              (\<exists>rc ev tx ucHash.
                   verifyEvent env ''Deposit'' (JStr (transactionHash event)) = Inr (rc, ev)
                 \<and> i = eventId (eventArgs event) \<and> eventId (args ev) = i
                 \<and> i \<notin> processedDepositsSet r
                 \<and> submit env (destinationAddress (args ev)) (netAmount (amount (args ev))) i
                     = Returns tx
                 \<and> wait tx = Returns ucHash
                 \<and> r' = r\<lparr>processedDepositsSet := insert i (processedDepositsSet r),
                            stateManager :=
                              addDepositTxHashes (clock env) i (JStr (transactionHash event))
                                (Some ucHash)
                                (addProcessedDeposit (clock env) i (stateManager r))\<rparr>
                 \<and> t = beforeSubmission t
                       @ [Minted (destinationAddress (args ev))
                            (netAmount (amount (args ev))) i,
                          DepositMarked i, HashesStored i]))
       \<and> (\<forall>rc ev.
              verifyEvent env ''Deposit'' (JStr (transactionHash event)) = Inr (rc, ev)
              \<and> ((\<exists>msg. submit env (destinationAddress (args ev))
                            (netAmount (amount (args ev))) (eventId (args ev)) = Throws msg)
                 \<or> (\<exists>tx msg. submit env (destinationAddress (args ev))
                            (netAmount (amount (args ev))) (eventId (args ev)) = Returns tx
                          \<and> wait tx = Throws msg)) \<longrightarrow>
              r' = r \<and> (\<forall>e \<in> set t. \<not> isMark e))
       \<and> (\<forall>c polls rc ev.
              eventId (eventArgs event) \<notin> processedDepositsSet r
              \<and> awaitConfirmations (getBlockNumber env) (eventBlock event) 3000 = (Inr c, polls)
              \<and> verifyEvent env ''Deposit'' (JStr (transactionHash event)) = Inr (rc, ev)
              \<and> eventId (args ev) = eventId (eventArgs event)
              \<longrightarrow>
              Minted (destinationAddress (args ev)) (netAmount (amount (args ev)))
                (eventId (args ev)) \<in> set t
              \<and> (\<forall>tx ucHash.
                    submit env (destinationAddress (args ev)) (netAmount (amount (args ev)))
                      (eventId (args ev)) = Returns tx
                    \<and> wait tx = Returns ucHash \<longrightarrow>
                    DepositMarked (eventId (args ev)) \<in> set t
                    \<and> r' = r\<lparr>processedDepositsSet :=
                                 insert (eventId (args ev)) (processedDepositsSet r),
                               stateManager :=
                                 addDepositTxHashes (clock env) (eventId (args ev))
                                   (JStr (transactionHash event)) (Some ucHash)
                                   (addProcessedDeposit (clock env) (eventId (args ev))
                                      (stateManager r))\<rparr>))"
proof (cases "handleBscDeposit env event r")
  case (Pair r' t)
  note old = handleBscDeposit_run [where env = env and event = event and r = r]
  have o: "(\<forall>dest net i. Minted dest net i \<in> set t \<longrightarrow> i \<notin> processedDepositsSet r)
       \<and> list_all (\<lambda>e. \<not> isMark e) (beforeSubmission t)
       \<and> (\<forall>i. DepositMarked i \<in> set t \<longrightarrow>
              (\<exists>dest net. Minted dest net i \<in> set t) \<and> i \<in> processedDepositsSet r'
              \<and> isDepositProcessed i (stateManager r'))
       \<and> ((\<forall>i. DepositMarked i \<notin> set t) \<longrightarrow> r' = r)
       \<and> (\<forall>e \<in> set t. \<not> isLoopEffect e)
       \<and> bscLastBlock r' = bscLastBlock r \<and> ucLastBlock r' = ucLastBlock r
       \<and> isRunning r' = isRunning r \<and> currentBscRpcIndex r' = currentBscRpcIndex r
       \<and> lastBscBlock (stateManager r') = lastBscBlock (stateManager r)
       \<and> lastUcBlock (stateManager r') = lastUcBlock (stateManager r)"
    using old unfolding Pair prod.case .
  note a = o [THEN conjunct1]
    and b = o [THEN conjunct2, THEN conjunct1]
    and c = o [THEN conjunct2, THEN conjunct2, THEN conjunct1]
    and d = o [THEN conjunct2, THEN conjunct2, THEN conjunct2, THEN conjunct1]
  have m: "(\<forall>i. DepositMarked i \<in> set t \<longrightarrow>
              (\<exists>rc ev tx ucHash.
                   verifyEvent env ''Deposit'' (JStr (transactionHash event)) = Inr (rc, ev)
                 \<and> i = eventId (eventArgs event) \<and> eventId (args ev) = i
                 \<and> i \<notin> processedDepositsSet r
                 \<and> submit env (destinationAddress (args ev)) (netAmount (amount (args ev))) i
                     = Returns tx
                 \<and> wait tx = Returns ucHash
                 \<and> r' = r\<lparr>processedDepositsSet := insert i (processedDepositsSet r),
                            stateManager :=
                              addDepositTxHashes (clock env) i (JStr (transactionHash event))
                                (Some ucHash)
                                (addProcessedDeposit (clock env) i (stateManager r))\<rparr>
                 \<and> t = beforeSubmission t
                       @ [Minted (destinationAddress (args ev))
                            (netAmount (amount (args ev))) i,
                          DepositMarked i, HashesStored i]))"
    by (intro allI impI) (rule handleBscDeposit_marked [OF Pair])
  have f: "(\<forall>rc ev.
              verifyEvent env ''Deposit'' (JStr (transactionHash event)) = Inr (rc, ev)
              \<and> ((\<exists>msg. submit env (destinationAddress (args ev))
                            (netAmount (amount (args ev))) (eventId (args ev)) = Throws msg)
                 \<or> (\<exists>tx msg. submit env (destinationAddress (args ev))
                            (netAmount (amount (args ev))) (eventId (args ev)) = Returns tx
                          \<and> wait tx = Throws msg)) \<longrightarrow>
              r' = r \<and> (\<forall>e \<in> set t. \<not> isMark e))"
  proof (intro allI impI, elim conjE)
    fix rc and ev :: parsed_log
    assume "verifyEvent env ''Deposit'' (JStr (transactionHash event)) = Inr (rc, ev)"
      and "((\<exists>msg. submit env (destinationAddress (args ev))
                            (netAmount (amount (args ev))) (eventId (args ev)) = Throws msg)
                 \<or> (\<exists>tx msg. submit env (destinationAddress (args ev))
                            (netAmount (amount (args ev))) (eventId (args ev)) = Returns tx
                          \<and> wait tx = Throws msg))"
    then show "r' = r \<and> (\<forall>e \<in> set t. \<not> isMark e)"
      by (rule handleBscDeposit_failure [OF Pair])
  qed
  have s: "(\<forall>c polls rc ev.
              eventId (eventArgs event) \<notin> processedDepositsSet r
              \<and> awaitConfirmations (getBlockNumber env) (eventBlock event) 3000 = (Inr c, polls)
              \<and> verifyEvent env ''Deposit'' (JStr (transactionHash event)) = Inr (rc, ev)
              \<and> eventId (args ev) = eventId (eventArgs event)
              \<longrightarrow>
              Minted (destinationAddress (args ev)) (netAmount (amount (args ev)))
                (eventId (args ev)) \<in> set t
              \<and> (\<forall>tx ucHash.
                    submit env (destinationAddress (args ev)) (netAmount (amount (args ev)))
                      (eventId (args ev)) = Returns tx
                    \<and> wait tx = Returns ucHash \<longrightarrow>
                    DepositMarked (eventId (args ev)) \<in> set t
                    \<and> r' = r\<lparr>processedDepositsSet :=
                                 insert (eventId (args ev)) (processedDepositsSet r),
                               stateManager :=
                                 addDepositTxHashes (clock env) (eventId (args ev))
                                   (JStr (transactionHash event)) (Some ucHash)
                                   (addProcessedDeposit (clock env) (eventId (args ev))
                                      (stateManager r))\<rparr>))"
  proof (intro allI impI, elim conjE)
    fix c polls rc and ev :: parsed_log
    assume "eventId (eventArgs event) \<notin> processedDepositsSet r"
      and "awaitConfirmations (getBlockNumber env) (eventBlock event) 3000 = (Inr c, polls)"
      and "verifyEvent env ''Deposit'' (JStr (transactionHash event)) = Inr (rc, ev)"
      and "eventId (args ev) = eventId (eventArgs event)"
    then show "Minted (destinationAddress (args ev)) (netAmount (amount (args ev)))
                (eventId (args ev)) \<in> set t
              \<and> (\<forall>tx ucHash.
                    submit env (destinationAddress (args ev)) (netAmount (amount (args ev)))
                      (eventId (args ev)) = Returns tx
                    \<and> wait tx = Returns ucHash \<longrightarrow>
                    DepositMarked (eventId (args ev)) \<in> set t
                    \<and> r' = r\<lparr>processedDepositsSet :=
                                 insert (eventId (args ev)) (processedDepositsSet r),
                               stateManager :=
                                 addDepositTxHashes (clock env) (eventId (args ev))
                                   (JStr (transactionHash event)) (Some ucHash)
                                   (addProcessedDeposit (clock env) (eventId (args ev))
                                      (stateManager r))\<rparr>)"
      by (rule handleBscDeposit_submits [OF Pair])
  qed
  show ?thesis
    unfolding Pair prod.case
    by (intro conjI) (rule a b c d m f s)+
qed

lemma handleUcBurn_effects:
  "case handleUcBurn env event r of
     (r', t) \<Rightarrow>
       (\<forall>dest net i. Unlocked dest net i \<in> set t \<longrightarrow> i \<notin> processedBurnsSet r)
       \<and> list_all (\<lambda>e. \<not> isMark e) (beforeSubmission t)
       \<and> (\<forall>i. BurnMarked i \<in> set t \<longrightarrow>
              (\<exists>dest net. Unlocked dest net i \<in> set t) \<and> i \<in> processedBurnsSet r'
              \<and> isBurnProcessed i (stateManager r'))
       \<and> ((\<forall>i. BurnMarked i \<notin> set t) \<longrightarrow> r' = r)
       \<and> (\<forall>i. BurnMarked i \<in> set t \<longrightarrow>
              (\<exists>rc tx bscHash.
                   verifyReceipt env (JStr (transactionHash event)) = Inr rc
                 \<and> i = eventId (eventArgs event)
                 \<and> i \<notin> processedBurnsSet r
                 \<and> submit env (destinationAddress (eventArgs event))
                     (netAmount (amount (eventArgs event))) i = Returns tx
                 \<and> wait tx = Returns bscHash
                 \<and> r' = r\<lparr>processedBurnsSet := insert i (processedBurnsSet r),
                            stateManager :=
                              addBurnTxHashes (clock env) i (JStr (transactionHash event))
                                (Some bscHash)
                                (addProcessedBurn (clock env) i (stateManager r))\<rparr>
                 \<and> t = beforeSubmission t
                       @ [Unlocked (destinationAddress (eventArgs event))
                            (netAmount (amount (eventArgs event))) i,
                          BurnMarked i, HashesStored i]))
       \<and> (((\<exists>msg. submit env (destinationAddress (eventArgs event))
                    (netAmount (amount (eventArgs event))) (eventId (eventArgs event))
                  = Throws msg)
            \<or> (\<exists>tx msg. submit env (destinationAddress (eventArgs event))
                    (netAmount (amount (eventArgs event))) (eventId (eventArgs event))
                  = Returns tx \<and> wait tx = Throws msg)) \<longrightarrow>
              r' = r \<and> (\<forall>e \<in> set t. \<not> isMark e))
       \<and> (\<forall>c polls rc.
              eventId (eventArgs event) \<notin> processedBurnsSet r
              \<and> awaitConfirmations (getBlockNumber env) (eventBlock event) 5000 = (Inr c, polls)
              \<and> verifyReceipt env (JStr (transactionHash event)) = Inr rc
              \<longrightarrow>
              Unlocked (destinationAddress (eventArgs event))
           (netAmount (amount (eventArgs event))) (eventId (eventArgs event)) \<in> set t
         \<and> (\<forall>tx bscHash.
               submit env (destinationAddress (eventArgs event))
                 (netAmount (amount (eventArgs event))) (eventId (eventArgs event))
                 = Returns tx
               \<and> wait tx = Returns bscHash \<longrightarrow>
               BurnMarked (eventId (eventArgs event)) \<in> set t
               \<and> r' = r\<lparr>processedBurnsSet :=
                            insert (eventId (eventArgs event)) (processedBurnsSet r),
                          stateManager :=
                            addBurnTxHashes (clock env) (eventId (eventArgs event))
                              (JStr (transactionHash event)) (Some bscHash)
                              (addProcessedBurn (clock env) (eventId (eventArgs event))
                                 (stateManager r))\<rparr>))"
proof (cases "handleUcBurn env event r")
  case (Pair r' t)
  note old = handleUcBurn_run [where env = env and event = event and r = r]
  have o: "(\<forall>dest net i. Unlocked dest net i \<in> set t \<longrightarrow> i \<notin> processedBurnsSet r)
       \<and> list_all (\<lambda>e. \<not> isMark e) (beforeSubmission t)
       \<and> (\<forall>i. BurnMarked i \<in> set t \<longrightarrow>
              (\<exists>dest net. Unlocked dest net i \<in> set t) \<and> i \<in> processedBurnsSet r'
              \<and> isBurnProcessed i (stateManager r'))
       \<and> ((\<forall>i. BurnMarked i \<notin> set t) \<longrightarrow> r' = r)
       \<and> (\<forall>e \<in> set t. \<not> isLoopEffect e)
       \<and> bscLastBlock r' = bscLastBlock r \<and> ucLastBlock r' = ucLastBlock r
       \<and> isRunning r' = isRunning r \<and> currentBscRpcIndex r' = currentBscRpcIndex r
       \<and> lastBscBlock (stateManager r') = lastBscBlock (stateManager r)
       \<and> lastUcBlock (stateManager r') = lastUcBlock (stateManager r)"
    using old unfolding Pair prod.case .
  note a = o [THEN conjunct1]
    and b = o [THEN conjunct2, THEN conjunct1]
    and c = o [THEN conjunct2, THEN conjunct2, THEN conjunct1]
    and d = o [THEN conjunct2, THEN conjunct2, THEN conjunct2, THEN conjunct1]
  have m: "(\<forall>i. BurnMarked i \<in> set t \<longrightarrow>
              (\<exists>rc tx bscHash.
                   verifyReceipt env (JStr (transactionHash event)) = Inr rc
                 \<and> i = eventId (eventArgs event)
                 \<and> i \<notin> processedBurnsSet r
                 \<and> submit env (destinationAddress (eventArgs event))
                     (netAmount (amount (eventArgs event))) i = Returns tx
                 \<and> wait tx = Returns bscHash
                 \<and> r' = r\<lparr>processedBurnsSet := insert i (processedBurnsSet r),
                            stateManager :=
                              addBurnTxHashes (clock env) i (JStr (transactionHash event))
                                (Some bscHash)
                                (addProcessedBurn (clock env) i (stateManager r))\<rparr>
                 \<and> t = beforeSubmission t
                       @ [Unlocked (destinationAddress (eventArgs event))
                            (netAmount (amount (eventArgs event))) i,
                          BurnMarked i, HashesStored i]))"
    by (intro allI impI) (rule handleUcBurn_marked [OF Pair])
  have f: "(((\<exists>msg. submit env (destinationAddress (eventArgs event))
                    (netAmount (amount (eventArgs event))) (eventId (eventArgs event))
                  = Throws msg)
            \<or> (\<exists>tx msg. submit env (destinationAddress (eventArgs event))
                    (netAmount (amount (eventArgs event))) (eventId (eventArgs event))
                  = Returns tx \<and> wait tx = Throws msg)) \<longrightarrow>
              r' = r \<and> (\<forall>e \<in> set t. \<not> isMark e))"
  proof (intro impI)
    assume "((\<exists>msg. submit env (destinationAddress (eventArgs event))
                    (netAmount (amount (eventArgs event))) (eventId (eventArgs event))
                  = Throws msg)
            \<or> (\<exists>tx msg. submit env (destinationAddress (eventArgs event))
                    (netAmount (amount (eventArgs event))) (eventId (eventArgs event))
                  = Returns tx \<and> wait tx = Throws msg))"
    then show "r' = r \<and> (\<forall>e \<in> set t. \<not> isMark e)"
      by (rule handleUcBurn_failure [OF Pair])
  qed
  have s: "(\<forall>c polls rc.
              eventId (eventArgs event) \<notin> processedBurnsSet r
              \<and> awaitConfirmations (getBlockNumber env) (eventBlock event) 5000 = (Inr c, polls)
              \<and> verifyReceipt env (JStr (transactionHash event)) = Inr rc
              \<longrightarrow>
              Unlocked (destinationAddress (eventArgs event))
           (netAmount (amount (eventArgs event))) (eventId (eventArgs event)) \<in> set t
         \<and> (\<forall>tx bscHash.
               submit env (destinationAddress (eventArgs event))
                 (netAmount (amount (eventArgs event))) (eventId (eventArgs event))
                 = Returns tx
               \<and> wait tx = Returns bscHash \<longrightarrow>
               BurnMarked (eventId (eventArgs event)) \<in> set t
               \<and> r' = r\<lparr>processedBurnsSet :=
                            insert (eventId (eventArgs event)) (processedBurnsSet r),
                          stateManager :=
                            addBurnTxHashes (clock env) (eventId (eventArgs event))
                              (JStr (transactionHash event)) (Some bscHash)
                              (addProcessedBurn (clock env) (eventId (eventArgs event))
                                 (stateManager r))\<rparr>))"
  proof (intro allI impI, elim conjE)
    fix c polls rc
    assume "eventId (eventArgs event) \<notin> processedBurnsSet r"
      and "awaitConfirmations (getBlockNumber env) (eventBlock event) 5000 = (Inr c, polls)"
      and "verifyReceipt env (JStr (transactionHash event)) = Inr rc"
    then show "Unlocked (destinationAddress (eventArgs event))
           (netAmount (amount (eventArgs event))) (eventId (eventArgs event)) \<in> set t
         \<and> (\<forall>tx bscHash.
               submit env (destinationAddress (eventArgs event))
                 (netAmount (amount (eventArgs event))) (eventId (eventArgs event))
                 = Returns tx
               \<and> wait tx = Returns bscHash \<longrightarrow>
               BurnMarked (eventId (eventArgs event)) \<in> set t
               \<and> r' = r\<lparr>processedBurnsSet :=
                            insert (eventId (eventArgs event)) (processedBurnsSet r),
                          stateManager :=
                            addBurnTxHashes (clock env) (eventId (eventArgs event))
                              (JStr (transactionHash event)) (Some bscHash)
                              (addProcessedBurn (clock env) (eventId (eventArgs event))
                                 (stateManager r))\<rparr>)"
      by (rule handleUcBurn_submits [OF Pair])
  qed
  show ?thesis
    unfolding Pair prod.case
    by (intro conjI) (rule a b c d m f s)+
qed

text \<open>
  C1, as the code has it. Each of the four pipelines checks the processed set once, on
  the state it is started with, and makes the destination call only for an identifier
  that check does not find. The identifier is marked exactly when the call was
  submitted and its receipt awaited with success, and after both: a mark in the run
  means that \<^verbatim>\<open>submit\<close> returned a transaction and \<^verbatim>\<open>wait\<close> its hash, that the run
  ends with the submission, the mark and the stored hashes in this order, and that the
  final state is the initial one with the identifier marked and the hashes stored. A run
  in which the submission or the wait throws marks nothing and leaves the state as it
  was, as does every run without a mark. A run that verifies the event, does not find
  it processed and gets through the confirmation wait makes the call, and marks the
  identifier when the call and the wait succeed.
\<close>

theorem mark_follows_submission:
  "(case processDepositByTxHash env h st of
     (res, st', t) \<Rightarrow>
       (\<forall>dest net i. Minted dest net i \<in> set t \<longrightarrow> \<not> isDepositProcessed i st)
       \<and> list_all (\<lambda>e. \<not> isMark e) (beforeSubmission t)
       \<and> (\<forall>i. DepositMarked i \<in> set t \<longrightarrow>
              (\<exists>dest net. Minted dest net i \<in> set t) \<and> isDepositProcessed i st'
              \<and> (\<exists>x. res = Returns x \<and> success x))
       \<and> ((\<forall>i. DepositMarked i \<notin> set t) \<longrightarrow> st' = st)
       \<and> (\<forall>i. DepositMarked i \<in> set t \<longrightarrow>
              (\<exists>rc ev tx ucHash.
                   verifyEvent env ''Deposit'' h = Inr (rc, ev) \<and> i = eventId (args ev)
                 \<and> \<not> isDepositProcessed i st
                 \<and> submit env (destinationAddress (args ev)) (netAmount (amount (args ev))) i
                     = Returns tx
                 \<and> wait tx = Returns ucHash
                 \<and> st' = addDepositTxHashes (clock env) i h (Some ucHash)
                           (addProcessedDeposit (clock env) i st)
                 \<and> t = beforeSubmission t
                       @ [Minted (destinationAddress (args ev))
                            (netAmount (amount (args ev))) i,
                          DepositMarked i, HashesStored i]))
       \<and> (\<forall>rc ev.
              verifyEvent env ''Deposit'' h = Inr (rc, ev)
              \<and> ((\<exists>msg. submit env (destinationAddress (args ev))
                            (netAmount (amount (args ev))) (eventId (args ev)) = Throws msg)
                 \<or> (\<exists>tx msg. submit env (destinationAddress (args ev))
                            (netAmount (amount (args ev))) (eventId (args ev)) = Returns tx
                          \<and> wait tx = Throws msg)) \<longrightarrow>
              st' = st \<and> (\<forall>e \<in> set t. \<not> isMark e)
              \<and> (\<forall>x. res = Returns x \<longrightarrow> \<not> success x))
       \<and> (\<forall>rc ev c polls.
              verifyEvent env ''Deposit'' h = Inr (rc, ev)
              \<and> \<not> isDepositProcessed (eventId (args ev)) st
              \<and> awaitConfirmations (getBlockNumber env) (blockNumber rc) 3000 = (Inr c, polls)
              \<longrightarrow>
              Minted (destinationAddress (args ev)) (netAmount (amount (args ev)))
                (eventId (args ev)) \<in> set t
              \<and> (\<forall>tx ucHash.
                    submit env (destinationAddress (args ev)) (netAmount (amount (args ev)))
                      (eventId (args ev)) = Returns tx
                    \<and> wait tx = Returns ucHash \<longrightarrow>
                    DepositMarked (eventId (args ev)) \<in> set t
                    \<and> st' = addDepositTxHashes (clock env) (eventId (args ev)) h (Some ucHash)
                              (addProcessedDeposit (clock env) (eventId (args ev)) st)
                    \<and> res = Returns (Success (eventId (args ev)) h ucHash
                                      (netAmount (amount (args ev))) (amount (args ev))
                                      (feeAmount (amount (args ev)))
                                      (destinationAddress (args ev))))))
   \<and> (case processWithdrawalByTxHash env h st of
     (res, st', t) \<Rightarrow>
       (\<forall>dest net i. Unlocked dest net i \<in> set t \<longrightarrow> \<not> isBurnProcessed i st)
       \<and> list_all (\<lambda>e. \<not> isMark e) (beforeSubmission t)
       \<and> (\<forall>i. BurnMarked i \<in> set t \<longrightarrow>
              (\<exists>dest net. Unlocked dest net i \<in> set t) \<and> isBurnProcessed i st'
              \<and> (\<exists>x. res = Returns x \<and> success x))
       \<and> ((\<forall>i. BurnMarked i \<notin> set t) \<longrightarrow> st' = st)
       \<and> (\<forall>i. BurnMarked i \<in> set t \<longrightarrow>
              (\<exists>rc ev tx bscHash.
                   verifyEvent env ''Burn'' h = Inr (rc, ev) \<and> i = eventId (args ev)
                 \<and> \<not> isBurnProcessed i st
                 \<and> submit env (destinationAddress (args ev)) (netAmount (amount (args ev))) i
                     = Returns tx
                 \<and> wait tx = Returns bscHash
                 \<and> st' = addBurnTxHashes (clock env) i h (Some bscHash)
                           (addProcessedBurn (clock env) i st)
                 \<and> t = beforeSubmission t
                       @ [Unlocked (destinationAddress (args ev))
                            (netAmount (amount (args ev))) i,
                          BurnMarked i, HashesStored i]))
       \<and> (\<forall>rc ev.
              verifyEvent env ''Burn'' h = Inr (rc, ev)
              \<and> ((\<exists>msg. submit env (destinationAddress (args ev))
                            (netAmount (amount (args ev))) (eventId (args ev)) = Throws msg)
                 \<or> (\<exists>tx msg. submit env (destinationAddress (args ev))
                            (netAmount (amount (args ev))) (eventId (args ev)) = Returns tx
                          \<and> wait tx = Throws msg)) \<longrightarrow>
              st' = st \<and> (\<forall>e \<in> set t. \<not> isMark e)
              \<and> (\<forall>x. res = Returns x \<longrightarrow> \<not> success x))
       \<and> (\<forall>rc ev c polls.
              verifyEvent env ''Burn'' h = Inr (rc, ev)
              \<and> \<not> isBurnProcessed (eventId (args ev)) st
              \<and> awaitConfirmations (getBlockNumber env) (blockNumber rc) 5000 = (Inr c, polls)
              \<longrightarrow>
              Unlocked (destinationAddress (args ev)) (netAmount (amount (args ev)))
                (eventId (args ev)) \<in> set t
              \<and> (\<forall>tx bscHash.
                    submit env (destinationAddress (args ev)) (netAmount (amount (args ev)))
                      (eventId (args ev)) = Returns tx
                    \<and> wait tx = Returns bscHash \<longrightarrow>
                    BurnMarked (eventId (args ev)) \<in> set t
                    \<and> st' = addBurnTxHashes (clock env) (eventId (args ev)) h (Some bscHash)
                              (addProcessedBurn (clock env) (eventId (args ev)) st)
                    \<and> res = Returns (Success (eventId (args ev)) h bscHash
                                      (netAmount (amount (args ev))) (amount (args ev))
                                      (feeAmount (amount (args ev)))
                                      (destinationAddress (args ev))))))
   \<and> (case handleBscDeposit env event r of
     (r', t) \<Rightarrow>
       (\<forall>dest net i. Minted dest net i \<in> set t \<longrightarrow> i \<notin> processedDepositsSet r)
       \<and> list_all (\<lambda>e. \<not> isMark e) (beforeSubmission t)
       \<and> (\<forall>i. DepositMarked i \<in> set t \<longrightarrow>
              (\<exists>dest net. Minted dest net i \<in> set t) \<and> i \<in> processedDepositsSet r'
              \<and> isDepositProcessed i (stateManager r'))
       \<and> ((\<forall>i. DepositMarked i \<notin> set t) \<longrightarrow> r' = r)
       \<and> (\<forall>i. DepositMarked i \<in> set t \<longrightarrow>
              (\<exists>rc ev tx ucHash.
                   verifyEvent env ''Deposit'' (JStr (transactionHash event)) = Inr (rc, ev)
                 \<and> i = eventId (eventArgs event) \<and> eventId (args ev) = i
                 \<and> i \<notin> processedDepositsSet r
                 \<and> submit env (destinationAddress (args ev)) (netAmount (amount (args ev))) i
                     = Returns tx
                 \<and> wait tx = Returns ucHash
                 \<and> r' = r\<lparr>processedDepositsSet := insert i (processedDepositsSet r),
                            stateManager :=
                              addDepositTxHashes (clock env) i (JStr (transactionHash event))
                                (Some ucHash)
                                (addProcessedDeposit (clock env) i (stateManager r))\<rparr>
                 \<and> t = beforeSubmission t
                       @ [Minted (destinationAddress (args ev))
                            (netAmount (amount (args ev))) i,
                          DepositMarked i, HashesStored i]))
       \<and> (\<forall>rc ev.
              verifyEvent env ''Deposit'' (JStr (transactionHash event)) = Inr (rc, ev)
              \<and> ((\<exists>msg. submit env (destinationAddress (args ev))
                            (netAmount (amount (args ev))) (eventId (args ev)) = Throws msg)
                 \<or> (\<exists>tx msg. submit env (destinationAddress (args ev))
                            (netAmount (amount (args ev))) (eventId (args ev)) = Returns tx
                          \<and> wait tx = Throws msg)) \<longrightarrow>
              r' = r \<and> (\<forall>e \<in> set t. \<not> isMark e))
       \<and> (\<forall>c polls rc ev.
              eventId (eventArgs event) \<notin> processedDepositsSet r
              \<and> awaitConfirmations (getBlockNumber env) (eventBlock event) 3000 = (Inr c, polls)
              \<and> verifyEvent env ''Deposit'' (JStr (transactionHash event)) = Inr (rc, ev)
              \<and> eventId (args ev) = eventId (eventArgs event)
              \<longrightarrow>
              Minted (destinationAddress (args ev)) (netAmount (amount (args ev)))
                (eventId (args ev)) \<in> set t
              \<and> (\<forall>tx ucHash.
                    submit env (destinationAddress (args ev)) (netAmount (amount (args ev)))
                      (eventId (args ev)) = Returns tx
                    \<and> wait tx = Returns ucHash \<longrightarrow>
                    DepositMarked (eventId (args ev)) \<in> set t
                    \<and> r' = r\<lparr>processedDepositsSet :=
                                 insert (eventId (args ev)) (processedDepositsSet r),
                               stateManager :=
                                 addDepositTxHashes (clock env) (eventId (args ev))
                                   (JStr (transactionHash event)) (Some ucHash)
                                   (addProcessedDeposit (clock env) (eventId (args ev))
                                      (stateManager r))\<rparr>)))
   \<and> (case handleUcBurn env event r of
     (r', t) \<Rightarrow>
       (\<forall>dest net i. Unlocked dest net i \<in> set t \<longrightarrow> i \<notin> processedBurnsSet r)
       \<and> list_all (\<lambda>e. \<not> isMark e) (beforeSubmission t)
       \<and> (\<forall>i. BurnMarked i \<in> set t \<longrightarrow>
              (\<exists>dest net. Unlocked dest net i \<in> set t) \<and> i \<in> processedBurnsSet r'
              \<and> isBurnProcessed i (stateManager r'))
       \<and> ((\<forall>i. BurnMarked i \<notin> set t) \<longrightarrow> r' = r)
       \<and> (\<forall>i. BurnMarked i \<in> set t \<longrightarrow>
              (\<exists>rc tx bscHash.
                   verifyReceipt env (JStr (transactionHash event)) = Inr rc
                 \<and> i = eventId (eventArgs event)
                 \<and> i \<notin> processedBurnsSet r
                 \<and> submit env (destinationAddress (eventArgs event))
                     (netAmount (amount (eventArgs event))) i = Returns tx
                 \<and> wait tx = Returns bscHash
                 \<and> r' = r\<lparr>processedBurnsSet := insert i (processedBurnsSet r),
                            stateManager :=
                              addBurnTxHashes (clock env) i (JStr (transactionHash event))
                                (Some bscHash)
                                (addProcessedBurn (clock env) i (stateManager r))\<rparr>
                 \<and> t = beforeSubmission t
                       @ [Unlocked (destinationAddress (eventArgs event))
                            (netAmount (amount (eventArgs event))) i,
                          BurnMarked i, HashesStored i]))
       \<and> (((\<exists>msg. submit env (destinationAddress (eventArgs event))
                    (netAmount (amount (eventArgs event))) (eventId (eventArgs event))
                  = Throws msg)
            \<or> (\<exists>tx msg. submit env (destinationAddress (eventArgs event))
                    (netAmount (amount (eventArgs event))) (eventId (eventArgs event))
                  = Returns tx \<and> wait tx = Throws msg)) \<longrightarrow>
              r' = r \<and> (\<forall>e \<in> set t. \<not> isMark e))
       \<and> (\<forall>c polls rc.
              eventId (eventArgs event) \<notin> processedBurnsSet r
              \<and> awaitConfirmations (getBlockNumber env) (eventBlock event) 5000 = (Inr c, polls)
              \<and> verifyReceipt env (JStr (transactionHash event)) = Inr rc
              \<longrightarrow>
              Unlocked (destinationAddress (eventArgs event))
           (netAmount (amount (eventArgs event))) (eventId (eventArgs event)) \<in> set t
         \<and> (\<forall>tx bscHash.
               submit env (destinationAddress (eventArgs event))
                 (netAmount (amount (eventArgs event))) (eventId (eventArgs event))
                 = Returns tx
               \<and> wait tx = Returns bscHash \<longrightarrow>
               BurnMarked (eventId (eventArgs event)) \<in> set t
               \<and> r' = r\<lparr>processedBurnsSet :=
                            insert (eventId (eventArgs event)) (processedBurnsSet r),
                          stateManager :=
                            addBurnTxHashes (clock env) (eventId (eventArgs event))
                              (JStr (transactionHash event)) (Some bscHash)
                              (addProcessedBurn (clock env) (eventId (eventArgs event))
                                 (stateManager r))\<rparr>)))"
  by (intro conjI)
     (rule processDeposit_effects processWithdrawal_effects handleBscDeposit_effects
           handleUcBurn_effects)+

lemma sample_deposit_run:
  "processDepositByTxHash sampleEnv (JStr ''0xtx1'') emptyState
   = (Returns (Success ''0xd1'' (JStr ''0xtx1'') ''0xdest1'' 99000000 100000000 1000000
                ''0xrecipient''),
      emptyState\<lparr>processedDeposits := [''0xd1''],
                 transactionHashes :=
                   Some [(''0xd1'',
                          \<lparr>txType = deposit, sourceTxHash = JStr ''0xtx1'',
                           destTxHash = Some ''0xdest1'', sourceChain = ''BSC'',
                           destChain = ''UC'', timestamp = 1000\<rparr>)],
                 lastSaved := Some 1000\<rparr>,
      [ReceiptFetched (JStr ''0xtx1''), HeadPolled 110,
       Minted ''0xrecipient'' 99000000 ''0xd1'', DepositMarked ''0xd1'',
       HashesStored ''0xd1''])"
  by code_simp

lemma processDeposit_success:
  assumes "processDepositByTxHash env h st = (Returns (Success i s d n orig f rc), st', t)"
  shows "\<exists>r ev. verifyEvent env ''Deposit'' h = Inr (r, ev)
           \<and> i = eventId (args ev) \<and> orig = amount (args ev)
           \<and> rc = destinationAddress (args ev) \<and> n = netAmount orig \<and> f = feeAmount orig
           \<and> s = h \<and> Minted rc n i \<in> set t \<and> DepositMarked i \<in> set t"
proof (cases "verifyEvent env ''Deposit'' h")
  case (Inl err)
  with assms show ?thesis by (simp add: processDeposit_failed depositCatch_def)
next
  case (Inr p)
  obtain r ev where p: "p = (r, ev)" by (cases p)
  note v = Inr [unfolded p]
  show ?thesis
  proof (cases "isDepositProcessed (eventId (args ev)) st")
    case True
    with v assms show ?thesis by (simp add: processDeposit_already)
  next
    case False
    obtain w polls where w: "awaitConfirmations (getBlockNumber env) (blockNumber r) 3000 = (w, polls)"
      by (cases "awaitConfirmations (getBlockNumber env) (blockNumber r) 3000")
    show ?thesis
    proof (cases w)
      case (Inl msg)
      with v False w assms show ?thesis
        by (simp add: processDeposit_unconfirmed depositCatch_def)
    next
      case c: (Inr c)
      from assms processDeposit_submitted [OF v False w [unfolded c]] v
      show ?thesis
        by (auto simp: depositCatch_def split: rpc.splits)
    qed
  qed
qed

lemma processWithdrawal_success:
  assumes "processWithdrawalByTxHash env h st = (Returns (Success i s d n orig f rc), st', t)"
  shows "\<exists>r ev. verifyEvent env ''Burn'' h = Inr (r, ev)
           \<and> i = eventId (args ev) \<and> orig = amount (args ev)
           \<and> rc = destinationAddress (args ev) \<and> n = netAmount orig \<and> f = feeAmount orig
           \<and> s = h \<and> Unlocked rc n i \<in> set t \<and> BurnMarked i \<in> set t"
proof (cases "verifyEvent env ''Burn'' h")
  case (Inl err)
  with assms show ?thesis by (simp add: processWithdrawal_failed withdrawalCatch_def)
next
  case (Inr p)
  obtain r ev where p: "p = (r, ev)" by (cases p)
  note v = Inr [unfolded p]
  show ?thesis
  proof (cases "isBurnProcessed (eventId (args ev)) st")
    case True
    with v assms show ?thesis by (simp add: processWithdrawal_already)
  next
    case False
    obtain w polls where w: "awaitConfirmations (getBlockNumber env) (blockNumber r) 5000 = (w, polls)"
      by (cases "awaitConfirmations (getBlockNumber env) (blockNumber r) 5000")
    show ?thesis
    proof (cases w)
      case (Inl msg)
      with v False w assms show ?thesis
        by (simp add: processWithdrawal_unconfirmed withdrawalCatch_def)
    next
      case c: (Inr c)
      from assms processWithdrawal_submitted [OF v False w [unfolded c]] v
      show ?thesis
        by (auto simp: withdrawalCatch_def split: rpc.splits)
    qed
  qed
qed

text \<open>
  C6. The verification of a source transaction is the algorithm of the specification:
  the receipt is fetched; its absence and a status other than success are failures; every
  log is decoded and the undecodable ones are dropped; the first decoded log with the
  expected name is selected, and finding none is a failure. A verified event was decoded
  from a log of that receipt, the pipelines stop without any other call or state change
  when the verification fails, and what a successful run reports and submits are the
  fields of that event.
\<close>

theorem verification_follows_algorithm:
  "verifyEvent env evName h = verifySpec env evName h
   \<and> (\<forall>r ev. verifyEvent env evName h = Inr (r, ev) \<longrightarrow>
          getTransactionReceipt env h = Returns (Some r) \<and> status r = 1 \<and> name ev = evName
          \<and> (\<exists>l \<in> set (logs r). parseLog env l = Some ev))
   \<and> (getTransactionReceipt env' h = getTransactionReceipt env h \<and> parseLog env' = parseLog env
        \<longrightarrow> verifyEvent env' evName h = verifyEvent env evName h)
   \<and> (\<forall>err. verifyEvent env ''Deposit'' h = Inl err \<longrightarrow>
          processDepositByTxHash env h st
            = (depositCatch (errorMessage ''BSC'' ''Deposit'' err), st, [ReceiptFetched h]))
   \<and> (\<forall>err. verifyEvent env ''Burn'' h = Inl err \<longrightarrow>
          processWithdrawalByTxHash env h st
            = (withdrawalCatch (errorMessage ''UC'' ''Burn'' err), st, [ReceiptFetched h]))
   \<and> (\<forall>i s d n orig f rc st' t.
          processDepositByTxHash env h st = (Returns (Success i s d n orig f rc), st', t) \<longrightarrow>
          (\<exists>r ev. verifyEvent env ''Deposit'' h = Inr (r, ev) \<and> i = eventId (args ev)
                 \<and> orig = amount (args ev) \<and> rc = destinationAddress (args ev)
                 \<and> Minted rc (netAmount orig) i \<in> set t))
   \<and> (\<forall>i s d n orig f rc st' t.
          processWithdrawalByTxHash env h st = (Returns (Success i s d n orig f rc), st', t) \<longrightarrow>
          (\<exists>r ev. verifyEvent env ''Burn'' h = Inr (r, ev) \<and> i = eventId (args ev)
                 \<and> orig = amount (args ev) \<and> rc = destinationAddress (args ev)
                 \<and> Unlocked rc (netAmount orig) i \<in> set t))"
proof (intro conjI allI impI)
  show "verifyEvent env evName h = verifySpec env evName h"
    by (rule verifyEvent_spec)
next
  fix r ev
  assume "verifyEvent env evName h = Inr (r, ev)"
  from verifyEvent_Inr [OF this]
  show "getTransactionReceipt env h = Returns (Some r)" "status r = 1" "name ev = evName"
    "\<exists>l \<in> set (logs r). parseLog env l = Some ev"
    by simp_all
next
  assume "getTransactionReceipt env' h = getTransactionReceipt env h \<and> parseLog env' = parseLog env"
  then have "getTransactionReceipt env' h = getTransactionReceipt env h"
    and "parseLog env' = parseLog env"
    by simp_all
  then show "verifyEvent env' evName h = verifyEvent env evName h"
    by (simp add: verifyEvent_def verifyReceipt_def cong del: sum.case_cong_weak)
next
  fix err
  assume "verifyEvent env ''Deposit'' h = Inl err"
  then show "processDepositByTxHash env h st
      = (depositCatch (errorMessage ''BSC'' ''Deposit'' err), st, [ReceiptFetched h])"
    by (rule processDeposit_failed)
next
  fix err
  assume "verifyEvent env ''Burn'' h = Inl err"
  then show "processWithdrawalByTxHash env h st
      = (withdrawalCatch (errorMessage ''UC'' ''Burn'' err), st, [ReceiptFetched h])"
    by (rule processWithdrawal_failed)
next
  fix i s d n orig f rc st' t
  assume "processDepositByTxHash env h st = (Returns (Success i s d n orig f rc), st', t)"
  from processDeposit_success [OF this]
  show "\<exists>r ev. verifyEvent env ''Deposit'' h = Inr (r, ev) \<and> i = eventId (args ev)
                 \<and> orig = amount (args ev) \<and> rc = destinationAddress (args ev)
                 \<and> Minted rc (netAmount orig) i \<in> set t"
    by auto
next
  fix i s d n orig f rc st' t
  assume "processWithdrawalByTxHash env h st = (Returns (Success i s d n orig f rc), st', t)"
  from processWithdrawal_success [OF this]
  show "\<exists>r ev. verifyEvent env ''Burn'' h = Inr (r, ev) \<and> i = eventId (args ev)
                 \<and> orig = amount (args ev) \<and> rc = destinationAddress (args ev)
                 \<and> Unlocked rc (netAmount orig) i \<in> set t"
    by auto
qed

lemma sample_verification:
  "verifyEvent sampleEnv ''Deposit'' (JStr ''0xtx1'')
     = Inr (\<lparr>status = 1, logs = [''0xlog0'', ''0xlog1''], blockNumber = 100\<rparr>, depositLog)"
  by code_simp

theorem verification_follows_algorithm_witness:
  "verifySpec sampleEnv ''Deposit'' (JStr ''0xtx1'')
     = Inr (\<lparr>status = 1, logs = [''0xlog0'', ''0xlog1''], blockNumber = 100\<rparr>, depositLog)
   \<and> sampleParseLog ''0xlog0'' = None
   \<and> (\<exists>l \<in> set [''0xlog0'', ''0xlog1'']. parseLog sampleEnv l = Some depositLog)
   \<and> verifySpec sampleEnv ''Deposit'' (JStr ''0xtx2'') = Inl EventNotFound
   \<and> verifySpec sampleEnv ''Deposit'' (JStr ''0xtx3'') = Inl ReceiptNotFound"
proof -
  note inst = verification_follows_algorithm
    [where env = sampleEnv and evName = "''Deposit''" and env' = sampleEnv and st = emptyState]
  have a: "verifySpec sampleEnv ''Deposit'' (JStr ''0xtx1'')
     = Inr (\<lparr>status = 1, logs = [''0xlog0'', ''0xlog1''], blockNumber = 100\<rparr>, depositLog)"
    using inst [of "JStr ''0xtx1''"] sample_verification by simp
  have b: "\<exists>l \<in> set [''0xlog0'', ''0xlog1'']. parseLog sampleEnv l = Some depositLog"
    using inst [of "JStr ''0xtx1''"] sample_verification by auto
  have c: "verifyEvent sampleEnv ''Deposit'' (JStr ''0xtx2'') = Inl EventNotFound"
    "verifyEvent sampleEnv ''Deposit'' (JStr ''0xtx3'') = Inl ReceiptNotFound"
    by code_simp+
  have d: "sampleParseLog ''0xlog0'' = None"
    by (simp add: sampleParseLog_def)
  from a b c d inst [of "JStr ''0xtx2''"] inst [of "JStr ''0xtx3''"] show ?thesis
    by simp
qed


lemma reverting_deposit_run:
  "processDepositByTxHash revertingEnv (JStr ''0xtx1'') emptyState
   = (Throws ''event is not defined'', emptyState,
      [ReceiptFetched (JStr ''0xtx1''), HeadPolled 110,
       Minted ''0xrecipient'' 99000000 ''0xd1''])"
  by code_simp

text \<open>
  C1 as stated fails: in this run the mint is submitted while \<open>0xd1\<close> is not in the
  processed list, and the identifier is marked only afterwards.
\<close>

theorem submission_precedes_mark_counterexample:
  "snd (snd (processDepositByTxHash sampleEnv (JStr ''0xtx1'') emptyState))
     = [ReceiptFetched (JStr ''0xtx1''), HeadPolled 110,
        Minted ''0xrecipient'' 99000000 ''0xd1'', DepositMarked ''0xd1'',
        HashesStored ''0xd1'']
   \<and> beforeSubmission (snd (snd (processDepositByTxHash sampleEnv (JStr ''0xtx1'') emptyState)))
     = [ReceiptFetched (JStr ''0xtx1''), HeadPolled 110]
   \<and> \<not> isDepositProcessed ''0xd1'' emptyState"
  using sample_deposit_run
  by (simp add: isDepositProcessed_def emptyState_def beforeSubmission_def isSubmission_def)

theorem mark_follows_submission_witness:
  "verifyEvent sampleEnv ''Deposit'' (JStr ''0xtx1'')
     = Inr (\<lparr>status = 1, logs = [''0xlog0'', ''0xlog1''], blockNumber = 100\<rparr>, depositLog)
   \<and> \<not> isDepositProcessed ''0xd1'' emptyState
   \<and> awaitConfirmations (getBlockNumber sampleEnv) 100 3000 = (Inr 10, [HeadPolled 110])
   \<and> submit sampleEnv ''0xrecipient'' 99000000 ''0xd1''
       = Returns \<lparr>txHash = ''0xdest1'', wait = Returns ''0xdest1''\<rparr>
   \<and> snd (snd (processDepositByTxHash sampleEnv (JStr ''0xtx1'') emptyState))
       = [ReceiptFetched (JStr ''0xtx1''), HeadPolled 110,
          Minted ''0xrecipient'' 99000000 ''0xd1'', DepositMarked ''0xd1'',
          HashesStored ''0xd1'']
   \<and> fst (snd (processDepositByTxHash sampleEnv (JStr ''0xtx1'') emptyState))
       = addDepositTxHashes 1000 ''0xd1'' (JStr ''0xtx1'') (Some ''0xdest1'')
           (addProcessedDeposit 1000 ''0xd1'' emptyState)
   \<and> submit revertingEnv ''0xrecipient'' 99000000 ''0xd1'' = Throws ''execution reverted''
   \<and> fst (snd (processDepositByTxHash revertingEnv (JStr ''0xtx1'') emptyState)) = emptyState
   \<and> Minted ''0xrecipient'' 99000000 ''0xd1''
       \<in> set (snd (snd (processDepositByTxHash revertingEnv (JStr ''0xtx1'') emptyState)))
   \<and> DepositMarked ''0xd1''
       \<notin> set (snd (snd (processDepositByTxHash revertingEnv (JStr ''0xtx1'') emptyState)))"
proof -
  have v: "verifyEvent sampleEnv ''Deposit'' (JStr ''0xtx1'')
     = Inr (\<lparr>status = 1, logs = [''0xlog0'', ''0xlog1''], blockNumber = 100\<rparr>, depositLog)"
    and np: "\<not> isDepositProcessed ''0xd1'' emptyState"
    and a: "awaitConfirmations (getBlockNumber sampleEnv) 100 3000 = (Inr 10, [HeadPolled 110])"
    and s: "submit sampleEnv ''0xrecipient'' 99000000 ''0xd1''
       = Returns \<lparr>txHash = ''0xdest1'', wait = Returns ''0xdest1''\<rparr>"
    and v': "verifyEvent revertingEnv ''Deposit'' (JStr ''0xtx1'')
     = Inr (\<lparr>status = 1, logs = [''0xlog0'', ''0xlog1''], blockNumber = 100\<rparr>, depositLog)"
    and s': "submit revertingEnv ''0xrecipient'' 99000000 ''0xd1'' = Throws ''execution reverted''"
    by code_simp+
  have d: "eventId (args depositLog) = ''0xd1''"
    "destinationAddress (args depositLog) = ''0xrecipient''"
    "netAmount (amount (args depositLog)) = 99000000"
    by code_simp+
  have e: "addDepositTxHashes 1000 ''0xd1'' (JStr ''0xtx1'') (Some ''0xdest1'')
             (addProcessedDeposit 1000 ''0xd1'' emptyState)
           = emptyState\<lparr>processedDeposits := [''0xd1''],
                 transactionHashes :=
                   Some [(''0xd1'',
                          \<lparr>txType = deposit, sourceTxHash = JStr ''0xtx1'',
                           destTxHash = Some ''0xdest1'', sourceChain = ''BSC'',
                           destChain = ''UC'', timestamp = 1000\<rparr>)],
                 lastSaved := Some 1000\<rparr>"
    by code_simp
  from mark_follows_submission
         [where env = sampleEnv and h = "JStr ''0xtx1''" and st = emptyState
            and event = sampleDeposit and r = sampleRelayer]
  have ok: "snd (snd (processDepositByTxHash sampleEnv (JStr ''0xtx1'') emptyState))
       = [ReceiptFetched (JStr ''0xtx1''), HeadPolled 110,
          Minted ''0xrecipient'' 99000000 ''0xd1'', DepositMarked ''0xd1'',
          HashesStored ''0xd1'']
     \<and> fst (snd (processDepositByTxHash sampleEnv (JStr ''0xtx1'') emptyState))
       = addDepositTxHashes 1000 ''0xd1'' (JStr ''0xtx1'') (Some ''0xdest1'')
           (addProcessedDeposit 1000 ''0xd1'' emptyState)"
    using v np a s d e
    by (simp add: sample_deposit_run)
  from mark_follows_submission
         [where env = revertingEnv and h = "JStr ''0xtx1''" and st = emptyState
            and event = sampleDeposit and r = sampleRelayer]
  have bad: "fst (snd (processDepositByTxHash revertingEnv (JStr ''0xtx1'') emptyState))
        = emptyState
     \<and> Minted ''0xrecipient'' 99000000 ''0xd1''
       \<in> set (snd (snd (processDepositByTxHash revertingEnv (JStr ''0xtx1'') emptyState)))
     \<and> DepositMarked ''0xd1''
       \<notin> set (snd (snd (processDepositByTxHash revertingEnv (JStr ''0xtx1'') emptyState)))"
    using v' s' d
    by (simp add: reverting_deposit_run)
  from v np a s s' ok bad show ?thesis
    by simp
qed

text \<open>
  C2 at the failing input. With the head at block 102 and then at block 103, a deposit
  of block 100 has three confirmations at the second poll, and both the pipeline and
  the handler submit the mint.
\<close>

theorem submission_without_confirmations:
  "snd (snd (processDepositByTxHash slowEnv (JStr ''0xtx1'') emptyState))
     = [ReceiptFetched (JStr ''0xtx1''), HeadPolled 102, Slept 12000, HeadPolled 103,
        Minted ''0xrecipient'' 99000000 ''0xd1'', DepositMarked ''0xd1'',
        HashesStored ''0xd1'']
   \<and> snd (handleBscDeposit slowEnv sampleDeposit sampleRelayer)
     = [HeadPolled 102, Slept 12000, HeadPolled 103, ReceiptFetched (JStr ''0xtx1''),
        Minted ''0xrecipient'' 99000000 ''0xd1'', DepositMarked ''0xd1'',
        HashesStored ''0xd1'']
   \<and> 103 - eventBlock sampleDeposit < requiredConfirmations"
proof (intro conjI)
  show "snd (snd (processDepositByTxHash slowEnv (JStr ''0xtx1'') emptyState))
     = [ReceiptFetched (JStr ''0xtx1''), HeadPolled 102, Slept 12000, HeadPolled 103,
        Minted ''0xrecipient'' 99000000 ''0xd1'', DepositMarked ''0xd1'',
        HashesStored ''0xd1'']"
    by code_simp
  show "snd (handleBscDeposit slowEnv sampleDeposit sampleRelayer)
     = [HeadPolled 102, Slept 12000, HeadPolled 103, ReceiptFetched (JStr ''0xtx1''),
        Minted ''0xrecipient'' 99000000 ''0xd1'', DepositMarked ''0xd1'',
        HashesStored ''0xd1'']"
    by code_simp
  show "103 - eventBlock sampleDeposit < requiredConfirmations"
    by (simp add: sampleDeposit_def requiredConfirmations_def)
qed

lemma respond_result:
  "respond ty h (Returns result, st, calls)
     = (\<lparr>statusCode = (if success result then 200 else 400), body = ResultBody result\<rparr>,
        st, Invoked ty h # calls)"
  by (simp add: respond_def)

lemma handleProcessDeposit_accepts:
  "extractTxHash parse rawBody = Some h \<Longrightarrow> js_truthy (Some h) \<Longrightarrow>
   handleProcessDeposit parse env rawBody st = respond deposit h (processDepositByTxHash env h st)"
  by (simp add: handleProcessDeposit_def)

lemma handleProcessWithdrawal_accepts:
  "extractTxHash parse rawBody = Some h \<Longrightarrow> js_truthy (Some h) \<Longrightarrow>
   handleProcessWithdrawal parse env rawBody st
     = respond burn h (processWithdrawalByTxHash env h st)"
  by (simp add: handleProcessWithdrawal_def)



lemma deposit_second_invocation:
  assumes run: "processDepositByTxHash env h st = (Returns (Success i s d n orig f rc), st1, t1)"
    and same: "verifyEvent env' ''Deposit'' h = verifyEvent env ''Deposit'' h"
  shows "processDepositByTxHash env' h st1
           = (Returns (AlreadyProcessed ''Deposit already processed''), st1, [ReceiptFetched h])"
proof -
  from processDeposit_success [OF run] obtain r ev where
    v: "verifyEvent env ''Deposit'' h = Inr (r, ev)" and i: "i = eventId (args ev)"
    and m: "DepositMarked i \<in> set t1"
    by blast
  from processDeposit_order [where env = env and h = h and st = st] run m have "isDepositProcessed i st1"
    by simp
  with v same i show ?thesis
    by (simp add: processDeposit_already)
qed

lemma withdrawal_second_invocation:
  assumes run: "processWithdrawalByTxHash env h st = (Returns (Success i s d n orig f rc), st1, t1)"
    and same: "verifyEvent env' ''Burn'' h = verifyEvent env ''Burn'' h"
  shows "processWithdrawalByTxHash env' h st1
           = (Returns (AlreadyProcessed ''Withdrawal already processed''), st1,
              [ReceiptFetched h])"
proof -
  from processWithdrawal_success [OF run] obtain r ev where
    v: "verifyEvent env ''Burn'' h = Inr (r, ev)" and i: "i = eventId (args ev)"
    and m: "BurnMarked i \<in> set t1"
    by blast
  from processWithdrawal_order [where env = env and h = h and st = st] run m have "isBurnProcessed i st1"
    by simp
  with v same i show ?thesis
    by (simp add: processWithdrawal_already)
qed

text \<open>
  C3, as the code has it. A second invocation for a transaction that was processed
  successfully resolves to the object with \<^verbatim>\<open>success: false\<close> and the message
  "already processed", which the gateway answers with status 400; it makes no call
  beyond fetching the receipt and leaves the state as it is.
\<close>

theorem second_invocation_already_processed:
  "(processDepositByTxHash env h st = (Returns (Success i s d n orig f rc), st1, t1)
      \<and> verifyEvent env' ''Deposit'' h = verifyEvent env ''Deposit'' h \<longrightarrow>
    processDepositByTxHash env' h st1
      = (Returns (AlreadyProcessed ''Deposit already processed''), st1, [ReceiptFetched h])
    \<and> (extractTxHash parse rawBody = Some h \<and> js_truthy (Some h) \<longrightarrow>
         handleProcessDeposit parse env' rawBody st1
           = (\<lparr>statusCode = 400,
               body = ResultBody (AlreadyProcessed ''Deposit already processed'')\<rparr>,
              st1, [Invoked deposit h, ReceiptFetched h])))
   \<and> (processWithdrawalByTxHash env h st = (Returns (Success i s d n orig f rc), st1, t1)
      \<and> verifyEvent env' ''Burn'' h = verifyEvent env ''Burn'' h \<longrightarrow>
    processWithdrawalByTxHash env' h st1
      = (Returns (AlreadyProcessed ''Withdrawal already processed''), st1, [ReceiptFetched h])
    \<and> (extractTxHash parse rawBody = Some h \<and> js_truthy (Some h) \<longrightarrow>
         handleProcessWithdrawal parse env' rawBody st1
           = (\<lparr>statusCode = 400,
               body = ResultBody (AlreadyProcessed ''Withdrawal already processed'')\<rparr>,
              st1, [Invoked burn h, ReceiptFetched h])))
   \<and> \<not> success (AlreadyProcessed msg)
   \<and> \<not> isSubmission (ReceiptFetched h) \<and> \<not> isSubmission (Invoked ty h)"
proof (intro conjI impI)
  assume a: "processDepositByTxHash env h st = (Returns (Success i s d n orig f rc), st1, t1)
      \<and> verifyEvent env' ''Deposit'' h = verifyEvent env ''Deposit'' h"
  then show second: "processDepositByTxHash env' h st1
      = (Returns (AlreadyProcessed ''Deposit already processed''), st1, [ReceiptFetched h])"
    using deposit_second_invocation [of env h st i s d n orig f rc st1 t1 env'] by simp
  assume "extractTxHash parse rawBody = Some h \<and> js_truthy (Some h)"
  then show "handleProcessDeposit parse env' rawBody st1
           = (\<lparr>statusCode = 400,
               body = ResultBody (AlreadyProcessed ''Deposit already processed'')\<rparr>,
              st1, [Invoked deposit h, ReceiptFetched h])"
    using second by (simp add: handleProcessDeposit_accepts respond_result)
next
  assume a: "processWithdrawalByTxHash env h st = (Returns (Success i s d n orig f rc), st1, t1)
      \<and> verifyEvent env' ''Burn'' h = verifyEvent env ''Burn'' h"
  then show second: "processWithdrawalByTxHash env' h st1
      = (Returns (AlreadyProcessed ''Withdrawal already processed''), st1, [ReceiptFetched h])"
    using withdrawal_second_invocation [of env h st i s d n orig f rc st1 t1 env'] by simp
  assume "extractTxHash parse rawBody = Some h \<and> js_truthy (Some h)"
  then show "handleProcessWithdrawal parse env' rawBody st1
           = (\<lparr>statusCode = 400,
               body = ResultBody (AlreadyProcessed ''Withdrawal already processed'')\<rparr>,
              st1, [Invoked burn h, ReceiptFetched h])"
    using second by (simp add: handleProcessWithdrawal_accepts respond_result)
next
  show "\<not> success (AlreadyProcessed msg)" by simp
  show "\<not> isSubmission (ReceiptFetched h)" by (simp add: isSubmission_def)
  show "\<not> isSubmission (Invoked ty h)" by (simp add: isSubmission_def)
qed

lemma sample_extraction: "extractTxHash JSON_parse sampleBody = Some (JStr ''0xtx1'')"
  by code_simp

theorem second_invocation_already_processed_witness:
  "processDepositByTxHash sampleEnv (JStr ''0xtx1'')
      (fst (snd (processDepositByTxHash sampleEnv (JStr ''0xtx1'') emptyState)))
     = (Returns (AlreadyProcessed ''Deposit already processed''),
        fst (snd (processDepositByTxHash sampleEnv (JStr ''0xtx1'') emptyState)),
        [ReceiptFetched (JStr ''0xtx1'')])
   \<and> handleProcessDeposit JSON_parse sampleEnv sampleBody
        (fst (snd (processDepositByTxHash sampleEnv (JStr ''0xtx1'') emptyState)))
     = (\<lparr>statusCode = 400,
         body = ResultBody (AlreadyProcessed ''Deposit already processed'')\<rparr>,
        fst (snd (processDepositByTxHash sampleEnv (JStr ''0xtx1'') emptyState)),
        [Invoked deposit (JStr ''0xtx1''), ReceiptFetched (JStr ''0xtx1'')])"
  using second_invocation_already_processed
          [where env = sampleEnv and env' = sampleEnv and h = "JStr ''0xtx1''"
             and st = emptyState and parse = JSON_parse and rawBody = sampleBody]
        sample_extraction
  by (simp add: sample_deposit_run)

text \<open>
  C3 as stated fails: the second request for the same transaction is answered with
  status 400 and an object whose \<^verbatim>\<open>success\<close> is false.
\<close>

theorem already_processed_is_an_error_counterexample:
  "statusCode (fst (handleProcessDeposit JSON_parse sampleEnv sampleBody
       (fst (snd (processDepositByTxHash sampleEnv (JStr ''0xtx1'') emptyState))))) = 400
   \<and> body (fst (handleProcessDeposit JSON_parse sampleEnv sampleBody
       (fst (snd (processDepositByTxHash sampleEnv (JStr ''0xtx1'') emptyState)))))
      = ResultBody (AlreadyProcessed ''Deposit already processed'')
   \<and> \<not> success (AlreadyProcessed ''Deposit already processed'')"
proof -
  have "handleProcessDeposit JSON_parse sampleEnv sampleBody
       (fst (snd (processDepositByTxHash sampleEnv (JStr ''0xtx1'') emptyState)))
     = (\<lparr>statusCode = 400,
         body = ResultBody (AlreadyProcessed ''Deposit already processed'')\<rparr>,
        fst (snd (processDepositByTxHash sampleEnv (JStr ''0xtx1'') emptyState)),
        [Invoked deposit (JStr ''0xtx1''), ReceiptFetched (JStr ''0xtx1'')])"
    by code_simp
  then show ?thesis by simp
qed

subsection \<open>The gateway\<close>














subsection \<open>The monitoring loops\<close>

lemma readers_Nil [simp]: "queriesOf [] = []" "dispatchedOf [] = []" "savesOf [] = []"
  by (simp_all add: queriesOf_def dispatchedOf_def savesOf_def)

lemma readers_Cons:
  "queriesOf (e # t) = (case e of Queried a b \<Rightarrow> [(a, b)] | _ \<Rightarrow> []) @ queriesOf t"
  "dispatchedOf (e # t) = (case e of Dispatched ev \<Rightarrow> [ev] | _ \<Rightarrow> []) @ dispatchedOf t"
  "savesOf (e # t) = (case e of CursorSaved ty b \<Rightarrow> [(ty, b)] | _ \<Rightarrow> []) @ savesOf t"
  by (simp_all add: queriesOf_def dispatchedOf_def savesOf_def)

lemma readers_append [simp]:
  "queriesOf (t @ u) = queriesOf t @ queriesOf u"
  "dispatchedOf (t @ u) = dispatchedOf t @ dispatchedOf u"
  "savesOf (t @ u) = savesOf t @ savesOf u"
  by (simp_all add: queriesOf_def dispatchedOf_def savesOf_def)

lemma quiet_trace:
  assumes "\<forall>e \<in> set t. \<not> isLoopEffect e"
  shows "queriesOf t = []" and "dispatchedOf t = []" and "savesOf t = []"
  using assms
  by (induction t) (auto simp: readers_Cons isLoopEffect_def split: effect.splits)

lemma beforeSave_at: "savesOf t = [] \<Longrightarrow> beforeSave (t @ CursorSaved ty b # u) = t"
  by (induction t) (auto simp: beforeSave_def readers_Cons split: effect.splits)

lemma dispatch_run:
  assumes frame: "\<And>env e r. case handler env e r of
     (r', t) \<Rightarrow>
       (\<forall>x \<in> set t. \<not> isLoopEffect x)
       \<and> bscLastBlock r' = bscLastBlock r \<and> ucLastBlock r' = ucLastBlock r
       \<and> isRunning r' = isRunning r \<and> currentBscRpcIndex r' = currentBscRpcIndex r
       \<and> lastBscBlock (stateManager r') = lastBscBlock (stateManager r)
       \<and> lastUcBlock (stateManager r') = lastUcBlock (stateManager r)"
  shows "case dispatch handler envs i es r of
     (r', t) \<Rightarrow>
       dispatchedOf t = es \<and> queriesOf t = [] \<and> savesOf t = []
       \<and> bscLastBlock r' = bscLastBlock r \<and> ucLastBlock r' = ucLastBlock r
       \<and> isRunning r' = isRunning r \<and> currentBscRpcIndex r' = currentBscRpcIndex r
       \<and> lastBscBlock (stateManager r') = lastBscBlock (stateManager r)
       \<and> lastUcBlock (stateManager r') = lastUcBlock (stateManager r)"
proof (induction es arbitrary: i r)
  case Nil
  show ?case by simp
next
  case (Cons e es)
  obtain r1 t1 where h: "handler (envs i) e r = (r1, t1)"
    by (cases "handler (envs i) e r")
  obtain r2 t2 where d: "dispatch handler envs (Suc i) es r1 = (r2, t2)"
    by (cases "dispatch handler envs (Suc i) es r1")
  from frame [where env = "envs i" and e = e and r = r] h
  have q: "\<forall>x \<in> set t1. \<not> isLoopEffect x"
    and f1: "bscLastBlock r1 = bscLastBlock r" "ucLastBlock r1 = ucLastBlock r"
      "isRunning r1 = isRunning r" "currentBscRpcIndex r1 = currentBscRpcIndex r"
      "lastBscBlock (stateManager r1) = lastBscBlock (stateManager r)"
      "lastUcBlock (stateManager r1) = lastUcBlock (stateManager r)"
    by simp_all
  from Cons.IH [where i = "Suc i" and r = r1] d
  have ih: "dispatchedOf t2 = es" "queriesOf t2 = []" "savesOf t2 = []"
    and f2: "bscLastBlock r2 = bscLastBlock r1" "ucLastBlock r2 = ucLastBlock r1"
      "isRunning r2 = isRunning r1" "currentBscRpcIndex r2 = currentBscRpcIndex r1"
      "lastBscBlock (stateManager r2) = lastBscBlock (stateManager r1)"
      "lastUcBlock (stateManager r2) = lastUcBlock (stateManager r1)"
    by simp_all
  from h d quiet_trace [OF q] ih f1 f2 show ?case
    by (simp add: readers_Cons)
qed

lemma handleBscDeposit_frame:
  "case handleBscDeposit env e r of
     (r', t) \<Rightarrow>
       (\<forall>x \<in> set t. \<not> isLoopEffect x)
       \<and> bscLastBlock r' = bscLastBlock r \<and> ucLastBlock r' = ucLastBlock r
       \<and> isRunning r' = isRunning r \<and> currentBscRpcIndex r' = currentBscRpcIndex r
       \<and> lastBscBlock (stateManager r') = lastBscBlock (stateManager r)
       \<and> lastUcBlock (stateManager r') = lastUcBlock (stateManager r)"
  using handleBscDeposit_run [where env = env and event = e and r = r]
  by (simp split: prod.splits)

lemma handleUcBurn_frame:
  "case handleUcBurn env e r of
     (r', t) \<Rightarrow>
       (\<forall>x \<in> set t. \<not> isLoopEffect x)
       \<and> bscLastBlock r' = bscLastBlock r \<and> ucLastBlock r' = ucLastBlock r
       \<and> isRunning r' = isRunning r \<and> currentBscRpcIndex r' = currentBscRpcIndex r
       \<and> lastBscBlock (stateManager r') = lastBscBlock (stateManager r)
       \<and> lastUcBlock (stateManager r') = lastUcBlock (stateManager r)"
  using handleUcBurn_run [where env = env and event = e and r = r]
  by (simp split: prod.splits)

lemma bscMonitorCatch_frame:
  "case bscMonitorCatch msg (n, r) of
     ((n', r'), t) \<Rightarrow>
       n' = Suc n \<and> queriesOf t = [] \<and> dispatchedOf t = [] \<and> savesOf t = []
       \<and> bscLastBlock r' = bscLastBlock r \<and> stateManager r' = stateManager r
       \<and> isRunning r' = isRunning r"
  by (simp add: bscMonitorCatch_def getNextBscRpc_def Let_def readers_Cons)

lemma ucMonitorCatch_quiet:
  "queriesOf (ucMonitorCatch msg) = [] \<and> dispatchedOf (ucMonitorCatch msg) = []
   \<and> savesOf (ucMonitorCatch msg) = []"
  by (simp add: ucMonitorCatch_def readers_Cons)

text \<open>The passes of \<open>monitorBscDeposits\<close>, branch by branch.\<close>

lemma monitorBsc_head_failed:
  "head env = Throws msg \<Longrightarrow> monitorBscDeposits env (n, r) = bscMonitorCatch msg (n, r)"
  by (simp add: monitorBscDeposits_def)

lemma monitorBsc_caught_up:
  "head env = Returns currentBlock \<Longrightarrow> \<not> bscLastBlock r < currentBlock \<Longrightarrow>
   monitorBscDeposits env (n, r) = ((n, r), [HeadPolled currentBlock, Slept 5000])"
  by (simp add: monitorBscDeposits_def)

lemma monitorBsc_query_failed:
  "head env = Returns currentBlock \<Longrightarrow> bscLastBlock r < currentBlock \<Longrightarrow>
   queryFilter env (bscLastBlock r + 1) (bscLastBlock r + 1) = Throws msg \<Longrightarrow>
   monitorBscDeposits env (n, r)
     = (case bscMonitorCatch msg (n, r) of
          (s1, t) \<Rightarrow>
            (s1, HeadPolled currentBlock
                   # Queried (bscLastBlock r + 1) (bscLastBlock r + 1) # t))"
  by (simp add: monitorBscDeposits_def Let_def)

lemma monitorBsc_scanned:
  "head env = Returns currentBlock \<Longrightarrow> bscLastBlock r < currentBlock \<Longrightarrow>
   queryFilter env (bscLastBlock r + 1) (bscLastBlock r + 1) = Returns events \<Longrightarrow>
   dispatch handleBscDeposit (handlerEnv env) 0 events r = (r1, t) \<Longrightarrow>
   monitorBscDeposits env (n, r)
     = ((0, r1\<lparr>bscLastBlock := bscLastBlock r + 1,
               stateManager :=
                 setLastBscBlock (watchClock env) (bscLastBlock r + 1) (stateManager r1)\<rparr>),
        HeadPolled currentBlock # Queried (bscLastBlock r + 1) (bscLastBlock r + 1) # t
          @ CursorSaved deposit (bscLastBlock r + 1)
          # (if currentBlock - bscLastBlock r \<le> 1 then [Slept 5000] else []))"
  by (simp add: monitorBscDeposits_def Let_def)

lemma monitorUc_head_failed:
  "head env = Throws msg \<Longrightarrow> monitorUcBurns env r = (r, ucMonitorCatch msg)"
  by (simp add: monitorUcBurns_def)

lemma monitorUc_caught_up:
  "head env = Returns currentBlock \<Longrightarrow> \<not> ucLastBlock r < currentBlock \<Longrightarrow>
   monitorUcBurns env r = (r, [HeadPolled currentBlock, Slept 1000])"
  by (simp add: monitorUcBurns_def)

lemma monitorUc_query_failed:
  "head env = Returns currentBlock \<Longrightarrow> ucLastBlock r < currentBlock \<Longrightarrow>
   queryFilter env (ucLastBlock r + 1) (ucLastBlock r + 1) = Throws msg \<Longrightarrow>
   monitorUcBurns env r
     = (r, HeadPolled currentBlock # Queried (ucLastBlock r + 1) (ucLastBlock r + 1)
             # ucMonitorCatch msg)"
  by (simp add: monitorUcBurns_def Let_def)

lemma monitorUc_scanned:
  "head env = Returns currentBlock \<Longrightarrow> ucLastBlock r < currentBlock \<Longrightarrow>
   queryFilter env (ucLastBlock r + 1) (ucLastBlock r + 1) = Returns events \<Longrightarrow>
   dispatch handleUcBurn (handlerEnv env) 0 events r = (r1, t) \<Longrightarrow>
   monitorUcBurns env r
     = (r1\<lparr>ucLastBlock := ucLastBlock r + 1,
           stateManager :=
             setLastUcBlock (watchClock env) (ucLastBlock r + 1) (stateManager r1)\<rparr>,
        HeadPolled currentBlock # Queried (ucLastBlock r + 1) (ucLastBlock r + 1) # t
          @ CursorSaved burn (ucLastBlock r + 1)
          # (if currentBlock - ucLastBlock r \<le> 1 then [Slept 1000] else []))"
  by (simp add: monitorUcBurns_def Let_def)


lemma initialize_synced:
  assumes "0 \<le> start"
  shows "bscSynced (r\<lparr>bscLastBlock := startingBlock (lastBscBlock (stateManager r)) start\<rparr>)"
    and "ucSynced (r\<lparr>ucLastBlock := startingBlock (lastUcBlock (stateManager r)) start\<rparr>)"
  using assms by (auto simp: bscSynced_def ucSynced_def startingBlock_def split: option.splits)

lemma cursorLe_refl [simp]: "cursorLe a a"
  by (simp add: cursorLe_def split: option.splits)

lemma cursorLe_trans: "cursorLe a b \<Longrightarrow> cursorLe b c \<Longrightarrow> cursorLe a c"
  by (auto simp: cursorLe_def split: option.splits)

lemma setLastBscBlock_cursor [simp]:
  "lastBscBlock (setLastBscBlock now b st) = Some b"
  "lastUcBlock (setLastBscBlock now b st) = lastUcBlock st"
  by (simp_all add: setLastBscBlock_def saveState_def)

lemma setLastUcBlock_cursor [simp]:
  "lastUcBlock (setLastUcBlock now b st) = Some b"
  "lastBscBlock (setLastUcBlock now b st) = lastBscBlock st"
  by (simp_all add: setLastUcBlock_def saveState_def)

lemma monitorBsc_ahead:
  assumes hd: "head env = Returns currentBlock" and ahead: "bscLastBlock r < currentBlock"
  shows "case monitorBscDeposits env (n, r) of
     ((n', r'), t) \<Rightarrow>
       queriesOf t = [(bscLastBlock r + 1, bscLastBlock r + 1)]
       \<and> (\<forall>events. queryFilter env (bscLastBlock r + 1) (bscLastBlock r + 1) = Returns events \<longrightarrow>
              bscLastBlock r' = bscLastBlock r + 1
              \<and> lastBscBlock (stateManager r') = Some (bscLastBlock r + 1)
              \<and> savesOf t = [(deposit, bscLastBlock r + 1)]
              \<and> dispatchedOf (beforeSave t) = events \<and> dispatchedOf t = events)
       \<and> (\<forall>msg. queryFilter env (bscLastBlock r + 1) (bscLastBlock r + 1) = Throws msg \<longrightarrow>
              bscLastBlock r' = bscLastBlock r \<and> stateManager r' = stateManager r
              \<and> savesOf t = [] \<and> dispatchedOf t = [])"
proof (cases "queryFilter env (bscLastBlock r + 1) (bscLastBlock r + 1)")
  case (Throws msg)
  obtain n1 r1 t1 where c: "bscMonitorCatch msg (n, r) = ((n1, r1), t1)"
    by (cases "bscMonitorCatch msg (n, r)") auto
  from bscMonitorCatch_frame [where msg = msg and n = n and r = r] c Throws
  show ?thesis
    by (simp add: monitorBsc_query_failed [OF hd ahead Throws] readers_Cons)
next
  case (Returns events)
  obtain r1 t where d: "dispatch handleBscDeposit (handlerEnv env) 0 events r = (r1, t)"
    by (cases "dispatch handleBscDeposit (handlerEnv env) 0 events r")
  from dispatch_run [where handler = handleBscDeposit and envs = "handlerEnv env" and i = 0
           and es = events and r = r, OF handleBscDeposit_frame] d
  have t: "dispatchedOf t = events" "queriesOf t = []" "savesOf t = []"
    by simp_all
  let ?b = "bscLastBlock r + 1"
  let ?rest = "if currentBlock - bscLastBlock r \<le> 1 then [Slept 5000] else []"
  have "savesOf (HeadPolled currentBlock # Queried ?b ?b # t) = []"
    using t by (simp add: readers_Cons)
  from beforeSave_at [OF this, where ty = deposit and b = ?b and u = ?rest]
  have bs: "beforeSave (HeadPolled currentBlock # Queried ?b ?b # t @ CursorSaved deposit ?b # ?rest)
              = HeadPolled currentBlock # Queried ?b ?b # t"
    by simp
  have tail: "queriesOf ?rest = []" "savesOf ?rest = []" "dispatchedOf ?rest = []"
    by (simp_all add: readers_Cons)
  show ?thesis
    unfolding monitorBsc_scanned [OF hd ahead Returns d]
    using Returns t tail bs by (simp add: readers_Cons)
qed

lemma monitorBsc_step:
  "case monitorBscDeposits env (n, r) of
     ((n', r'), t) \<Rightarrow>
       bscLastBlock r \<le> bscLastBlock r' \<and> bscLastBlock r' \<le> bscLastBlock r + 1
       \<and> isRunning r' = isRunning r
       \<and> (bscSynced r \<longrightarrow>
            bscSynced r'
            \<and> cursorLe (lastBscBlock (stateManager r)) (lastBscBlock (stateManager r')))"
proof (cases "head env")
  case (Throws msg)
  from bscMonitorCatch_frame [where msg = msg and n = n and r = r] show ?thesis
    by (auto simp: monitorBsc_head_failed [OF Throws] bscSynced_def split: option.splits)
next
  case (Returns currentBlock)
  show ?thesis
  proof (cases "bscLastBlock r < currentBlock")
    case False
    with Returns show ?thesis
      by (simp add: monitorBsc_caught_up)
  next
    case True
    show ?thesis
    proof (cases "queryFilter env (bscLastBlock r + 1) (bscLastBlock r + 1)")
      case (Throws msg)
      from bscMonitorCatch_frame [where msg = msg and n = n and r = r] show ?thesis
        by (auto simp: monitorBsc_query_failed [OF Returns True Throws] bscSynced_def
            split: option.splits)
    next
      case ev: (Returns events)
      obtain r1 t where d: "dispatch handleBscDeposit (handlerEnv env) 0 events r = (r1, t)"
        by (cases "dispatch handleBscDeposit (handlerEnv env) 0 events r")
      from dispatch_run [where handler = handleBscDeposit and envs = "handlerEnv env" and i = 0
           and es = events and r = r, OF handleBscDeposit_frame] d
      have f: "bscLastBlock r1 = bscLastBlock r" "isRunning r1 = isRunning r"
        "lastBscBlock (stateManager r1) = lastBscBlock (stateManager r)"
        by simp_all
      show ?thesis
        unfolding monitorBsc_scanned [OF Returns True ev d]
        using f by (auto simp: bscSynced_def cursorLe_def split: option.splits)
    qed
  qed
qed

lemma runBscMonitor_mono:
  "case runBscMonitor envs (n, r) of
     ((n', r'), t) \<Rightarrow>
       bscLastBlock r \<le> bscLastBlock r'
       \<and> (bscSynced r \<longrightarrow>
            bscSynced r'
            \<and> cursorLe (lastBscBlock (stateManager r)) (lastBscBlock (stateManager r')))"
proof (induction envs arbitrary: n r)
  case Nil
  show ?case by simp
next
  case (Cons env envs)
  show ?case
  proof (cases "isRunning r")
    case False
    then show ?thesis by simp
  next
    case True
    obtain n1 r1 t1 where s: "monitorBscDeposits env (n, r) = ((n1, r1), t1)"
      by (cases "monitorBscDeposits env (n, r)") auto
    obtain n2 r2 t2 where u: "runBscMonitor envs (n1, r1) = ((n2, r2), t2)"
      by (cases "runBscMonitor envs (n1, r1)") auto
    from monitorBsc_step [where env = env and n = n and r = r] s
    have a: "bscLastBlock r \<le> bscLastBlock r1"
      "bscSynced r \<longrightarrow> bscSynced r1
         \<and> cursorLe (lastBscBlock (stateManager r)) (lastBscBlock (stateManager r1))"
      by simp_all
    from Cons.IH [where n = n1 and r = r1] u
    have b: "bscLastBlock r1 \<le> bscLastBlock r2"
      "bscSynced r1 \<longrightarrow> bscSynced r2
         \<and> cursorLe (lastBscBlock (stateManager r1)) (lastBscBlock (stateManager r2))"
      by simp_all
    from a b True s u show ?thesis
      by (auto intro: cursorLe_trans)
  qed
qed


lemma monitorUc_ahead:
  assumes hd: "head env = Returns currentBlock" and ahead: "ucLastBlock r < currentBlock"
  shows "case monitorUcBurns env r of
     (r', t) \<Rightarrow>
       queriesOf t = [(ucLastBlock r + 1, ucLastBlock r + 1)]
       \<and> (\<forall>events. queryFilter env (ucLastBlock r + 1) (ucLastBlock r + 1) = Returns events \<longrightarrow>
              ucLastBlock r' = ucLastBlock r + 1
              \<and> lastUcBlock (stateManager r') = Some (ucLastBlock r + 1)
              \<and> savesOf t = [(burn, ucLastBlock r + 1)]
              \<and> dispatchedOf (beforeSave t) = events \<and> dispatchedOf t = events)
       \<and> (\<forall>msg. queryFilter env (ucLastBlock r + 1) (ucLastBlock r + 1) = Throws msg \<longrightarrow>
              r' = r \<and> savesOf t = [] \<and> dispatchedOf t = [])"
proof (cases "queryFilter env (ucLastBlock r + 1) (ucLastBlock r + 1)")
  case (Throws msg)
  from ucMonitorCatch_quiet [of msg] Throws
  show ?thesis
    by (simp add: monitorUc_query_failed [OF hd ahead Throws] readers_Cons)
next
  case (Returns events)
  obtain r1 t where d: "dispatch handleUcBurn (handlerEnv env) 0 events r = (r1, t)"
    by (cases "dispatch handleUcBurn (handlerEnv env) 0 events r")
  from dispatch_run [where handler = handleUcBurn and envs = "handlerEnv env" and i = 0
           and es = events and r = r, OF handleUcBurn_frame] d
  have t: "dispatchedOf t = events" "queriesOf t = []" "savesOf t = []"
    by simp_all
  let ?b = "ucLastBlock r + 1"
  let ?rest = "if currentBlock - ucLastBlock r \<le> 1 then [Slept 1000] else []"
  have "savesOf (HeadPolled currentBlock # Queried ?b ?b # t) = []"
    using t by (simp add: readers_Cons)
  from beforeSave_at [OF this, where ty = burn and b = ?b and u = ?rest]
  have bs: "beforeSave (HeadPolled currentBlock # Queried ?b ?b # t @ CursorSaved burn ?b # ?rest)
              = HeadPolled currentBlock # Queried ?b ?b # t"
    by simp
  have tail: "queriesOf ?rest = []" "savesOf ?rest = []" "dispatchedOf ?rest = []"
    by (simp_all add: readers_Cons)
  show ?thesis
    unfolding monitorUc_scanned [OF hd ahead Returns d]
    using Returns t tail bs by (simp add: readers_Cons)
qed

lemma monitorUc_step:
  "case monitorUcBurns env r of
     (r', t) \<Rightarrow>
       ucLastBlock r \<le> ucLastBlock r' \<and> ucLastBlock r' \<le> ucLastBlock r + 1
       \<and> isRunning r' = isRunning r
       \<and> (ucSynced r \<longrightarrow>
            ucSynced r'
            \<and> cursorLe (lastUcBlock (stateManager r)) (lastUcBlock (stateManager r')))"
proof (cases "head env")
  case (Throws msg)
  then show ?thesis
    by (simp add: monitorUc_head_failed)
next
  case (Returns currentBlock)
  show ?thesis
  proof (cases "ucLastBlock r < currentBlock")
    case False
    with Returns show ?thesis
      by (simp add: monitorUc_caught_up)
  next
    case True
    show ?thesis
    proof (cases "queryFilter env (ucLastBlock r + 1) (ucLastBlock r + 1)")
      case (Throws msg)
      then show ?thesis
        by (simp add: monitorUc_query_failed [OF Returns True Throws])
    next
      case ev: (Returns events)
      obtain r1 t where d: "dispatch handleUcBurn (handlerEnv env) 0 events r = (r1, t)"
        by (cases "dispatch handleUcBurn (handlerEnv env) 0 events r")
      from dispatch_run [where handler = handleUcBurn and envs = "handlerEnv env" and i = 0
               and es = events and r = r, OF handleUcBurn_frame] d
      have f: "ucLastBlock r1 = ucLastBlock r" "isRunning r1 = isRunning r"
        "lastUcBlock (stateManager r1) = lastUcBlock (stateManager r)"
        by simp_all
      show ?thesis
        unfolding monitorUc_scanned [OF Returns True ev d]
        using f by (auto simp: ucSynced_def cursorLe_def split: option.splits)
    qed
  qed
qed

lemma runUcMonitor_mono:
  "case runUcMonitor envs r of
     (r', t) \<Rightarrow>
       ucLastBlock r \<le> ucLastBlock r'
       \<and> (ucSynced r \<longrightarrow>
            ucSynced r'
            \<and> cursorLe (lastUcBlock (stateManager r)) (lastUcBlock (stateManager r')))"
proof (induction envs arbitrary: r)
  case Nil
  show ?case by simp
next
  case (Cons env envs)
  show ?case
  proof (cases "isRunning r")
    case False
    then show ?thesis by simp
  next
    case True
    obtain r1 t1 where s: "monitorUcBurns env r = (r1, t1)"
      by (cases "monitorUcBurns env r")
    obtain r2 t2 where u: "runUcMonitor envs r1 = (r2, t2)"
      by (cases "runUcMonitor envs r1")
    from monitorUc_step [where env = env and r = r] s
    have a: "ucLastBlock r \<le> ucLastBlock r1"
      "ucSynced r \<longrightarrow> ucSynced r1
         \<and> cursorLe (lastUcBlock (stateManager r)) (lastUcBlock (stateManager r1))"
      by simp_all
    from Cons.IH [where r = r1] u
    have b: "ucLastBlock r1 \<le> ucLastBlock r2"
      "ucSynced r1 \<longrightarrow> ucSynced r2
         \<and> cursorLe (lastUcBlock (stateManager r1)) (lastUcBlock (stateManager r2))"
      by simp_all
    from a b True s u show ?thesis
      by (auto intro: cursorLe_trans)
  qed
qed

lemma dispatch_fold:
  "foldl (\<lambda>(r, t) (i, e). case handler (envs i) e r of (r1, t1) \<Rightarrow> (r1, t @ Dispatched e # t1))
     (r, t) (List.enumerate i es)
   = (case dispatch handler envs i es r of (r2, t2) \<Rightarrow> (r2, t @ t2))"
proof (induction es arbitrary: i r t)
  case Nil
  then show ?case by simp
next
  case (Cons e es)
  obtain r1 t1 where h: "handler (envs i) e r = (r1, t1)"
    by (cases "handler (envs i) e r")
  obtain r2 t2 where d: "dispatch handler envs (Suc i) es r1 = (r2, t2)"
    by (cases "dispatch handler envs (Suc i) es r1")
  from Cons.IH [where i = "Suc i" and r = r1 and t = "t @ Dispatched e # t1"] h d
  show ?case by simp
qed

lemma dispatch_in_order: "dispatch handler envs 0 es r = handleInOrder handler envs es r"
  using dispatch_fold [where handler = handler and envs = envs and r = r and t = "[]"
                         and i = 0 and es = es]
  by (simp add: handleInOrder_def split: prod.splits)

lemma monitorBsc_pass:
  assumes "head env = Returns currentBlock" and "bscLastBlock r < currentBlock"
    and "queryFilter env (bscLastBlock r + 1) (bscLastBlock r + 1) = Returns events"
  shows "case handleInOrder handleBscDeposit (handlerEnv env) events r of
           (r1, t1) \<Rightarrow>
             monitorBscDeposits env (n, r)
               = ((0, r1\<lparr>bscLastBlock := bscLastBlock r + 1,
                         stateManager :=
                           (stateManager r1)\<lparr>lastBscBlock := Some (bscLastBlock r + 1),
                                              lastSaved := Some (watchClock env)\<rparr>\<rparr>),
                  HeadPolled currentBlock # Queried (bscLastBlock r + 1) (bscLastBlock r + 1)
                    # t1 @ CursorSaved deposit (bscLastBlock r + 1)
                    # (if currentBlock - bscLastBlock r \<le> 1 then [Slept 5000] else []))"
proof (cases "handleInOrder handleBscDeposit (handlerEnv env) events r")
  case (Pair r1 t1)
  then have "dispatch handleBscDeposit (handlerEnv env) 0 events r = (r1, t1)"
    by (simp add: dispatch_in_order)
  from monitorBsc_scanned [OF assms this, of n] Pair show ?thesis
    by (simp add: setLastBscBlock_def saveState_def)
qed

lemma monitorUc_pass:
  assumes "head env = Returns currentBlock" and "ucLastBlock r < currentBlock"
    and "queryFilter env (ucLastBlock r + 1) (ucLastBlock r + 1) = Returns events"
  shows "case handleInOrder handleUcBurn (handlerEnv env) events r of
           (r1, t1) \<Rightarrow>
             monitorUcBurns env r
               = (r1\<lparr>ucLastBlock := ucLastBlock r + 1,
                     stateManager :=
                       (stateManager r1)\<lparr>lastUcBlock := Some (ucLastBlock r + 1),
                                          lastSaved := Some (watchClock env)\<rparr>\<rparr>,
                  HeadPolled currentBlock # Queried (ucLastBlock r + 1) (ucLastBlock r + 1)
                    # t1 @ CursorSaved burn (ucLastBlock r + 1)
                    # (if currentBlock - ucLastBlock r \<le> 1 then [Slept 1000] else []))"
proof (cases "handleInOrder handleUcBurn (handlerEnv env) events r")
  case (Pair r1 t1)
  then have "dispatch handleUcBurn (handlerEnv env) 0 events r = (r1, t1)"
    by (simp add: dispatch_in_order)
  from monitorUc_scanned [OF assms this] Pair show ?thesis
    by (simp add: setLastUcBlock_def saveState_def)
qed

lemma handleInOrder_one:
  "handleInOrder handler envs [e] r
   = (case handler (envs 0) e r of (r1, t1) \<Rightarrow> (r1, Dispatched e # t1))"
  by (simp add: handleInOrder_def split: prod.splits)

text \<open>
  C8. A pass of a monitoring loop that finds the head ahead of its cursor queries one
  range, the single block after the cursor. When the query answers, every event of the
  block is handled, in the order of the answer and each from the state the one before
  has left, before the cursor is saved; the pass ends in the state the last handler has
  left, with the cursor in memory and the persisted one set to that block and the state
  saved at the time of the pass, and its calls are the poll of the head, the query, the
  calls of the handlers, the save of the cursor and, when the loop has caught up, the
  sleep. When the query fails, the cursor stays. Over any run of passes the cursor in
  memory never decreases, and neither does the saved one.
\<close>

theorem watcher_scans_one_block:
  "(head env = Returns currentBlock \<and> bscLastBlock r < currentBlock \<longrightarrow>
     (case monitorBscDeposits env (n, r) of
        ((n', r'), t) \<Rightarrow>
          queriesOf t = [(bscLastBlock r + 1, bscLastBlock r + 1)]
          \<and> (\<forall>events. queryFilter env (bscLastBlock r + 1) (bscLastBlock r + 1) = Returns events
                \<longrightarrow> bscLastBlock r' = bscLastBlock r + 1
                    \<and> lastBscBlock (stateManager r') = Some (bscLastBlock r + 1)
                    \<and> savesOf t = [(deposit, bscLastBlock r + 1)]
                    \<and> dispatchedOf (beforeSave t) = events \<and> dispatchedOf t = events)
          \<and> (\<forall>msg. queryFilter env (bscLastBlock r + 1) (bscLastBlock r + 1) = Throws msg
                \<longrightarrow> bscLastBlock r' = bscLastBlock r \<and> stateManager r' = stateManager r
                    \<and> savesOf t = [] \<and> dispatchedOf t = [])))
   \<and> (head env = Returns currentBlock \<and> ucLastBlock r < currentBlock \<longrightarrow>
     (case monitorUcBurns env r of
        (r', t) \<Rightarrow>
          queriesOf t = [(ucLastBlock r + 1, ucLastBlock r + 1)]
          \<and> (\<forall>events. queryFilter env (ucLastBlock r + 1) (ucLastBlock r + 1) = Returns events
                \<longrightarrow> ucLastBlock r' = ucLastBlock r + 1
                    \<and> lastUcBlock (stateManager r') = Some (ucLastBlock r + 1)
                    \<and> savesOf t = [(burn, ucLastBlock r + 1)]
                    \<and> dispatchedOf (beforeSave t) = events \<and> dispatchedOf t = events)
          \<and> (\<forall>msg. queryFilter env (ucLastBlock r + 1) (ucLastBlock r + 1) = Throws msg
                \<longrightarrow> r' = r \<and> savesOf t = [] \<and> dispatchedOf t = [])))
   \<and> (case runBscMonitor envs (n, r) of
        ((n', r'), t) \<Rightarrow>
          bscLastBlock r \<le> bscLastBlock r'
          \<and> (bscSynced r \<longrightarrow>
               bscSynced r'
               \<and> cursorLe (lastBscBlock (stateManager r)) (lastBscBlock (stateManager r'))))
   \<and> (case runUcMonitor envs r of
        (r', t) \<Rightarrow>
          ucLastBlock r \<le> ucLastBlock r'
          \<and> (ucSynced r \<longrightarrow>
               ucSynced r'
               \<and> cursorLe (lastUcBlock (stateManager r)) (lastUcBlock (stateManager r'))))
   \<and> (head env = Returns currentBlock \<and> bscLastBlock r < currentBlock
      \<and> queryFilter env (bscLastBlock r + 1) (bscLastBlock r + 1) = Returns events \<longrightarrow>
     (case handleInOrder handleBscDeposit (handlerEnv env) events r of
        (r1, t1) \<Rightarrow>
          monitorBscDeposits env (n, r)
            = ((0, r1\<lparr>bscLastBlock := bscLastBlock r + 1,
                      stateManager :=
                        (stateManager r1)\<lparr>lastBscBlock := Some (bscLastBlock r + 1),
                                           lastSaved := Some (watchClock env)\<rparr>\<rparr>),
               HeadPolled currentBlock # Queried (bscLastBlock r + 1) (bscLastBlock r + 1)
                 # t1 @ CursorSaved deposit (bscLastBlock r + 1)
                 # (if currentBlock - bscLastBlock r \<le> 1 then [Slept 5000] else []))))
   \<and> (head env = Returns currentBlock \<and> ucLastBlock r < currentBlock
      \<and> queryFilter env (ucLastBlock r + 1) (ucLastBlock r + 1) = Returns events \<longrightarrow>
     (case handleInOrder handleUcBurn (handlerEnv env) events r of
        (r1, t1) \<Rightarrow>
          monitorUcBurns env r
            = (r1\<lparr>ucLastBlock := ucLastBlock r + 1,
                  stateManager :=
                    (stateManager r1)\<lparr>lastUcBlock := Some (ucLastBlock r + 1),
                                       lastSaved := Some (watchClock env)\<rparr>\<rparr>,
               HeadPolled currentBlock # Queried (ucLastBlock r + 1) (ucLastBlock r + 1)
                 # t1 @ CursorSaved burn (ucLastBlock r + 1)
                 # (if currentBlock - ucLastBlock r \<le> 1 then [Slept 1000] else []))))"
proof (intro conjI impI)
  assume "head env = Returns currentBlock \<and> bscLastBlock r < currentBlock"
  then have h: "head env = Returns currentBlock" and l: "bscLastBlock r < currentBlock"
    by simp_all
  show "case monitorBscDeposits env (n, r) of
        ((n', r'), t) \<Rightarrow>
          queriesOf t = [(bscLastBlock r + 1, bscLastBlock r + 1)]
          \<and> (\<forall>events. queryFilter env (bscLastBlock r + 1) (bscLastBlock r + 1) = Returns events
                \<longrightarrow> bscLastBlock r' = bscLastBlock r + 1
                    \<and> lastBscBlock (stateManager r') = Some (bscLastBlock r + 1)
                    \<and> savesOf t = [(deposit, bscLastBlock r + 1)]
                    \<and> dispatchedOf (beforeSave t) = events \<and> dispatchedOf t = events)
          \<and> (\<forall>msg. queryFilter env (bscLastBlock r + 1) (bscLastBlock r + 1) = Throws msg
                \<longrightarrow> bscLastBlock r' = bscLastBlock r \<and> stateManager r' = stateManager r
                    \<and> savesOf t = [] \<and> dispatchedOf t = [])"
    by (rule monitorBsc_ahead [OF h l])
next
  assume "head env = Returns currentBlock \<and> ucLastBlock r < currentBlock"
  then have h: "head env = Returns currentBlock" and l: "ucLastBlock r < currentBlock"
    by simp_all
  show "case monitorUcBurns env r of
        (r', t) \<Rightarrow>
          queriesOf t = [(ucLastBlock r + 1, ucLastBlock r + 1)]
          \<and> (\<forall>events. queryFilter env (ucLastBlock r + 1) (ucLastBlock r + 1) = Returns events
                \<longrightarrow> ucLastBlock r' = ucLastBlock r + 1
                    \<and> lastUcBlock (stateManager r') = Some (ucLastBlock r + 1)
                    \<and> savesOf t = [(burn, ucLastBlock r + 1)]
                    \<and> dispatchedOf (beforeSave t) = events \<and> dispatchedOf t = events)
          \<and> (\<forall>msg. queryFilter env (ucLastBlock r + 1) (ucLastBlock r + 1) = Throws msg
                \<longrightarrow> r' = r \<and> savesOf t = [] \<and> dispatchedOf t = [])"
    by (rule monitorUc_ahead [OF h l])
next
  show "case runBscMonitor envs (n, r) of
        ((n', r'), t) \<Rightarrow>
          bscLastBlock r \<le> bscLastBlock r'
          \<and> (bscSynced r \<longrightarrow>
               bscSynced r'
               \<and> cursorLe (lastBscBlock (stateManager r)) (lastBscBlock (stateManager r')))"
    by (rule runBscMonitor_mono)
next
  show "case runUcMonitor envs r of
        (r', t) \<Rightarrow>
          ucLastBlock r \<le> ucLastBlock r'
          \<and> (ucSynced r \<longrightarrow>
               ucSynced r'
               \<and> cursorLe (lastUcBlock (stateManager r)) (lastUcBlock (stateManager r')))"
    by (rule runUcMonitor_mono)
next
  assume "head env = Returns currentBlock \<and> bscLastBlock r < currentBlock
      \<and> queryFilter env (bscLastBlock r + 1) (bscLastBlock r + 1) = Returns events"
  then have h: "head env = Returns currentBlock" and l: "bscLastBlock r < currentBlock"
    and q: "queryFilter env (bscLastBlock r + 1) (bscLastBlock r + 1) = Returns events"
    by simp_all
  show "case handleInOrder handleBscDeposit (handlerEnv env) events r of
        (r1, t1) \<Rightarrow>
          monitorBscDeposits env (n, r)
            = ((0, r1\<lparr>bscLastBlock := bscLastBlock r + 1,
                      stateManager :=
                        (stateManager r1)\<lparr>lastBscBlock := Some (bscLastBlock r + 1),
                                           lastSaved := Some (watchClock env)\<rparr>\<rparr>),
               HeadPolled currentBlock # Queried (bscLastBlock r + 1) (bscLastBlock r + 1)
                 # t1 @ CursorSaved deposit (bscLastBlock r + 1)
                 # (if currentBlock - bscLastBlock r \<le> 1 then [Slept 5000] else []))"
    by (rule monitorBsc_pass [OF h l q])
next
  assume "head env = Returns currentBlock \<and> ucLastBlock r < currentBlock
      \<and> queryFilter env (ucLastBlock r + 1) (ucLastBlock r + 1) = Returns events"
  then have h: "head env = Returns currentBlock" and l: "ucLastBlock r < currentBlock"
    and q: "queryFilter env (ucLastBlock r + 1) (ucLastBlock r + 1) = Returns events"
    by simp_all
  show "case handleInOrder handleUcBurn (handlerEnv env) events r of
        (r1, t1) \<Rightarrow>
          monitorUcBurns env r
            = (r1\<lparr>ucLastBlock := ucLastBlock r + 1,
                  stateManager :=
                    (stateManager r1)\<lparr>lastUcBlock := Some (ucLastBlock r + 1),
                                       lastSaved := Some (watchClock env)\<rparr>\<rparr>,
               HeadPolled currentBlock # Queried (ucLastBlock r + 1) (ucLastBlock r + 1)
                 # t1 @ CursorSaved burn (ucLastBlock r + 1)
                 # (if currentBlock - ucLastBlock r \<le> 1 then [Slept 1000] else []))"
    by (rule monitorUc_pass [OF h l q])
qed

lemma sample_pass:
  "snd (monitorBscDeposits (blockPass sampleDeposit) (0, sampleRelayer))
     = [HeadPolled 101, Queried 100 100, Dispatched sampleDeposit, HeadPolled 110,
        ReceiptFetched (JStr ''0xtx1''), Minted ''0xrecipient'' 99000000 ''0xd1'',
        DepositMarked ''0xd1'', HashesStored ''0xd1'', CursorSaved deposit 100]"
  "bscLastBlock (snd (fst (monitorBscDeposits (blockPass sampleDeposit) (0, sampleRelayer)))) = 100"
  "lastBscBlock (stateManager
      (snd (fst (monitorBscDeposits (blockPass sampleDeposit) (0, sampleRelayer))))) = Some 100"
  by code_simp+

lemma sample_handled:
  "snd (handleInOrder handleBscDeposit (\<lambda>i. sampleEnv) [sampleDeposit] sampleRelayer)
     = [Dispatched sampleDeposit, HeadPolled 110, ReceiptFetched (JStr ''0xtx1''),
        Minted ''0xrecipient'' 99000000 ''0xd1'', DepositMarked ''0xd1'', HashesStored ''0xd1'']"
  "processedDeposits (stateManager
      (fst (handleInOrder handleBscDeposit (\<lambda>i. sampleEnv) [sampleDeposit] sampleRelayer)))
     = [''0xd1'']"
  by code_simp+

lemma sample_run:
  "bscLastBlock (snd (fst (runBscMonitor sampleRun (0, sampleRelayer)))) = 101"
  "lastBscBlock (stateManager (snd (fst (runBscMonitor sampleRun (0, sampleRelayer)))))
     = Some 101"
  "processedDeposits (stateManager (snd (fst (runBscMonitor sampleRun (0, sampleRelayer)))))
     = [''0xd1'']"
  by code_simp+

theorem watcher_scans_one_block_witness:
  "head (blockPass sampleDeposit) = Returns 101 \<and> bscLastBlock sampleRelayer < 101
   \<and> queryFilter (blockPass sampleDeposit) 100 100 = Returns [sampleDeposit]
   \<and> queriesOf (snd (monitorBscDeposits (blockPass sampleDeposit) (0, sampleRelayer)))
       = [(100, 100)]
   \<and> dispatchedOf (beforeSave
         (snd (monitorBscDeposits (blockPass sampleDeposit) (0, sampleRelayer))))
       = [sampleDeposit]
   \<and> savesOf (snd (monitorBscDeposits (blockPass sampleDeposit) (0, sampleRelayer)))
       = [(deposit, 100)]
   \<and> bscLastBlock (snd (fst (monitorBscDeposits (blockPass sampleDeposit) (0, sampleRelayer))))
       = 100
   \<and> snd (monitorBscDeposits (blockPass sampleDeposit) (0, sampleRelayer))
       = [HeadPolled 101, Queried 100 100, Dispatched sampleDeposit, HeadPolled 110,
          ReceiptFetched (JStr ''0xtx1''), Minted ''0xrecipient'' 99000000 ''0xd1'',
          DepositMarked ''0xd1'', HashesStored ''0xd1'', CursorSaved deposit 100]
   \<and> processedDeposits (stateManager
         (snd (fst (monitorBscDeposits (blockPass sampleDeposit) (0, sampleRelayer)))))
       = [''0xd1'']
   \<and> lastBscBlock (stateManager
         (snd (fst (monitorBscDeposits (blockPass sampleDeposit) (0, sampleRelayer)))))
       = Some 100
   \<and> lastSaved (stateManager
         (snd (fst (monitorBscDeposits (blockPass sampleDeposit) (0, sampleRelayer)))))
       = Some 2000
   \<and> bscSynced sampleRelayer
   \<and> bscLastBlock sampleRelayer = 99
   \<and> bscLastBlock (snd (fst (runBscMonitor sampleRun (0, sampleRelayer)))) = 101
   \<and> bscSynced (snd (fst (runBscMonitor sampleRun (0, sampleRelayer))))
   \<and> lastBscBlock (stateManager sampleRelayer) = None
   \<and> lastBscBlock (stateManager (snd (fst (runBscMonitor sampleRun (0, sampleRelayer)))))
       = Some 101"
proof -
  have h: "head (blockPass sampleDeposit) = Returns 101" "bscLastBlock sampleRelayer = 99"
    "queryFilter (blockPass sampleDeposit) 100 100 = Returns [sampleDeposit]"
    "handlerEnv (blockPass sampleDeposit) = (\<lambda>i. sampleEnv)"
    "watchClock (blockPass sampleDeposit) = 2000"
    "lastBscBlock (stateManager sampleRelayer) = None"
    by (simp_all add: blockPass_def sampleRelayer_def emptyState_def)
  have s: "bscSynced sampleRelayer"
    by (simp add: bscSynced_def sampleRelayer_def emptyState_def)
  note inst = watcher_scans_one_block
         [where env = "blockPass sampleDeposit" and currentBlock = 101 and r = sampleRelayer
            and n = 0 and envs = sampleRun and events = "[sampleDeposit]"]
  obtain r1 t1 where
    H: "handleInOrder handleBscDeposit (\<lambda>i. sampleEnv) [sampleDeposit] sampleRelayer = (r1, t1)"
    by (cases "handleInOrder handleBscDeposit (\<lambda>i. sampleEnv) [sampleDeposit] sampleRelayer")
  from sample_handled H have t1: "t1 = [Dispatched sampleDeposit, HeadPolled 110,
        ReceiptFetched (JStr ''0xtx1''), Minted ''0xrecipient'' 99000000 ''0xd1'',
        DepositMarked ''0xd1'', HashesStored ''0xd1'']"
    and r1: "processedDeposits (stateManager r1) = [''0xd1'']"
    by simp_all
  from inst h H have pass: "monitorBscDeposits (blockPass sampleDeposit) (0, sampleRelayer)
      = ((0, r1\<lparr>bscLastBlock := 100,
                stateManager := (stateManager r1)\<lparr>lastBscBlock := Some 100,
                                                  lastSaved := Some 2000\<rparr>\<rparr>),
         HeadPolled 101 # Queried 100 100 # t1 @ [CursorSaved deposit 100])"
    by simp
  obtain n' r' t where R: "runBscMonitor sampleRun (0, sampleRelayer) = ((n', r'), t)"
    by (cases "runBscMonitor sampleRun (0, sampleRelayer)") auto
  from inst R s have mono: "bscLastBlock sampleRelayer \<le> bscLastBlock r'" "bscSynced r'"
    by simp_all
  from sample_run R have run: "bscLastBlock r' = 101"
    "lastBscBlock (stateManager r') = Some 101"
    by simp_all
  have "queriesOf (snd (monitorBscDeposits (blockPass sampleDeposit) (0, sampleRelayer)))
       = [(100, 100)]"
    "dispatchedOf (beforeSave
         (snd (monitorBscDeposits (blockPass sampleDeposit) (0, sampleRelayer))))
       = [sampleDeposit]"
    "savesOf (snd (monitorBscDeposits (blockPass sampleDeposit) (0, sampleRelayer)))
       = [(deposit, 100)]"
    using inst h by (simp_all split: prod.splits)
  with h s pass t1 r1 R mono run show ?thesis
    by simp
qed

subsection \<open>Rotation and backoff\<close>

lemma getNextBscRpc_round_robin:
  "currentBscRpcIndex (snd (getNextBscRpc r)) = (currentBscRpcIndex r + 1) mod 6
   \<and> fst (getNextBscRpc r) = bscRpcEndpoints ! ((currentBscRpcIndex r + 1) mod 6)
   \<and> length bscRpcEndpoints = 6"
  by (simp add: getNextBscRpc_def bscRpcEndpoints_def Let_def)

lemma rateLimitWait_doubles:
  "rateLimitWait (Suc n) = min (5000 * 2 ^ n) 60000"
  "rateLimitWait 1 = 5000" "rateLimitWait 2 = 10000" "rateLimitWait 3 = 20000"
  "rateLimitWait 4 = 40000" "rateLimitWait 5 = 60000"
  by (simp_all add: rateLimitWait_def)

lemma rateLimitWait_cap: "4 \<le> n \<Longrightarrow> rateLimitWait (Suc n) = 60000"
proof -
  assume "4 \<le> n"
  then have "(2::int) ^ 4 \<le> 2 ^ n"
    by (intro power_increasing) simp_all
  then show ?thesis
    by (simp add: rateLimitWait_def)
qed

lemma bscMonitorCatch_rate_limit:
  "isRateLimit msg \<Longrightarrow>
   bscMonitorCatch msg (n, r)
     = ((Suc n, r\<lparr>currentBscRpcIndex := (currentBscRpcIndex r + 1) mod 6\<rparr>),
        [Rotated ((currentBscRpcIndex r + 1) mod 6), Slept (min (5000 * 2 ^ n) 60000)])"
  by (simp add: bscMonitorCatch_def getNextBscRpc_def bscRpcEndpoints_def Let_def
      rateLimitWait_def)

lemma bscMonitorCatch_network:
  "\<not> isRateLimit msg \<Longrightarrow> isNetwork msg \<Longrightarrow>
   bscMonitorCatch msg (n, r) = ((Suc n, r), [Slept 10000])"
  by (simp add: bscMonitorCatch_def Let_def)

lemma bscMonitorCatch_other:
  "\<not> isRateLimit msg \<Longrightarrow> \<not> isNetwork msg \<Longrightarrow>
   bscMonitorCatch msg (n, r) = ((Suc n, r), [Slept 15000])"
  by (simp add: bscMonitorCatch_def Let_def)

lemma monitorBsc_scan_resets:
  assumes "head env = Returns currentBlock" and "bscLastBlock r < currentBlock"
    and "queryFilter env (bscLastBlock r + 1) (bscLastBlock r + 1) = Returns events"
  shows "fst (fst (monitorBscDeposits env (n, r))) = 0"
proof -
  obtain r1 t where "dispatch handleBscDeposit (handlerEnv env) 0 events r = (r1, t)"
    by (cases "dispatch handleBscDeposit (handlerEnv env) 0 events r")
  from monitorBsc_scanned [OF assms this, of n] show ?thesis by simp
qed

text \<open>
  C9, as the code has it. The catch block of \<^verbatim>\<open>monitorBscDeposits\<close> adds one to the
  counter for an error of any class. On a rate-limit error it advances the index of the
  endpoint by one modulo six, the number of endpoints, and sleeps
  \<open>min (5000 * 2 ^ (k - 1)) 60000\<close> ms for the new value \<open>k\<close> of the counter, which is
  60000 ms from the fifth error on; on a network error it sleeps 10000 ms and on any
  other error 15000 ms, both without rotation. The counter is set to zero only by a pass
  that scans a block: a pass that finds the loop caught up keeps it, so \<open>k\<close> counts the
  errors since the last scanned block, not the failures in a row.
\<close>

theorem backoff_follows_error_counter:
  "(isRateLimit msg \<longrightarrow>
      bscMonitorCatch msg (n, r)
        = ((Suc n, r\<lparr>currentBscRpcIndex := (currentBscRpcIndex r + 1) mod 6\<rparr>),
           [Rotated ((currentBscRpcIndex r + 1) mod 6), Slept (min (5000 * 2 ^ n) 60000)]))
   \<and> (\<not> isRateLimit msg \<and> isNetwork msg \<longrightarrow>
      bscMonitorCatch msg (n, r) = ((Suc n, r), [Slept 10000]))
   \<and> (\<not> isRateLimit msg \<and> \<not> isNetwork msg \<longrightarrow>
      bscMonitorCatch msg (n, r) = ((Suc n, r), [Slept 15000]))
   \<and> length bscRpcEndpoints = 6
   \<and> getNextBscRpc r
       = (bscRpcEndpoints ! ((currentBscRpcIndex r + 1) mod 6),
          r\<lparr>currentBscRpcIndex := (currentBscRpcIndex r + 1) mod 6\<rparr>)
   \<and> rateLimitWait (Suc n) = min (5000 * 2 ^ n) 60000
   \<and> (4 \<le> n \<longrightarrow> rateLimitWait (Suc n) = 60000)
   \<and> (head env = Throws msg \<longrightarrow>
      monitorBscDeposits env (n, r) = bscMonitorCatch msg (n, r))
   \<and> (head env = Returns currentBlock \<and> \<not> bscLastBlock r < currentBlock \<longrightarrow>
      monitorBscDeposits env (n, r) = ((n, r), [HeadPolled currentBlock, Slept 5000]))
   \<and> (head env = Returns currentBlock \<and> bscLastBlock r < currentBlock
       \<and> queryFilter env (bscLastBlock r + 1) (bscLastBlock r + 1) = Throws msg \<longrightarrow>
      monitorBscDeposits env (n, r)
        = (case bscMonitorCatch msg (n, r) of
             (s1, t) \<Rightarrow>
               (s1, HeadPolled currentBlock
                      # Queried (bscLastBlock r + 1) (bscLastBlock r + 1) # t)))
   \<and> (head env = Returns currentBlock \<and> bscLastBlock r < currentBlock
       \<and> queryFilter env (bscLastBlock r + 1) (bscLastBlock r + 1) = Returns events \<longrightarrow>
      fst (fst (monitorBscDeposits env (n, r))) = 0)"
proof (intro conjI impI)
  assume "isRateLimit msg"
  then show "bscMonitorCatch msg (n, r)
        = ((Suc n, r\<lparr>currentBscRpcIndex := (currentBscRpcIndex r + 1) mod 6\<rparr>),
           [Rotated ((currentBscRpcIndex r + 1) mod 6), Slept (min (5000 * 2 ^ n) 60000)])"
    by (rule bscMonitorCatch_rate_limit)
next
  assume "\<not> isRateLimit msg \<and> isNetwork msg"
  then show "bscMonitorCatch msg (n, r) = ((Suc n, r), [Slept 10000])"
    by (simp add: bscMonitorCatch_network)
next
  assume "\<not> isRateLimit msg \<and> \<not> isNetwork msg"
  then show "bscMonitorCatch msg (n, r) = ((Suc n, r), [Slept 15000])"
    by (simp add: bscMonitorCatch_other)
next
  show "length bscRpcEndpoints = 6"
    by (simp add: bscRpcEndpoints_def)
next
  show "getNextBscRpc r
       = (bscRpcEndpoints ! ((currentBscRpcIndex r + 1) mod 6),
          r\<lparr>currentBscRpcIndex := (currentBscRpcIndex r + 1) mod 6\<rparr>)"
    by (simp add: getNextBscRpc_def bscRpcEndpoints_def Let_def)
next
  show "rateLimitWait (Suc n) = min (5000 * 2 ^ n) 60000"
    by (simp add: rateLimitWait_def)
next
  assume "4 \<le> n"
  then show "rateLimitWait (Suc n) = 60000"
    by (rule rateLimitWait_cap)
next
  assume "head env = Throws msg"
  then show "monitorBscDeposits env (n, r) = bscMonitorCatch msg (n, r)"
    by (rule monitorBsc_head_failed)
next
  assume "head env = Returns currentBlock \<and> \<not> bscLastBlock r < currentBlock"
  then show "monitorBscDeposits env (n, r) = ((n, r), [HeadPolled currentBlock, Slept 5000])"
    by (simp add: monitorBsc_caught_up)
next
  assume "head env = Returns currentBlock \<and> bscLastBlock r < currentBlock
       \<and> queryFilter env (bscLastBlock r + 1) (bscLastBlock r + 1) = Throws msg"
  then show "monitorBscDeposits env (n, r)
        = (case bscMonitorCatch msg (n, r) of
             (s1, t) \<Rightarrow>
               (s1, HeadPolled currentBlock
                      # Queried (bscLastBlock r + 1) (bscLastBlock r + 1) # t))"
    by (simp add: monitorBsc_query_failed)
next
  assume "head env = Returns currentBlock \<and> bscLastBlock r < currentBlock
       \<and> queryFilter env (bscLastBlock r + 1) (bscLastBlock r + 1) = Returns events"
  then show "fst (fst (monitorBscDeposits env (n, r))) = 0"
    by (simp add: monitorBsc_scan_resets)
qed

theorem backoff_follows_error_counter_witness:
  "isRateLimit ''429 Too Many Requests''
   \<and> head rateLimitedPass = Throws ''429 Too Many Requests''
   \<and> monitorBscDeposits rateLimitedPass (1, sampleRelayer)
       = ((2, sampleRelayer\<lparr>currentBscRpcIndex := 1\<rparr>), [Rotated 1, Slept 10000])
   \<and> head caughtUpPass = Returns 99 \<and> \<not> bscLastBlock sampleRelayer < 99
   \<and> monitorBscDeposits caughtUpPass (1, sampleRelayer)
       = ((1, sampleRelayer), [HeadPolled 99, Slept 5000])
   \<and> head (blockPass sampleDeposit) = Returns 101 \<and> bscLastBlock sampleRelayer < 101
   \<and> queryFilter (blockPass sampleDeposit) 100 100 = Returns [sampleDeposit]
   \<and> fst (fst (monitorBscDeposits (blockPass sampleDeposit) (1, sampleRelayer))) = 0
   \<and> \<not> isRateLimit ''timeout'' \<and> isNetwork ''timeout''
   \<and> bscMonitorCatch ''timeout'' (1, sampleRelayer) = ((2, sampleRelayer), [Slept 10000])
   \<and> \<not> isRateLimit ''boom'' \<and> \<not> isNetwork ''boom''
   \<and> bscMonitorCatch ''boom'' (1, sampleRelayer) = ((2, sampleRelayer), [Slept 15000])
   \<and> rateLimitWait 5 = 60000"
proof -
  have c: "isRateLimit ''429 Too Many Requests''"
    "\<not> isRateLimit ''timeout''" "isNetwork ''timeout''"
    "\<not> isRateLimit ''boom''" "\<not> isNetwork ''boom''"
    by code_simp+
  have h: "head rateLimitedPass = Throws ''429 Too Many Requests''"
    "head caughtUpPass = Returns 99" "bscLastBlock sampleRelayer = 99"
    "currentBscRpcIndex sampleRelayer = 0"
    "head (blockPass sampleDeposit) = Returns 101"
    "queryFilter (blockPass sampleDeposit) 100 100 = Returns [sampleDeposit]"
    by (simp_all add: rateLimitedPass_def caughtUpPass_def sampleRelayer_def blockPass_def)
  note a = backoff_follows_error_counter
             [where msg = "''429 Too Many Requests''" and n = 1 and r = sampleRelayer
                and env = rateLimitedPass]
  note b = backoff_follows_error_counter
             [where n = 1 and r = sampleRelayer and env = caughtUpPass and currentBlock = 99]
  note d = backoff_follows_error_counter
             [where n = 1 and r = sampleRelayer and env = "blockPass sampleDeposit"
                and currentBlock = 101 and events = "[sampleDeposit]"]
  note e = backoff_follows_error_counter
             [where msg = "''timeout''" and n = 1 and r = sampleRelayer]
  note f = backoff_follows_error_counter
             [where msg = "''boom''" and n = 1 and r = sampleRelayer]
  note g = backoff_follows_error_counter [where n = 4]
  have 1: "monitorBscDeposits rateLimitedPass (1, sampleRelayer)
       = ((2, sampleRelayer\<lparr>currentBscRpcIndex := 1\<rparr>), [Rotated 1, Slept 10000])"
    using a c h by simp
  have 2: "monitorBscDeposits caughtUpPass (1, sampleRelayer)
       = ((1, sampleRelayer), [HeadPolled 99, Slept 5000])"
    using b h by simp
  have 3: "fst (fst (monitorBscDeposits (blockPass sampleDeposit) (1, sampleRelayer))) = 0"
    using d h by simp
  have 4: "bscMonitorCatch ''timeout'' (1, sampleRelayer) = ((2, sampleRelayer), [Slept 10000])"
    using e c by simp
  have 5: "bscMonitorCatch ''boom'' (1, sampleRelayer) = ((2, sampleRelayer), [Slept 15000])"
    using f c by simp
  have 6: "rateLimitWait 5 = 60000"
    using g by simp
  from c h 1 2 3 4 5 6 show ?thesis
    by simp
qed

text \<open>
  C9 as stated fails. Between two rate-limit errors the loop makes a pass that succeeds
  (the head is where the cursor is, and the pass polls it and sleeps). The second error
  is the first failure in a row, for which the delay would be 5000 ms; the loop sleeps
  10000 ms, since the counter stands at 1 after the pass that found nothing to scan.
\<close>

theorem backoff_not_reset_counterexample:
  "snd (runBscMonitor [rateLimitedPass, caughtUpPass, rateLimitedPass] (0, sampleRelayer))
     = [Rotated 1, Slept 5000, HeadPolled 99, Slept 5000, Rotated 2, Slept 10000]
   \<and> snd (monitorBscDeposits caughtUpPass
            (fst (runBscMonitor [rateLimitedPass] (0, sampleRelayer))))
     = [HeadPolled 99, Slept 5000]
   \<and> fst (fst (runBscMonitor [rateLimitedPass, caughtUpPass] (0, sampleRelayer))) = 1
   \<and> rateLimitWait 1 = 5000"
proof (intro conjI)
  show "snd (runBscMonitor [rateLimitedPass, caughtUpPass, rateLimitedPass] (0, sampleRelayer))
     = [Rotated 1, Slept 5000, HeadPolled 99, Slept 5000, Rotated 2, Slept 10000]"
    by code_simp
  show "snd (monitorBscDeposits caughtUpPass
            (fst (runBscMonitor [rateLimitedPass] (0, sampleRelayer))))
     = [HeadPolled 99, Slept 5000]"
    by code_simp
  show "fst (fst (runBscMonitor [rateLimitedPass, caughtUpPass] (0, sampleRelayer))) = 1"
    by code_simp
  show "rateLimitWait 1 = 5000"
    by (simp add: rateLimitWait_def)
qed

subsection \<open>What the confirmation wait decides\<close>

lemma awaitConfirmations_enough:
  "poll 0 = Returns c0 \<Longrightarrow> \<not> c0 - b < requiredConfirmations \<Longrightarrow>
   awaitConfirmations poll b ms = (Inr (c0 - b), [HeadPolled c0])"
  by (simp add: awaitConfirmations_def)

lemma awaitConfirmations_short:
  "poll 0 = Returns c0 \<Longrightarrow> c0 - b < requiredConfirmations \<Longrightarrow> poll 1 = Returns c1 \<Longrightarrow>
   awaitConfirmations poll b ms
     = (Inr (c1 - b),
        [HeadPolled c0, Slept ((requiredConfirmations - (c0 - b)) * ms), HeadPolled c1])"
  by (simp add: awaitConfirmations_def Let_def)

end
